(* ===== verification/Gitd_Prelude.thy ===== *)
theory Gitd_Prelude
  imports Main "HOL-Library.Char_ord" "HOL-Library.List_Lexorder" "HOL-Library.Sublist"
begin

text \<open>
  The prelude of the development: the collections of simplification rules its theories share, and
  the facts about lists, lexicographic order and fixed-width decimal numerals that the models of
  Go's string, time and path libraries rest on. A Go \<open>string\<close> or \<open>[]byte\<close> is an Isabelle
  \<^typ>\<open>string\<close>: a \<^typ>\<open>char\<close> is exactly one byte, and the order of \<open>HOL-Library.Char_ord\<close> with
  \<open>HOL-Library.List_Lexorder\<close> is Go's bytewise string order.
\<close>

named_theorems go_simps \<open>unfolding rules for the models of Go library functions\<close>
named_theorems fs_simps \<open>effects of the file system calls on the observed state\<close>
named_theorems wp_simps \<open>unfolding rules for the monadic operations of the components\<close>

named_theorems frame \<open>introduction rules saying what a call leaves unchanged\<close>

type_synonym bytes = string

subsection \<open>Characters\<close>

abbreviation newline_char :: char where "newline_char \<equiv> CHR 0x0A"
abbreviation return_char :: char where "return_char \<equiv> CHR 0x0D"
abbreviation tab_char :: char where "tab_char \<equiv> CHR 0x09"
abbreviation nul_char :: char where "nul_char \<equiv> CHR 0x00"
abbreviation quote_char :: char where "quote_char \<equiv> CHR 0x27"
abbreviation dquote_char :: char where "dquote_char \<equiv> CHR 0x22"
abbreviation backslash_char :: char where "backslash_char \<equiv> CHR 0x5C"

definition code :: "char \<Rightarrow> nat" where
  "code c = of_char c"

lemma code_inject [simp]: "code a = code b \<longleftrightarrow> a = b"
  by (simp add: code_def)

lemma code_less [simp]: "code a < code b \<longleftrightarrow> a < b"
  by (simp add: code_def less_char_def)

lemma code_less_256: "code c < 256"
  by (simp add: code_def of_char_def)


subsection \<open>Machine integers\<close>

text \<open>The value of Go's \<open>int\<close> (64 bits, two's complement) after an operation that may overflow.\<close>

definition wrap64 :: "int \<Rightarrow> int" where
  "wrap64 i = (i + 2 ^ 63) mod 2 ^ 64 - 2 ^ 63"

lemma wrap64_id [simp]: "- (2 ^ 63) \<le> i \<Longrightarrow> i < 2 ^ 63 \<Longrightarrow> wrap64 i = i"
  by (simp add: wrap64_def)

lemma wrap64_range: "- (2 ^ 63) \<le> wrap64 i \<and> wrap64 i < 2 ^ 63"
  by (simp add: wrap64_def)

subsection \<open>Lexicographic order on strings\<close>

lemma less_append_same_length:
  fixes xs ys us vs :: "'a::linorder list"
  assumes "length xs = length ys" and "xs < ys"
  shows "xs @ us < ys @ vs"
  using assms by (induction xs ys rule: list_induct2) auto

lemma less_append_left [simp]:
  fixes us vs :: "'a::linorder list"
  shows "xs @ us < xs @ vs \<longleftrightarrow> us < vs"
  by (induction xs) auto

lemma sorted_last_greatest:
  fixes xs :: "'a::linorder list"
  assumes "sorted xs" and "x \<in> set xs"
  shows "x \<le> last xs"
proof -
  from assms(2) have "xs \<noteq> []" by auto
  then have "xs = butlast xs @ [last xs]" by simp
  with assms show ?thesis by (metis Un_iff empty_iff empty_set order_refl set_append set_ConsD sorted_append list.set_intros(1))
qed

subsection \<open>Lists related element by element\<close>

lemma list_all2_left: "list_all2 P xs ys \<Longrightarrow> x \<in> set xs \<Longrightarrow> \<exists>y \<in> set ys. P x y"
  by (induction rule: list_all2_induct) auto

lemma list_all2_right: "list_all2 P xs ys \<Longrightarrow> y \<in> set ys \<Longrightarrow> \<exists>x \<in> set xs. P x y"
  by (induction rule: list_all2_induct) auto

subsection \<open>Fixed-width decimal numerals\<close>

text \<open>The zero-padded decimals that \<open>time.Format\<close> prints, and the value of a digit string.\<close>

definition digit_char :: "nat \<Rightarrow> char" where
  "digit_char d = char_of (48 + d)"

definition is_digit :: "char \<Rightarrow> bool" where
  "is_digit c \<longleftrightarrow> 48 \<le> code c \<and> code c \<le> 57"

fun pad_dec :: "nat \<Rightarrow> nat \<Rightarrow> string" where
  "pad_dec 0 n = []"
| "pad_dec (Suc w) n = pad_dec w (n div 10) @ [digit_char (n mod 10)]"

definition dec_value :: "string \<Rightarrow> nat" where
  "dec_value s = foldl (\<lambda>n c. 10 * n + (code c - 48)) 0 s"

lemma code_digit_char [simp]: "d < 10 \<Longrightarrow> code (digit_char d) = 48 + d"
  by (simp add: code_def digit_char_def)

lemma is_digit_digit_char [simp]: "d < 10 \<Longrightarrow> is_digit (digit_char d)"
  by (simp add: is_digit_def)

lemma digit_char_less [simp]: "a < 10 \<Longrightarrow> b < 10 \<Longrightarrow> digit_char a < digit_char b \<longleftrightarrow> a < b"
  by (metis code_digit_char code_less nat_add_left_cancel_less)

lemma length_pad_dec [simp]: "length (pad_dec w n) = w"
  by (induction w arbitrary: n) auto

lemma pad_dec_digits: "c \<in> set (pad_dec w n) \<Longrightarrow> is_digit c"
  by (induction w arbitrary: n) auto

lemma dec_value_append: "dec_value (s @ [c]) = 10 * dec_value s + (code c - 48)"
  by (simp add: dec_value_def)

lemma dec_value_pad_dec: "n < 10 ^ w \<Longrightarrow> dec_value (pad_dec w n) = n"
proof (induction w arbitrary: n)
  case 0
  then show ?case by (simp add: dec_value_def)
next
  case (Suc w)
  from Suc.prems have "n div 10 < 10 ^ w" by (simp add: div_less_iff_less_mult mult.commute)
  with Suc.IH show ?case by (simp add: dec_value_append)
qed

lemma pad_dec_less: "a < b \<Longrightarrow> b < 10 ^ w \<Longrightarrow> pad_dec w a < pad_dec w b"
proof (induction w arbitrary: a b)
  case 0
  then show ?case by simp
next
  case (Suc w)
  show ?case
  proof (cases "a div 10 < b div 10")
    case True
    from Suc.prems have "b div 10 < 10 ^ w" by (simp add: div_less_iff_less_mult mult.commute)
    with True have "pad_dec w (a div 10) < pad_dec w (b div 10)" by (rule Suc.IH)
    then show ?thesis by (simp add: less_append_same_length)
  next
    case False
    with Suc.prems have "a div 10 = b div 10" by (meson div_le_mono less_imp_le_nat order_le_less)
    moreover from this Suc.prems have "a mod 10 < b mod 10"
      by (metis add.commute mod_div_mult_eq nat_add_left_cancel_less)
    ultimately show ?thesis by simp
  qed
qed

end
