(* ===== verification/Go_Strings.thy ===== *)
theory Go_Strings
  imports Gitd_Prelude
begin

text \<open>
  The functions of Go's \<open>strings\<close>, \<open>bytes\<close>, \<open>encoding/hex\<close> and \<open>bufio\<close> packages that gitd calls,
  on byte strings. White space is what \<open>unicode.IsSpace\<close> accepts, read on the UTF-8 encoding: the
  lead byte of a multi-byte space never occurs inside another rune, so a bytewise scan finds the
  same spaces as Go's rune scan.
\<close>

section \<open>Prefixes, suffixes and single-character separators\<close>

definition HasPrefix :: "string \<Rightarrow> string \<Rightarrow> bool" where
  "HasPrefix s p \<longleftrightarrow> take (length p) s = p"

definition HasSuffix :: "string \<Rightarrow> string \<Rightarrow> bool" where
  "HasSuffix s p \<longleftrightarrow> length p \<le> length s \<and> drop (length s - length p) s = p"

definition CutPrefix :: "string \<Rightarrow> string \<Rightarrow> string option" where
  "CutPrefix s p = (if HasPrefix s p then Some (drop (length p) s) else None)"

definition CutSuffix :: "string \<Rightarrow> string \<Rightarrow> string option" where
  "CutSuffix s p = (if HasSuffix s p then Some (take (length s - length p) s) else None)"

definition TrimPrefix :: "string \<Rightarrow> string \<Rightarrow> string" where
  "TrimPrefix s p = (if HasPrefix s p then drop (length p) s else s)"

definition TrimSuffix :: "string \<Rightarrow> string \<Rightarrow> string" where
  "TrimSuffix s p = (if HasSuffix s p then take (length s - length p) s else s)"

text \<open>\<open>strings.Cut(s, sep)\<close> for a one-byte separator: before and after its first occurrence.\<close>

definition cut_at :: "char \<Rightarrow> string \<Rightarrow> (string \<times> string) option" where
  "cut_at c s = (if c \<in> set s then Some (takeWhile (\<lambda>x. x \<noteq> c) s, tl (dropWhile (\<lambda>x. x \<noteq> c) s))
                 else None)"

text \<open>\<open>strings.Split(s, sep)\<close> for a one-byte separator: the empty string splits into one empty field.\<close>

fun split_on :: "char \<Rightarrow> string \<Rightarrow> string list" where
  "split_on c [] = [[]]"
| "split_on c (x # xs) =
     (if x = c then [] # split_on c xs
      else (case split_on c xs of [] \<Rightarrow> [[x]] | w # ws \<Rightarrow> (x # w) # ws))"

fun join_with :: "string \<Rightarrow> string list \<Rightarrow> string" where
  "join_with sep [] = []"
| "join_with sep [w] = w"
| "join_with sep (w # ws) = w @ sep @ join_with sep ws"

definition ReplaceAll_char :: "char \<Rightarrow> char \<Rightarrow> string \<Rightarrow> string" where
  "ReplaceAll_char a b s = map (\<lambda>c. if c = a then b else c) s"

section \<open>White space\<close>

definition ascii_space :: "char \<Rightarrow> bool" where
  "ascii_space c \<longleftrightarrow> c = CHR '' '' \<or> (9 \<le> code c \<and> code c \<le> 13)"

text \<open>The number of bytes of the white space rune at the start of a string, 0 when there is none.\<close>

fun space_len :: "string \<Rightarrow> nat" where
  "space_len [] = 0"
| "space_len (c # cs) =
     (if ascii_space c then 1
      else if c = CHR 0xC2 \<and> cs \<noteq> [] \<and> hd cs \<in> {CHR 0x85, CHR 0xA0} then 2
      else if c = CHR 0xE1 \<and> take 2 cs = [CHR 0x9A, CHR 0x80] then 3
      else if c = CHR 0xE2 \<and> 2 \<le> length cs \<and> hd cs = CHR 0x80 \<and>
           (code (cs ! 1) \<in> {128..138} \<or> cs ! 1 \<in> {CHR 0xA8, CHR 0xA9, CHR 0xAF}) then 3
      else if c = CHR 0xE2 \<and> take 2 cs = [CHR 0x81, CHR 0x9F] then 3
      else if c = CHR 0xE3 \<and> take 2 cs = [CHR 0x80, CHR 0x80] then 3
      else 0)"

text \<open>The same for the white space rune at the end, on the reversed string.\<close>

fun space_len_rev :: "string \<Rightarrow> nat" where
  "space_len_rev [] = 0"
| "space_len_rev (c # cs) =
     (if ascii_space c then 1
      else if cs \<noteq> [] \<and> space_len [hd cs, c] = 2 then 2
      else if 2 \<le> length cs \<and> space_len [cs ! 1, hd cs, c] = 3 then 3
      else 0)"

function TrimLeft_space :: "string \<Rightarrow> string" where
  "TrimLeft_space s = (let n = space_len s in if n = 0 then s else TrimLeft_space (drop n s))"
  by pat_completeness auto
termination
proof (relation "measure length")
  fix s :: string and n :: nat
  assume "n = space_len s" "n \<noteq> 0"
  then show "(drop n s, s) \<in> measure length" by (cases s) auto
qed simp

declare TrimLeft_space.simps [simp del]

function TrimRight_space_rev :: "string \<Rightarrow> string" where
  "TrimRight_space_rev r =
     (let n = space_len_rev r in if n = 0 then r else TrimRight_space_rev (drop n r))"
  by pat_completeness auto
termination
proof (relation "measure length")
  fix r :: string and n :: nat
  assume "n = space_len_rev r" "n \<noteq> 0"
  then show "(drop n r, r) \<in> measure length" by (cases r) auto
qed simp

declare TrimRight_space_rev.simps [simp del]

definition TrimSpace :: "string \<Rightarrow> string" where
  "TrimSpace s = rev (TrimRight_space_rev (rev (TrimLeft_space s)))"

declare space_len.simps [simp del] space_len_rev.simps [simp del]

text \<open>\<open>strings.Fields\<close>: the maximal runs of non-space bytes, left to right.\<close>

fun fields_from :: "string \<Rightarrow> string \<Rightarrow> string list" where
  "fields_from cur [] = (if cur = [] then [] else [rev cur])"
| "fields_from cur (c # cs) =
     (let n = space_len (c # cs) in
      if n = 0 then fields_from (c # cur) cs
      else (if cur = [] then [] else [rev cur]) @ fields_from [] (drop (n - 1) cs))"

definition Fields :: "string \<Rightarrow> string list" where
  "Fields s = fields_from [] s"

section \<open>Line scanning\<close>

text \<open>
  \<open>bufio.Scanner\<close> with \<open>ScanLines\<close>: lines end at a newline, one trailing carriage return is
  dropped, and a line of \<open>bufio.MaxScanTokenSize\<close> (64 KiB) bytes or more stops the scan with
  \<open>ErrTooLong\<close>: the lines before it are delivered and \<open>Err()\<close> is non-nil.
\<close>

definition max_token :: int where
  "max_token = 65536"

definition drop_cr :: "string \<Rightarrow> string" where
  "drop_cr l = (if l \<noteq> [] \<and> last l = return_char then butlast l else l)"

definition raw_lines :: "string \<Rightarrow> string list" where
  "raw_lines s = (let ws = split_on newline_char s in if last ws = [] then butlast ws else ws)"

definition scan_lines :: "string \<Rightarrow> string list \<times> bool" where
  "scan_lines s =
     (let ls = raw_lines s; ok = takeWhile (\<lambda>l. int (length l) < max_token) ls
      in (map drop_cr ok, length ok < length ls))"

section \<open>Hexadecimal\<close>

definition hex_digit :: "nat \<Rightarrow> char" where
  "hex_digit d = (if d < 10 then char_of (48 + d) else char_of (87 + d))"

definition hex_EncodeToString :: "bytes \<Rightarrow> string" where
  "hex_EncodeToString b = concat (map (\<lambda>c. [hex_digit (code c div 16), hex_digit (code c mod 16)]) b)"

section \<open>Decimal numbers\<close>

text \<open>\<open>strconv.Itoa\<close>.\<close>

fun show_nat :: "nat \<Rightarrow> string" where
  "show_nat n = (if n < 10 then [digit_char n] else show_nat (n div 10) @ [digit_char (n mod 10)])"

declare show_nat.simps [simp del]

definition show_int :: "int \<Rightarrow> string" where
  "show_int i = (if i < 0 then CHR ''-'' # show_nat (nat (- i)) else show_nat (nat i))"

section \<open>Facts\<close>

lemma HasPrefix_iff: "HasPrefix s p \<longleftrightarrow> (\<exists>r. s = p @ r)"
  by (metis HasPrefix_def append_eq_conv_conj append_take_drop_id)

lemma HasPrefix_append [simp]: "HasPrefix (p @ r) p"
  by (simp add: HasPrefix_def)

lemma HasPrefix_Cons [simp]:
  "HasPrefix (c # s) (d # p) \<longleftrightarrow> c = d \<and> HasPrefix s p"
  "HasPrefix s []" "\<not> HasPrefix [] (d # p)"
  by (auto simp: HasPrefix_def)

lemma HasSuffix_iff: "HasSuffix s p \<longleftrightarrow> (\<exists>r. s = r @ p)"
proof
  assume "HasSuffix s p"
  then have "s = take (length s - length p) s @ p"
    by (metis HasSuffix_def append_take_drop_id)
  then show "\<exists>r. s = r @ p" by blast
qed (auto simp: HasSuffix_def)

lemma HasSuffix_append [simp]: "HasSuffix (r @ p) p"
  by (auto simp: HasSuffix_iff)

lemma CutPrefix_append [simp]: "CutPrefix (p @ r) p = Some r"
  by (simp add: CutPrefix_def)

lemma CutPrefix_Some: "CutPrefix s p = Some r \<longleftrightarrow> s = p @ r"
  by (auto simp: CutPrefix_def HasPrefix_iff)

lemma CutSuffix_append [simp]: "CutSuffix (r @ p) p = Some r"
  by (simp add: CutSuffix_def)

lemma CutSuffix_Some: "CutSuffix s p = Some r \<longleftrightarrow> s = r @ p"
  by (auto simp: CutSuffix_def HasSuffix_iff)

lemma TrimSuffix_append [simp]: "TrimSuffix (r @ p) p = r"
  by (simp add: TrimSuffix_def)

lemma cut_at_append [simp]: "c \<notin> set a \<Longrightarrow> cut_at c (a @ c # b) = Some (a, b)"
  by (induction a) (auto simp: cut_at_def)

lemma split_on_not_Nil [simp]: "split_on c s \<noteq> []"
  by (cases s) (auto split: list.splits)

lemma split_on_no_sep: "c \<notin> set s \<Longrightarrow> split_on c s = [s]"
  by (induction s) auto

lemma split_on_append: "split_on c (a @ c # b) = split_on c a @ split_on c b"
  by (induction a) (auto split: list.splits)

lemma split_on_pieces: "w \<in> set (split_on c s) \<Longrightarrow> c \<notin> set w"
  by (induction s arbitrary: w) (auto split: list.splits if_splits)

lemma join_with_Cons: "ws \<noteq> [] \<Longrightarrow> join_with sep (w # ws) = w @ sep @ join_with sep ws"
  by (cases ws) auto

lemma join_split_on: "join_with [c] (split_on c s) = s"
proof (induction s)
  case (Cons x xs)
  obtain w ws where ws: "split_on c xs = w # ws" by (metis split_on_not_Nil neq_Nil_conv)
  show ?case
  proof (cases "x = c")
    case True
    then show ?thesis using Cons by (simp add: join_with_Cons)
  next
    case False
    then show ?thesis using Cons ws by (cases ws) auto
  qed
qed simp

lemma fields_from_nonempty: "w \<in> set (fields_from cur s) \<Longrightarrow> w \<noteq> []"
  by (induction cur s rule: fields_from.induct) (auto simp: Let_def split: if_splits)

lemma Fields_nonempty: "w \<in> set (Fields s) \<Longrightarrow> w \<noteq> []"
  by (simp add: Fields_def fields_from_nonempty)

lemma space_len_ascii:
  assumes "code c < 128"
  shows "space_len (c # cs) = (if ascii_space c then 1 else 0)"
proof -
  have "code (CHR 0xC2) = 194" "code (CHR 0xE1) = 225" "code (CHR 0xE2) = 226" "code (CHR 0xE3) = 227"
    by (simp_all add: code_def)
  with assms have "c \<noteq> CHR 0xC2" "c \<noteq> CHR 0xE1" "c \<noteq> CHR 0xE2" "c \<noteq> CHR 0xE3"
    by (auto simp del: code_inject)
  then show ?thesis by (simp add: space_len.simps)
qed

lemma show_nat_digits: "list_all is_digit (show_nat n) \<and> show_nat n \<noteq> []"
proof (induction n rule: show_nat.induct)
  case (1 n)
  then show ?case by (simp add: show_nat.simps [of n])
qed

lemma dec_value_show_nat: "dec_value (show_nat n) = n"
proof (induction n rule: show_nat.induct)
  case (1 n)
  then show ?case
    by (cases "n < 10") (simp_all add: show_nat.simps [of n] dec_value_append dec_value_def)
qed

lemma ReplaceAll_char_less:
  fixes s u :: string
  assumes "length s = length u" "map (\<lambda>c. c = a) s = map (\<lambda>c. c = a) u" "s < u"
  shows "ReplaceAll_char a b s < ReplaceAll_char a b u"
  using assms by (induction s u rule: list_induct2) (auto simp: ReplaceAll_char_def)


lemma cut_at_Some: "cut_at c s = Some (a, b) \<Longrightarrow> s = a @ c # b"
  by (induction s arbitrary: a) (auto simp: cut_at_def split: if_splits)

end
