(* ===== verification/Go_Path.thy ===== *)
theory Go_Path
  imports Go_Strings
begin

text \<open>
  Go's \<open>path\<close> and \<open>path/filepath\<close> packages on Unix: \<open>Clean\<close>, \<open>Join\<close>, \<open>Base\<close>, \<open>Dir\<close>, \<open>Ext\<close> and the
  glob matcher \<open>path.Match\<close>. \<open>Clean\<close> is written on the list of slash-separated elements; a stack
  of the elements kept so far replaces Go's output buffer.
\<close>

section \<open>Clean, Join, Base, Dir, Ext\<close>

abbreviation slash :: char where "slash \<equiv> CHR ''/''"

text \<open>One element against the reversed stack of kept elements.\<close>

definition clean_step :: "bool \<Rightarrow> string list \<Rightarrow> string \<Rightarrow> string list" where
  "clean_step rooted st e =
     (if e = [] \<or> e = ''.'' then st
      else if e = ''..'' then
        (case st of
           [] \<Rightarrow> if rooted then [] else [''..'']
         | t # ts \<Rightarrow> if t = ''..'' then ''..'' # st else ts)
      else e # st)"

definition is_rooted :: "string \<Rightarrow> bool" where
  "is_rooted p \<longleftrightarrow> p \<noteq> [] \<and> hd p = slash"

definition clean_elems :: "string \<Rightarrow> string list" where
  "clean_elems p = rev (foldl (clean_step (is_rooted p)) [] (split_on slash p))"

definition show_path :: "bool \<Rightarrow> string list \<Rightarrow> string" where
  "show_path rooted es =
     (if rooted then slash # join_with [slash] es
      else if es = [] then ''.'' else join_with [slash] es)"

definition Clean :: "string \<Rightarrow> string" where
  "Clean p = show_path (is_rooted p) (clean_elems p)"

definition Join :: "string list \<Rightarrow> string" where
  "Join es = (let ks = dropWhile (\<lambda>e. e = []) es in
              if ks = [] then [] else Clean (join_with [slash] ks))"

definition strip_slashes :: "string \<Rightarrow> string" where
  "strip_slashes p = rev (dropWhile (\<lambda>c. c = slash) (rev p))"

definition after_last_slash :: "string \<Rightarrow> string" where
  "after_last_slash p = rev (takeWhile (\<lambda>c. c \<noteq> slash) (rev p))"

definition upto_last_slash :: "string \<Rightarrow> string" where
  "upto_last_slash p = rev (dropWhile (\<lambda>c. c \<noteq> slash) (rev p))"

definition Base :: "string \<Rightarrow> string" where
  "Base p = (if p = [] then ''.''
             else let q = after_last_slash (strip_slashes p) in if q = [] then ''/'' else q)"

definition Dir :: "string \<Rightarrow> string" where
  "Dir p = Clean (upto_last_slash p)"

definition Ext :: "string \<Rightarrow> string" where
  "Ext p = (let b = after_last_slash p in
            if CHR ''.'' \<in> set b
            then CHR ''.'' # rev (takeWhile (\<lambda>c. c \<noteq> CHR ''.'') (rev b)) else [])"

section \<open>path.Match\<close>

text \<open>
  The glob matcher. The pattern is parsed into chunks, each a flag for a preceding \<open>*\<close> and a list
  of single-rune items; a malformed pattern (\<open>ErrBadPattern\<close>) is \<open>None\<close>. Matching follows Go: each
  chunk takes its leftmost match, and a star never skips a slash. gitd reads only the boolean, so a
  bad pattern never matches.
\<close>

text \<open>The width of the rune at the start of a string, and its UTF-8 encoding (\<open>U+FFFD\<close> when invalid).\<close>

definition is_cont :: "char \<Rightarrow> bool" where
  "is_cont c \<longleftrightarrow> 128 \<le> code c \<and> code c < 192"

definition valid_rune :: "string \<Rightarrow> nat" where
  "valid_rune s =
     (case s of [] \<Rightarrow> 0 | a # t \<Rightarrow>
       let x = code a; y = (if t = [] then 0 else code (hd t));
           conts = (\<lambda>n. n \<le> length t \<and> list_all is_cont (take n t))
       in if x < 128 then 1
          else if 194 \<le> x \<and> x < 224 \<and> conts 1 then 2
          else if 224 \<le> x \<and> x < 240 \<and> conts 2 \<and> (x = 224 \<longrightarrow> 160 \<le> y) \<and> (x = 237 \<longrightarrow> y < 160) then 3
          else if 240 \<le> x \<and> x < 245 \<and> conts 3 \<and> (x = 240 \<longrightarrow> 144 \<le> y) \<and> (x = 244 \<longrightarrow> y < 144) then 4
          else 0)"

definition rune_len :: "string \<Rightarrow> nat" where
  "rune_len s = (if s = [] then 0 else max 1 (valid_rune s))"

definition rune_at :: "string \<Rightarrow> string" where
  "rune_at s = (if valid_rune s = 0 then [CHR 0xEF, CHR 0xBF, CHR 0xBD] else take (valid_rune s) s)"

datatype glob = AnyChar | Lit char | Class bool "(string \<times> string) list"

text \<open>\<open>getEsc\<close>: one possibly escaped rune of a class.\<close>

definition class_char :: "string \<Rightarrow> (string \<times> string) option" where
  "class_char s =
     (if s = [] \<or> hd s = CHR ''-'' \<or> hd s = CHR '']'' then None
      else let t = (if hd s = backslash_char then tl s else s); n = valid_rune t in
           if n = 0 \<or> length t \<le> n then None else Some (take n t, drop n t))"

definition class_range :: "string \<Rightarrow> ((string \<times> string) \<times> string) option" where
  "class_range s =
     (case class_char s of
        None \<Rightarrow> None
      | Some (lo, r) \<Rightarrow>
          if r \<noteq> [] \<and> hd r = CHR ''-''
          then (case class_char (tl r) of None \<Rightarrow> None | Some (hi, r') \<Rightarrow> Some ((lo, hi), r'))
          else Some ((lo, lo), r))"

lemma class_char_shorter: "class_char s = Some (c, r) \<Longrightarrow> length r < length s"
  by (cases s) (auto simp: class_char_def Let_def split: if_splits)

lemma class_range_shorter: "class_range s = Some (x, r) \<Longrightarrow> length r < length s"
  by (auto simp: class_range_def split: option.splits if_splits dest!: class_char_shorter)

text \<open>The ranges up to the closing bracket, which must follow at least one range.\<close>

function class_ranges :: "bool \<Rightarrow> string \<Rightarrow> ((string \<times> string) list \<times> string) option" where
  "class_ranges first s =
     (if s \<noteq> [] \<and> hd s = CHR '']'' \<and> \<not> first then Some ([], tl s)
      else (case class_range s of
              None \<Rightarrow> None
            | Some (x, r) \<Rightarrow>
                (case class_ranges False r of None \<Rightarrow> None | Some (xs, r') \<Rightarrow> Some (x # xs, r'))))"
  by pat_completeness auto
termination
  by (relation "measure (length \<circ> snd)") (auto dest: class_range_shorter)

declare class_ranges.simps [simp del]

lemma class_ranges_shorter: "class_ranges f s = Some (xs, r) \<Longrightarrow> length r < length s"
proof (induction f s arbitrary: xs r rule: class_ranges.induct)
  case (1 f s)
  show ?case
  proof (cases "s \<noteq> [] \<and> hd s = CHR '']'' \<and> \<not> f")
    case True
    then have "class_ranges f s = Some ([], tl s)" by (subst class_ranges.simps) simp
    with 1(2) True show ?thesis by (cases s) auto
  next
    case False
    with 1(2) obtain x q ys where q: "class_range s = Some (x, q)" and "class_ranges False q = Some (ys, r)"
      by (auto simp: class_ranges.simps [of f s] split: option.splits)
    with False have "length r < length q" by (intro 1(1)) auto
    with class_range_shorter [OF q] show ?thesis by simp
  qed
qed

text \<open>One item of a chunk; \<open>*\<close> is not an item.\<close>

definition parse_item :: "string \<Rightarrow> (glob \<times> string) option" where
  "parse_item s =
     (case s of
        [] \<Rightarrow> None
      | c # cs \<Rightarrow>
          if c = CHR ''?'' then Some (AnyChar, cs)
          else if c = backslash_char then (case cs of [] \<Rightarrow> None | d # ds \<Rightarrow> Some (Lit d, ds))
          else if c = CHR ''['' then
            (let neg = (cs \<noteq> [] \<and> hd cs = CHR ''^'') in
             case class_ranges True (if neg then tl cs else cs) of
               None \<Rightarrow> None | Some (xs, r) \<Rightarrow> Some (Class neg xs, r))
          else Some (Lit c, cs))"

lemma parse_item_shorter: "parse_item s = Some (g, r) \<Longrightarrow> length r < length s"
  by (cases s)
    (auto simp: parse_item_def Let_def split: if_splits list.splits option.splits dest!: class_ranges_shorter)

type_synonym chunk = "bool \<times> glob list"

function parse_chunks :: "chunk \<Rightarrow> string \<Rightarrow> chunk list option" where
  "parse_chunks (star, items) s =
     (if s = [] then Some [(star, rev items)]
      else if hd s = CHR ''*'' then
        (if items = [] then parse_chunks (True, []) (tl s)
         else map_option ((#) (star, rev items)) (parse_chunks (True, []) (tl s)))
      else (case parse_item s of
              None \<Rightarrow> None
            | Some (g, r) \<Rightarrow> parse_chunks (star, g # items) r))"
  by pat_completeness auto
termination
  by (relation "measure (length \<circ> snd)") (auto dest: parse_item_shorter)

declare parse_chunks.simps [simp del]

definition class_matches :: "bool \<Rightarrow> (string \<times> string) list \<Rightarrow> string \<Rightarrow> bool" where
  "class_matches neg xs r \<longleftrightarrow> (list_ex (\<lambda>(lo, hi). lo \<le> r \<and> r \<le> hi) xs \<noteq> neg)"

fun match_chunk :: "glob list \<Rightarrow> string \<Rightarrow> string option" where
  "match_chunk [] s = Some s"
| "match_chunk (g # gs) s =
     (if s = [] then None
      else case g of
        AnyChar \<Rightarrow> if hd s = slash then None else match_chunk gs (drop (rune_len s) s)
      | Lit c \<Rightarrow> if hd s = c then match_chunk gs (tl s) else None
      | Class neg xs \<Rightarrow>
          if class_matches neg xs (rune_at s) then match_chunk gs (drop (rune_len s) s) else None)"

text \<open>The star loop: the first later start at which the chunk matches, never past a slash.\<close>

fun star_match :: "glob list \<Rightarrow> bool \<Rightarrow> string \<Rightarrow> string option" where
  "star_match items lastp [] = None"
| "star_match items lastp (c # s) =
     (if c = slash then None
      else case match_chunk items s of
        Some t \<Rightarrow> if lastp \<and> t \<noteq> [] then star_match items lastp s else Some t
      | None \<Rightarrow> star_match items lastp s)"

fun match_chunks :: "chunk list \<Rightarrow> string \<Rightarrow> bool" where
  "match_chunks [] s \<longleftrightarrow> s = []"
| "match_chunks ((star, items) # cs) s =
     (if star \<and> items = [] then slash \<notin> set s
      else case match_chunk items s of
        Some t \<Rightarrow>
          if t = [] \<or> cs \<noteq> [] then match_chunks cs t
          else if star then (case star_match items True s of None \<Rightarrow> False | Some t' \<Rightarrow> match_chunks cs t')
          else False
      | None \<Rightarrow>
          if star then (case star_match items (cs = []) s of None \<Rightarrow> False | Some t' \<Rightarrow> match_chunks cs t')
          else False)"

text \<open>\<open>ok, _ := path.Match(pattern, name)\<close>.\<close>

definition path_Match :: "string \<Rightarrow> string \<Rightarrow> bool" where
  "path_Match pat name =
     (if pat = [] then name = []
      else case parse_chunks (False, []) pat of None \<Rightarrow> False | Some cs \<Rightarrow> match_chunks cs name)"

section \<open>Facts\<close>

lemma clean_step_name:
  "e \<noteq> [] \<Longrightarrow> e \<noteq> ''.'' \<Longrightarrow> e \<noteq> ''..'' \<Longrightarrow> clean_step r st e = e # st"
  by (simp add: clean_step_def)

lemma is_rooted_append [simp]: "a \<noteq> [] \<Longrightarrow> is_rooted (a @ b) = is_rooted a"
  by (simp add: is_rooted_def)

lemma join_with_snoc: "es \<noteq> [] \<Longrightarrow> join_with sep (es @ [e]) = join_with sep es @ sep @ e"
  by (induction es rule: induct_list012) (auto simp: join_with_Cons)

lemma Clean_append_name:
  assumes "a \<noteq> []" "slash \<notin> set e" "e \<noteq> []" "e \<noteq> ''.''" "e \<noteq> ''..''"
  shows "Clean (a @ slash # e) = show_path (is_rooted a) (clean_elems a @ [e])"
  using assms
  by (simp add: Clean_def clean_elems_def split_on_append split_on_no_sep clean_step_name)

text \<open>A root directory as gitd configures it: absolute, clean and not \<open>/\<close> itself.\<close>

definition clean_root :: "string \<Rightarrow> bool" where
  "clean_root r \<longleftrightarrow> is_rooted r \<and> Clean r = r \<and> r \<noteq> ''/''"

lemma clean_root_elems: "clean_root r \<Longrightarrow> clean_elems r \<noteq> [] \<and> r = slash # join_with [slash] (clean_elems r)"
  by (auto simp: clean_root_def Clean_def show_path_def)

lemma clean_root_nonempty [simp]: "clean_root r \<Longrightarrow> r \<noteq> []"
  by (auto simp: clean_root_def is_rooted_def)

lemma Join_clean_root:
  assumes "clean_root r" "slash \<notin> set e" "e \<noteq> []" "e \<noteq> ''.''" "e \<noteq> ''..''"
  shows "Join [r, e] = r @ slash # e"
proof -
  from clean_root_elems [OF assms(1)] have ne: "clean_elems r \<noteq> []"
    and r: "r = slash # join_with [slash] (clean_elems r)" by auto
  have "Clean (r @ slash # e) = show_path True (clean_elems r @ [e])"
    using assms Clean_append_name [of r e] by (simp add: clean_root_def)
  also have "\<dots> = r @ slash # e"
    using ne r by (subst (2) r) (simp add: show_path_def join_with_snoc)
  finally show ?thesis using assms by (simp add: Join_def)
qed

lemma takeWhile_no_slash [simp]: "slash \<notin> set e \<Longrightarrow> takeWhile (\<lambda>c. c \<noteq> slash) e = e"
  by (induction e) auto

lemma after_last_slash_append [simp]: "slash \<notin> set e \<Longrightarrow> after_last_slash (a @ slash # e) = e"
  by (simp add: after_last_slash_def takeWhile_tail)

lemma Base_append [simp]:
  assumes "slash \<notin> set e" "e \<noteq> []"
  shows "Base (a @ slash # e) = e"
proof -
  from assms obtain e' l where e: "e = e' @ [l]" by (metis rev_exhaust)
  with assms have "strip_slashes (a @ slash # e) = a @ slash # e"
    by (auto simp: strip_slashes_def)
  with assms show ?thesis by (simp add: Base_def)
qed

text \<open>A rooted clean path has no empty, \<open>.\<close> or \<open>..\<close> element.\<close>

definition plain_elem :: "string \<Rightarrow> bool" where
  "plain_elem e \<longleftrightarrow> e \<noteq> [] \<and> e \<noteq> ''.'' \<and> e \<noteq> ''..'' \<and> slash \<notin> set e"

lemma clean_step_plain:
  "list_all plain_elem st \<Longrightarrow> slash \<notin> set e \<Longrightarrow> list_all plain_elem (clean_step True st e)"
  by (auto simp: clean_step_def plain_elem_def split: list.splits)

lemma foldl_clean_plain:
  "list_all plain_elem st \<Longrightarrow> (\<And>e. e \<in> set es \<Longrightarrow> slash \<notin> set e) \<Longrightarrow>
   list_all plain_elem (foldl (clean_step True) st es)"
  by (induction es arbitrary: st) (auto intro: clean_step_plain)

lemma clean_elems_plain: "is_rooted p \<Longrightarrow> list_all plain_elem (clean_elems p)"
  using foldl_clean_plain [of "[]" "split_on slash p"] split_on_pieces
  by (fastforce simp: clean_elems_def)

lemma split_join_with:
  "es \<noteq> [] \<Longrightarrow> (\<And>e. e \<in> set es \<Longrightarrow> c \<notin> set e) \<Longrightarrow> split_on c (join_with [c] es) = es"
  by (induction es rule: induct_list012) (simp_all add: split_on_append split_on_no_sep join_with_Cons)

lemma Clean_rooted_elems:
  assumes "is_rooted p"
  shows "set (split_on slash (Clean p)) \<subseteq> insert [] (set (clean_elems p))"
proof (cases "clean_elems p = []")
  case True
  with assms show ?thesis by (simp add: Clean_def show_path_def)
next
  case False
  have "slash \<notin> set e" if "e \<in> set (clean_elems p)" for e
    using that clean_elems_plain [OF assms] by (auto simp: list_all_iff plain_elem_def)
  with assms False show ?thesis by (simp add: Clean_def show_path_def split_join_with)
qed

lemma Clean_no_dotdot: "is_rooted p \<Longrightarrow> ''..'' \<notin> set (split_on slash (Clean p))"
  using Clean_rooted_elems [of p] clean_elems_plain [of p] by (auto simp: list_all_iff plain_elem_def)

lemma after_last_slash_plain: "slash \<notin> set n \<Longrightarrow> after_last_slash n = n"
  by (simp add: after_last_slash_def takeWhile_eq_all_conv)

lemma Ext_append:
  "slash \<notin> set n \<Longrightarrow> slash \<notin> set e \<Longrightarrow> CHR ''.'' \<notin> set e \<Longrightarrow> Ext (n @ CHR ''.'' # e) = CHR ''.'' # e"
  by (simp add: Ext_def Let_def after_last_slash_plain takeWhile_append takeWhile_eq_all_conv)

end
