(* ===== verification/Go_Errors.thy ===== *)
theory Go_Errors
  imports Go_Strings
begin

text \<open>
  Go's error values. \<open>Errf\<close> and \<open>Wrapf\<close> are \<open>fmt.Errorf\<close> without and with a \<open>%w\<close> verb: the format
  string and the other arguments are kept as they stand in the source. \<open>Sentinel\<close> is a package-level
  error variable, named with its package; \<open>PathError\<close> is the \<open>*os.PathError\<close> of a failed system
  call; \<open>Joined\<close> is \<open>errors.Join\<close>; \<open>UsageError\<close> is the type of the same name in
  \<open>internal/cli\<close> and \<open>ExitError\<close> the exit code of a child process.
\<close>

datatype errno = ENOENT | EEXIST | ENOTDIR | EISDIR | ENOTEMPTY | EACCES | ENOSPC | EIO | ELOOP

datatype gerror =
    Errf string "string list"
  | Wrapf string "string list" gerror
  | Sentinel string
  | PathError string string errno
  | Joined "gerror list"
  | UsageError string "string list"
  | ExitError int

type_synonym 'a result = "gerror + 'a"

abbreviation Fail :: "gerror \<Rightarrow> 'a result" where "Fail \<equiv> Inl"
abbreviation Ok :: "'a \<Rightarrow> 'a result" where "Ok \<equiv> Inr"

abbreviation ErrNotExist :: string where "ErrNotExist \<equiv> ''os.ErrNotExist''"
abbreviation ErrExist :: string where "ErrExist \<equiv> ''os.ErrExist''"

text \<open>\<open>errors.Is(err, target)\<close> for a sentinel target: the whole tree of wrapped errors is searched.\<close>

fun errors_Is :: "gerror \<Rightarrow> string \<Rightarrow> bool" where
  "errors_Is (Errf f args) t = False"
| "errors_Is (Wrapf f args e) t = errors_Is e t"
| "errors_Is (Sentinel n) t = (n = t)"
| "errors_Is (PathError op p no) t =
     ((no = ENOENT \<and> t = ErrNotExist) \<or> ((no = EEXIST \<or> no = ENOTEMPTY) \<and> t = ErrExist))"
| "errors_Is (Joined es) t = list_ex (\<lambda>e. errors_Is e t) es"
| "errors_Is (UsageError f args) t = False"
| "errors_Is (ExitError n) t = False"

text \<open>\<open>errors.As(err, *usageError)\<close>.\<close>

fun errors_As_usage :: "gerror \<Rightarrow> bool" where
  "errors_As_usage (Wrapf f args e) = errors_As_usage e"
| "errors_As_usage (Joined es) = list_ex errors_As_usage es"
| "errors_As_usage (UsageError f args) = True"
| "errors_As_usage _ = False"

text \<open>\<open>errors.Join\<close> of non-nil errors: nil (here \<open>None\<close>) when there is none.\<close>

definition errors_Join :: "gerror list \<Rightarrow> gerror option" where
  "errors_Join es = (if es = [] then None else Some (Joined es))"

text \<open>
  \<open>err.Error()\<close>. The verbs \<open>%s\<close>, \<open>%q\<close>, \<open>%d\<close> and \<open>%v\<close> each take the next argument and \<open>%w\<close> takes the
  wrapped error's text; arguments of \<open>%q\<close> are quoted without escaping their contents.
\<close>

fun sprintf :: "string \<Rightarrow> string list \<Rightarrow> string \<Rightarrow> string" where
  "sprintf [] args w = []"
| "sprintf [c] args w = [c]"
| "sprintf (c # d # f) args w =
     (if c = CHR ''%'' then
        (if d = CHR ''w'' then w @ sprintf f args []
         else case args of
           [] \<Rightarrow> sprintf f [] w
         | a # as \<Rightarrow> (if d = CHR ''q'' then dquote_char # a @ [dquote_char] else a) @ sprintf f as w)
      else c # sprintf (d # f) args w)"

definition errno_text :: "errno \<Rightarrow> string" where
  "errno_text n = (case n of
      ENOENT \<Rightarrow> ''no such file or directory'' | EEXIST \<Rightarrow> ''file exists''
    | ENOTDIR \<Rightarrow> ''not a directory'' | EISDIR \<Rightarrow> ''is a directory''
    | ENOTEMPTY \<Rightarrow> ''directory not empty'' | EACCES \<Rightarrow> ''permission denied''
    | ENOSPC \<Rightarrow> ''no space left on device'' | EIO \<Rightarrow> ''input/output error''
    | ELOOP \<Rightarrow> ''too many levels of symbolic links'')"

fun err_text :: "gerror \<Rightarrow> string" where
  "err_text (Errf f args) = sprintf f args []"
| "err_text (Wrapf f args e) = sprintf f args (err_text e)"
| "err_text (Sentinel n) = n"
| "err_text (PathError op p no) = op @ '' '' @ p @ '': '' @ errno_text no"
| "err_text (Joined es) = join_with [newline_char] (map err_text es)"
| "err_text (UsageError f args) = sprintf f args []"
| "err_text (ExitError n) = ''exit status '' @ show_int n"

text \<open>The first failing element of a list of checks stops a loop, as an early return does.\<close>

fun map_result :: "('a \<Rightarrow> 'b result) \<Rightarrow> 'a list \<Rightarrow> 'b list result" where
  "map_result f [] = Ok []"
| "map_result f (x # xs) =
     (case f x of
        Inl e \<Rightarrow> Fail e
      | Inr y \<Rightarrow> (case map_result f xs of Inl e \<Rightarrow> Fail e | Inr ys \<Rightarrow> Ok (y # ys)))"

lemma map_result_Ok_iff: "map_result f xs = Inr ys \<longleftrightarrow> list_all2 (\<lambda>x y. f x = Inr y) xs ys"
proof
  show "map_result f xs = Inr ys \<Longrightarrow> list_all2 (\<lambda>x y. f x = Inr y) xs ys"
    by (induction xs arbitrary: ys) (auto split: sum.splits)
  show "list_all2 (\<lambda>x y. f x = Inr y) xs ys \<Longrightarrow> map_result f xs = Inr ys"
    by (induction rule: list_all2_induct) auto
qed

lemma map_result_Fail: "x \<in> set xs \<Longrightarrow> f x = Inl e \<Longrightarrow> \<exists>e'. map_result f xs = Inl e'"
  by (induction xs) (auto split: sum.splits)

end
