(* ===== verification/Go_Fs.thy ===== *)
theory Go_Fs
  imports Go_Path Go_Errors "HOL-Library.State_Monad" "HOL-Library.AList"
begin

text \<open>
  The operating system calls of Go's \<open>os\<close> package as state transformers on a file system.

  The state holds the visible name space (\<open>tree\<close>: path to node), the name space as it is on disk
  (\<open>durable\<close>), a schedule of faults and a supply of random strings. Every call takes the next entry
  of the fault schedule: \<open>NoFault\<close> lets it proceed, \<open>Fault e k\<close> makes it fail with \<open>e\<close> (a write then
  leaves its first \<open>k\<close> bytes behind). An exhausted schedule means no more faults. A file node carries
  a flag saying whether its contents have been synced since they were last written. \<open>journal\<close> records
  every intermediate pair of name spaces, so that a property of all crash points is a property of the
  journal; \<open>execs\<close> records the programs started, newest first, and \<open>written\<close> what the process has written
  to its standard output. \<open>objects\<close> is the remote object store that holds the bundle mirrors. Only
  \<open>Stat\<close> and \<open>EvalSymlinks\<close> follow symbolic links; the other calls act on the name given.
\<close>

section \<open>The state\<close>

datatype node = File bytes bool | Directory | Symlink string | Socket nat

datatype fault = NoFault | Fault errno nat

type_synonym names = "(string \<times> node) list"

text \<open>An \<open>exec.Cmd\<close>: program, arguments, environment and working directory (empty: inherited).\<close>

record cmd =
  cmd_prog :: string
  cmd_args :: "string list"
  cmd_env :: "string list"
  cmd_dir :: string

record world =
  tree :: names
  durable :: names
  faults :: "fault list"
  entropy :: "string list"
  cwd :: string
  execs :: "cmd list"
  journal :: "(names \<times> names) list"
  written :: bytes
  objects :: "(string \<times> bytes) list"

type_synonym 'a io = "(world, 'a) state"

abbreviation return :: "'a \<Rightarrow> 'a io" where "return \<equiv> State_Monad.return"

definition lookup :: "names \<Rightarrow> string \<Rightarrow> node option" where
  "lookup t p = (if p = ''/'' then Some Directory else map_of t p)"

definition child_name :: "string \<Rightarrow> string \<Rightarrow> string option" where
  "child_name d p =
     (case CutPrefix p (d @ ''/'') of
        None \<Rightarrow> None
      | Some n \<Rightarrow> if n \<noteq> [] \<and> slash \<notin> set n then Some n else None)"

definition below :: "string \<Rightarrow> string \<Rightarrow> bool" where
  "below d p \<longleftrightarrow> p = d \<or> HasPrefix p (d @ ''/'')"

section \<open>Faults, snapshots, random strings\<close>

definition next_fault :: "fault io" where
  "next_fault = State (\<lambda>w. case faults w of [] \<Rightarrow> (NoFault, w) | f # fs \<Rightarrow> (f, w\<lparr>faults := fs\<rparr>))"

definition gets :: "(world \<Rightarrow> 'a) \<Rightarrow> 'a io" where
  "gets f = State (\<lambda>w. (f w, w))"

text \<open>Install a new visible name space and record the crash point that follows.\<close>

definition put_tree :: "names \<Rightarrow> unit io" where
  "put_tree t = State (\<lambda>w. ((), w\<lparr>tree := t, journal := (t, durable w) # journal w\<rparr>))"

definition put_durable :: "names \<Rightarrow> unit io" where
  "put_durable d = State (\<lambda>w. ((), w\<lparr>durable := d, journal := (tree w, d) # journal w\<rparr>))"

definition next_random :: "string option io" where
  "next_random = State (\<lambda>w. case entropy w of [] \<Rightarrow> (None, w) | r # rs \<Rightarrow> (Some r, w\<lparr>entropy := rs\<rparr>))"

text \<open>A call that fails with the scheduled fault, or runs.\<close>

definition syscall :: "string \<Rightarrow> string \<Rightarrow> 'a result io \<Rightarrow> 'a result io" where
  "syscall op p m = do {
     f \<leftarrow> next_fault;
     case f of Fault e k \<Rightarrow> return (Fail (PathError op p e)) | NoFault \<Rightarrow> m
   }"

text \<open>\<open>io.WriteString(stdout, s)\<close>.\<close>

definition write_stdout :: "bytes \<Rightarrow> unit result io" where
  "write_stdout s = syscall ''write'' ''/dev/stdout'' (State (\<lambda>w. (Ok (), w\<lparr>written := written w @ s\<rparr>)))"

section \<open>Reading\<close>

definition os_ReadFile :: "string \<Rightarrow> bytes result io" where
  "os_ReadFile p = syscall ''open'' p (do {
     t \<leftarrow> gets tree;
     return (case lookup t p of
        Some (File d s) \<Rightarrow> Ok d
      | Some Directory \<Rightarrow> Fail (PathError ''read'' p EISDIR)
      | Some _ \<Rightarrow> Fail (PathError ''open'' p EIO)
      | None \<Rightarrow> Fail (PathError ''open'' p ENOENT))
   })"

text \<open>
  \<open>os.Open\<close>, and the lines a \<open>bufio.Scanner\<close> delivers from the open file with the error it ends with.
  A read that fails after \<open>k\<close> bytes still delivers the lines of these bytes.
\<close>

definition os_Open :: "string \<Rightarrow> unit result io" where
  "os_Open p = syscall ''open'' p (do {
     t \<leftarrow> gets tree;
     return (case lookup t p of
        Some (File d s) \<Rightarrow> Ok ()
      | Some Directory \<Rightarrow> Ok ()
      | Some _ \<Rightarrow> Fail (PathError ''open'' p EIO)
      | None \<Rightarrow> Fail (PathError ''open'' p ENOENT))
   })"

abbreviation ErrTooLong :: gerror where "ErrTooLong \<equiv> Sentinel ''bufio.ErrTooLong''"

definition scan_read :: "bytes \<Rightarrow> gerror option \<Rightarrow> string list \<times> gerror option" where
  "scan_read d err = (case scan_lines d of (ls, long) \<Rightarrow> (ls, if long then Some ErrTooLong else err))"

definition file_Scan :: "string \<Rightarrow> (string list \<times> gerror option) io" where
  "file_Scan p = do {
     f \<leftarrow> next_fault;
     t \<leftarrow> gets tree;
     return (case lookup t p of
        Some (File d s) \<Rightarrow>
          (case f of NoFault \<Rightarrow> scan_read d None | Fault e k \<Rightarrow> scan_read (take k d) (Some (PathError ''read'' p e)))
      | _ \<Rightarrow> ([], Some (PathError ''read'' p EISDIR)))
   }"

text \<open>\<open>os.ReadDir\<close>: the entries of a directory, sorted by name, each with its \<open>IsDir\<close> flag.\<close>

definition dir_entries :: "names \<Rightarrow> string \<Rightarrow> (string \<times> bool) list" where
  "dir_entries t d =
     map (\<lambda>n. (n, lookup t (d @ slash # n) = Some Directory))
       (sort (remdups (List.map_filter (child_name d \<circ> fst) t)))"

definition os_ReadDir :: "string \<Rightarrow> (string \<times> bool) list result io" where
  "os_ReadDir d = syscall ''open'' d (do {
     t \<leftarrow> gets tree;
     return (case lookup t d of
        Some Directory \<Rightarrow> Ok (dir_entries t d)
      | Some _ \<Rightarrow> Fail (PathError ''readdirent'' d ENOTDIR)
      | None \<Rightarrow> Fail (PathError ''open'' d ENOENT))
   })"

text \<open>
  Path resolution (\<open>filepath.EvalSymlinks\<close>): the resolved elements are kept reversed in \<open>dst\<close>;
  at most 255 links are followed; the path is absolute.
\<close>

definition elems_path :: "string list \<Rightarrow> string" where
  "elems_path dst = slash # join_with [slash] (rev dst)"

function walk :: "nat \<Rightarrow> names \<Rightarrow> string list \<Rightarrow> string list \<Rightarrow> errno + string list" where
  "walk links t dst [] = Inr dst"
| "walk links t dst (e # es) =
     (if e = [] \<or> e = ''.'' then walk links t dst es
      else if e = ''..'' then walk links t (tl dst) es
      else case lookup t (elems_path (e # dst)) of
        None \<Rightarrow> Inl ENOENT
      | Some (Symlink l) \<Rightarrow>
          (case links of
             0 \<Rightarrow> Inl ELOOP
           | Suc k \<Rightarrow> walk k t (if is_rooted l then [] else dst) (split_on slash l @ es))
      | Some Directory \<Rightarrow> walk links t (e # dst) es
      | Some _ \<Rightarrow> if es = [] then Inr (e # dst) else Inl ENOTDIR)"
  by pat_completeness auto
termination
  by (relation "measures [\<lambda>(l, t, dst, es). l, \<lambda>(l, t, dst, es). length es]") auto

definition resolve :: "names \<Rightarrow> string \<Rightarrow> errno + string" where
  "resolve t p =
     (case walk 255 t [] (split_on slash p) of Inl e \<Rightarrow> Inl e | Inr dst \<Rightarrow> Inr (elems_path dst))"

definition EvalSymlinks :: "string \<Rightarrow> string result io" where
  "EvalSymlinks p = syscall ''lstat'' p (do {
     t \<leftarrow> gets tree;
     return (case resolve t p of Inl e \<Rightarrow> Fail (PathError ''lstat'' p e) | Inr q \<Rightarrow> Ok q)
   })"

text \<open>\<open>filepath.Abs\<close>.\<close>

definition filepath_Abs :: "string \<Rightarrow> string result io" where
  "filepath_Abs p =
     (if is_rooted p then return (Ok (Clean p))
      else syscall ''getwd'' p (do { c \<leftarrow> gets cwd; return (Ok (Join [c, p])) }))"

definition os_Stat :: "string \<Rightarrow> node result io" where
  "os_Stat p = syscall ''stat'' p (do {
     t \<leftarrow> gets tree;
     return (case resolve t p of
        Inl e \<Rightarrow> Fail (PathError ''stat'' p e)
      | Inr q \<Rightarrow> (case lookup t q of None \<Rightarrow> Fail (PathError ''stat'' p ENOENT) | Some n \<Rightarrow> Ok n))
   })"

definition os_Lstat :: "string \<Rightarrow> node result io" where
  "os_Lstat p = syscall ''lstat'' p (do {
     t \<leftarrow> gets tree;
     return (case lookup t p of None \<Rightarrow> Fail (PathError ''lstat'' p ENOENT) | Some n \<Rightarrow> Ok n)
   })"

section \<open>Files\<close>

text \<open>\<open>os.CreateTemp(dir, prefix*suffix)\<close>: tries random names until one is free.\<close>

fun free_temp :: "names \<Rightarrow> string \<Rightarrow> string \<Rightarrow> string \<Rightarrow> string list \<Rightarrow> (string \<times> string list) option" where
  "free_temp t d pre suf [] = None"
| "free_temp t d pre suf (r # rs) =
     (let p = d @ slash # pre @ r @ suf in
      if lookup t p = None then Some (p, rs) else free_temp t d pre suf rs)"

definition fresh_temp :: "string \<Rightarrow> string \<Rightarrow> string \<Rightarrow> string option io" where
  "fresh_temp d pre suf = State (\<lambda>w.
     case free_temp (tree w) d pre suf (entropy w) of
       None \<Rightarrow> (None, w\<lparr>entropy := []\<rparr>)
     | Some (p, rs) \<Rightarrow> (Some p, w\<lparr>entropy := rs\<rparr>))"

definition os_CreateTemp :: "string \<Rightarrow> string \<Rightarrow> string \<Rightarrow> string result io" where
  "os_CreateTemp d pre suf = syscall ''open'' d (do {
     t \<leftarrow> gets tree;
     if lookup t d \<noteq> Some Directory then return (Fail (PathError ''open'' d ENOENT))
     else do {
       r \<leftarrow> fresh_temp d pre suf;
       case r of
         None \<Rightarrow> return (Fail (PathError ''createtemp'' d EEXIST))
       | Some p \<Rightarrow> do { _ \<leftarrow> put_tree (AList.update p (File [] False) t); return (Ok p) }
     }
   })"

text \<open>\<open>os.MkdirTemp(dir, prefix*)\<close>.\<close>

definition os_MkdirTemp :: "string \<Rightarrow> string \<Rightarrow> string result io" where
  "os_MkdirTemp d pre = syscall ''mkdir'' d (do {
     t \<leftarrow> gets tree;
     if lookup t d \<noteq> Some Directory then return (Fail (PathError ''mkdir'' d ENOENT))
     else do {
       r \<leftarrow> fresh_temp d pre [];
       case r of
         None \<Rightarrow> return (Fail (PathError ''mkdirtemp'' d EEXIST))
       | Some p \<Rightarrow> do { _ \<leftarrow> put_tree (AList.update p Directory t); return (Ok p) }
     }
   })"

definition contents :: "names \<Rightarrow> string \<Rightarrow> bytes" where
  "contents t p = (case lookup t p of Some (File d s) \<Rightarrow> d | _ \<Rightarrow> [])"

text \<open>\<open>(*os.File).Write\<close> on a handle opened on path \<open>p\<close>.\<close>

definition file_Write :: "string \<Rightarrow> bytes \<Rightarrow> unit result io" where
  "file_Write p data = do {
     f \<leftarrow> next_fault;
     t \<leftarrow> gets tree;
     case f of
       Fault e k \<Rightarrow> do {
         _ \<leftarrow> put_tree (AList.update p (File (contents t p @ take k data) False) t);
         return (Fail (PathError ''write'' p e)) }
     | NoFault \<Rightarrow> do {
         _ \<leftarrow> put_tree (AList.update p (File (contents t p @ data) False) t);
         return (Ok ()) }
   }"

definition file_Chmod :: "string \<Rightarrow> unit result io" where
  "file_Chmod p = syscall ''chmod'' p (return (Ok ()))"

definition file_Sync :: "string \<Rightarrow> unit result io" where
  "file_Sync p = syscall ''sync'' p (do {
     t \<leftarrow> gets tree;
     _ \<leftarrow> put_tree (AList.update p (File (contents t p) True) t);
     return (Ok ())
   })"

definition file_Close :: "string \<Rightarrow> unit result io" where
  "file_Close p = syscall ''close'' p (return (Ok ()))"

text \<open>\<open>os.WriteFile\<close>: open with create and truncate, write, close; the contents are not synced.\<close>

definition open_trunc :: "string \<Rightarrow> unit result io" where
  "open_trunc p = syscall ''open'' p (do {
     t \<leftarrow> gets tree;
     if lookup t p = Some Directory then return (Fail (PathError ''open'' p EISDIR))
     else if lookup t (Dir p) \<noteq> Some Directory then return (Fail (PathError ''open'' p ENOENT))
     else do { _ \<leftarrow> put_tree (AList.update p (File [] False) t); return (Ok ()) }
   })"

definition os_WriteFile :: "string \<Rightarrow> bytes \<Rightarrow> unit result io" where
  "os_WriteFile p data = do {
     r \<leftarrow> open_trunc p;
     case r of
       Inl e \<Rightarrow> return (Fail e)
     | Inr _ \<Rightarrow> do {
         r1 \<leftarrow> file_Write p data;
         r2 \<leftarrow> file_Close p;
         return (case r1 of Inl e \<Rightarrow> Fail e | Inr _ \<Rightarrow> r2) }
   }"

section \<open>Directory entries\<close>

definition os_Rename :: "string \<Rightarrow> string \<Rightarrow> unit result io" where
  "os_Rename a b = syscall ''rename'' a (do {
     t \<leftarrow> gets tree;
     case lookup t a of
       None \<Rightarrow> return (Fail (PathError ''rename'' a ENOENT))
     | Some n \<Rightarrow>
         if lookup t b = Some Directory then return (Fail (PathError ''rename'' a EEXIST))
         else do { _ \<leftarrow> put_tree (AList.update b n (AList.delete a t)); return (Ok ()) }
   })"

definition os_Remove :: "string \<Rightarrow> unit result io" where
  "os_Remove p = syscall ''remove'' p (do {
     t \<leftarrow> gets tree;
     case lookup t p of
       None \<Rightarrow> return (Fail (PathError ''remove'' p ENOENT))
     | Some n \<Rightarrow>
         if n = Directory \<and> dir_entries t p \<noteq> [] then return (Fail (PathError ''remove'' p ENOTEMPTY))
         else do { _ \<leftarrow> put_tree (AList.delete p t); return (Ok ()) }
   })"

definition os_RemoveAll :: "string \<Rightarrow> unit result io" where
  "os_RemoveAll p = syscall ''unlinkat'' p (do {
     t \<leftarrow> gets tree;
     _ \<leftarrow> put_tree (filter (\<lambda>(q, n). \<not> below p q) t);
     return (Ok ())
   })"

definition os_Mkdir :: "string \<Rightarrow> unit result io" where
  "os_Mkdir p = syscall ''mkdir'' p (do {
     t \<leftarrow> gets tree;
     if lookup t p \<noteq> None then return (Fail (PathError ''mkdir'' p EEXIST))
     else if lookup t (Dir p) \<noteq> Some Directory then return (Fail (PathError ''mkdir'' p ENOENT))
     else do { _ \<leftarrow> put_tree (AList.update p Directory t); return (Ok ()) }
   })"

text \<open>\<open>os.MkdirAll\<close>: the missing ancestors of the path, from the top.\<close>

fun mkdir_all :: "names \<Rightarrow> string list \<Rightarrow> string list \<Rightarrow> errno + names" where
  "mkdir_all t dst [] = Inr t"
| "mkdir_all t dst (e # es) =
     (let p = elems_path (e # dst) in
      case lookup t p of
        None \<Rightarrow> mkdir_all (AList.update p Directory t) (e # dst) es
      | Some Directory \<Rightarrow> mkdir_all t (e # dst) es
      | Some _ \<Rightarrow> Inl ENOTDIR)"

definition os_MkdirAll :: "string \<Rightarrow> unit result io" where
  "os_MkdirAll p = syscall ''mkdir'' p (do {
     t \<leftarrow> gets tree;
     case mkdir_all t [] (clean_elems p) of
       Inl e \<Rightarrow> return (Fail (PathError ''mkdir'' p e))
     | Inr t' \<Rightarrow> do { _ \<leftarrow> put_tree t'; return (Ok ()) }
   })"

text \<open>\<open>fsync\<close> of a directory makes its entries durable.\<close>

definition sync_names :: "string \<Rightarrow> names \<Rightarrow> names \<Rightarrow> names" where
  "sync_names d t dur =
     filter (\<lambda>(p, n). child_name d p \<noteq> None) t @ filter (\<lambda>(p, n). child_name d p = None) dur"

definition sync_dir :: "string \<Rightarrow> unit result io" where
  "sync_dir d = syscall ''sync'' d (do {
     t \<leftarrow> gets tree;
     dur \<leftarrow> gets durable;
     _ \<leftarrow> put_durable (sync_names d t dur);
     return (Ok ())
   })"

definition open_dir :: "string \<Rightarrow> unit result io" where
  "open_dir d = syscall ''open'' d (do {
     t \<leftarrow> gets tree;
     return (if lookup t d = None then Fail (PathError ''open'' d ENOENT) else Ok ())
   })"

section \<open>Power loss\<close>

text \<open>
  After a power loss a name is bound as on disk or as it was visible, and the contents of a file
  that was not synced are arbitrary.
\<close>

definition may_read :: "node option \<Rightarrow> node option \<Rightarrow> bool" where
  "may_read n r =
     (case n of
        Some (File d False) \<Rightarrow> (case r of Some (File _ _) \<Rightarrow> True | _ \<Rightarrow> False)
      | _ \<Rightarrow> r = n)"

definition after_crash :: "names \<times> names \<Rightarrow> string \<Rightarrow> node option \<Rightarrow> bool" where
  "after_crash s p r \<longleftrightarrow> may_read (lookup (fst s) p) r \<or> may_read (lookup (snd s) p) r"

section \<open>Weakest preconditions\<close>

text \<open>
  \<open>wp m Q w\<close>: running \<open>m\<close> in \<open>w\<close> ends in a result and state satisfying \<open>Q\<close>. The rules of \<open>wp_simps\<close>
  compute it for the control structure; each call contributes an introduction rule with one goal for
  the call proceeding and one for its fault.
\<close>

definition wp :: "'a io \<Rightarrow> ('a \<Rightarrow> world \<Rightarrow> bool) \<Rightarrow> world \<Rightarrow> bool" where
  "wp m Q w = (case run_state m w of (r, w') \<Rightarrow> Q r w')"

lemma wp_run: "wp m Q w \<Longrightarrow> run_state m w = (r, w') \<Longrightarrow> Q r w'"
  by (simp add: wp_def)

text \<open>An evaluated result as a run, for the concrete runs.\<close>

lemma run_result: "fst (run_state m w) = r \<Longrightarrow> run_state m w = (r, snd (run_state m w))"
  by (metis prod.collapse)

lemma wpI: "(\<And>r w'. run_state m w = (r, w') \<Longrightarrow> Q r w') \<Longrightarrow> wp m Q w"
  by (auto simp: wp_def split: prod.split)

lemma wp_mono: "wp m Q w \<Longrightarrow> (\<And>r w'. Q r w' \<Longrightarrow> R r w') \<Longrightarrow> wp m R w"
  by (auto simp: wp_def split: prod.splits)

lemma wp_conj: "wp m Q w \<Longrightarrow> wp m R w \<Longrightarrow> wp m (\<lambda>r w'. Q r w' \<and> R r w') w"
  by (auto simp: wp_def split: prod.splits)

lemma wp_return [wp_simps, simp]: "wp (return x) Q w = Q x w"
  by (simp add: wp_def)

lemma wp_bind [wp_simps]: "wp (m \<bind> f) Q w = wp m (\<lambda>r. wp (f r) Q) w"
  by (simp add: wp_def split: prod.split)

lemma wp_if [wp_simps]: "wp (if b then m else n) Q w = (if b then wp m Q w else wp n Q w)"
  by simp

lemma wp_case_sum [wp_simps]:
  "wp (case x of Inl a \<Rightarrow> f a | Inr b \<Rightarrow> g b) Q w = (case x of Inl a \<Rightarrow> wp (f a) Q w | Inr b \<Rightarrow> wp (g b) Q w)"
  by (simp split: sum.split)

lemma wp_case_option [wp_simps]:
  "wp (case x of None \<Rightarrow> m | Some a \<Rightarrow> f a) Q w = (case x of None \<Rightarrow> wp m Q w | Some a \<Rightarrow> wp (f a) Q w)"
  by (simp split: option.split)

lemma wp_case_prod [wp_simps]:
  "wp (case x of (a, b) \<Rightarrow> f a b) Q w = (case x of (a, b) \<Rightarrow> wp (f a b) Q w)"
  by (simp split: prod.split)

lemma wp_let [wp_simps]: "wp (let x = e in f x) Q w = (let x = e in wp (f x) Q w)"
  by simp

lemma wp_gets [wp_simps]: "wp (gets f) Q w = Q (f w) w"
  by (simp add: wp_def gets_def)

lemma wp_put_tree [wp_simps]:
  "wp (put_tree t) Q w = Q () (w\<lparr>tree := t, journal := (t, durable w) # journal w\<rparr>)"
  by (simp add: wp_def put_tree_def)

lemma wp_put_durable [wp_simps]:
  "wp (put_durable d) Q w = Q () (w\<lparr>durable := d, journal := (tree w, d) # journal w\<rparr>)"
  by (simp add: wp_def put_durable_def)

lemma wp_next_fault:
  assumes "\<And>f fs. Q f (w\<lparr>faults := fs\<rparr>)"
  shows "wp next_fault Q w"
proof (cases "faults w")
  case Nil
  then have "w = w\<lparr>faults := []\<rparr>" by simp
  with assms [of NoFault "[]"] Nil show ?thesis by (simp add: wp_def next_fault_def)
next
  case (Cons f fs)
  with assms [of f fs] show ?thesis by (simp add: wp_def next_fault_def)
qed

lemma wp_syscall:
  assumes "\<And>fs. wp m Q (w\<lparr>faults := fs\<rparr>)"
    and "\<And>e fs. Q (Fail (PathError op p e)) (w\<lparr>faults := fs\<rparr>)"
  shows "wp (syscall op p m) Q w"
  unfolding syscall_def wp_bind
  by (rule wp_next_fault) (auto split: fault.split intro: assms)

lemma wp_write_stdout:
  assumes "\<And>fs. Q (Ok ()) (w\<lparr>faults := fs, written := written w @ s\<rparr>)"
    and "\<And>e fs. Q (Fail (PathError ''write'' ''/dev/stdout'' e)) (w\<lparr>faults := fs\<rparr>)"
  shows "wp (write_stdout s) Q w"
  unfolding write_stdout_def by (rule wp_syscall) (simp_all add: assms wp_def)

text \<open>With no fault scheduled a call runs.\<close>

lemma run_next_fault_nil [simp]: "faults w = [] \<Longrightarrow> run_state next_fault w = (NoFault, w)"
  by (simp add: next_fault_def)

lemma run_syscall_nil [simp]: "faults w = [] \<Longrightarrow> run_state (syscall op p m) w = run_state m w"
  by (simp add: syscall_def)

lemma run_write_stdout_nil [simp]:
  "faults w = [] \<Longrightarrow> run_state (write_stdout s) w = (Inr (), w\<lparr>written := written w @ s\<rparr>)"
  by (simp add: write_stdout_def)

lemma run_gets [simp]: "run_state (gets f) w = (f w, w)"
  by (simp add: gets_def)

lemma run_put_tree [simp]:
  "run_state (put_tree t) w = ((), w\<lparr>tree := t, journal := (t, durable w) # journal w\<rparr>)"
  by (simp add: put_tree_def)

lemma run_put_durable [simp]:
  "run_state (put_durable d) w = ((), w\<lparr>durable := d, journal := (tree w, d) # journal w\<rparr>)"
  by (simp add: put_durable_def)

section \<open>Lookups after updates\<close>

lemma lookup_root [simp]: "lookup t ''/'' = Some Directory"
  by (simp add: lookup_def)

lemma lookup_update [fs_simps, simp]:
  "p \<noteq> ''/'' \<Longrightarrow> lookup (AList.update p n t) q = (if q = p then Some n else lookup t q)"
  by (simp add: lookup_def update_conv')

lemma lookup_delete [fs_simps, simp]:
  "p \<noteq> ''/'' \<Longrightarrow> lookup (AList.delete p t) q = (if q = p then None else lookup t q)"
  by (simp add: lookup_def delete_conv')

lemma map_of_filter_key: "map_of (filter (\<lambda>(q, n). P q) t) p = (if P p then map_of t p else None)"
  by (induction t) auto

lemma lookup_filter:
  "P ''/'' \<Longrightarrow> lookup (filter (\<lambda>(q, n). P q) t) p = (if P p then lookup t p else None)"
  by (simp add: lookup_def map_of_filter_key)

lemma not_child_root: "d \<noteq> [] \<Longrightarrow> child_name d ''/'' = None"
  by (cases d) (auto simp: child_name_def CutPrefix_def HasPrefix_def split: option.split)

lemma child_name_slash [simp]: "n \<noteq> [] \<Longrightarrow> slash \<notin> set n \<Longrightarrow> child_name d (d @ slash # n) = Some n"
  using CutPrefix_append [of "d @ ''/''" n] by (simp add: child_name_def)

lemma lookup_sync_names:
  assumes "d \<noteq> []"
  shows "lookup (sync_names d t dur) p = (if child_name d p \<noteq> None then lookup t p else lookup dur p)"
proof (cases "p = ''/''")
  case True
  with not_child_root [OF assms] show ?thesis by simp
next
  case False
  have "map_of (filter (\<lambda>(p, n). child_name d p \<noteq> None) t) p
        = (if child_name d p \<noteq> None then map_of t p else None)"
    and "map_of (filter (\<lambda>(p, n). child_name d p = None) dur) p
        = (if child_name d p = None then map_of dur p else None)"
    by (rule map_of_filter_key)+
  with False show ?thesis by (simp add: lookup_def sync_names_def map_add_def split: option.split)
qed

lemma free_temp_free: "free_temp t d pre suf rs = Some (p, rs') \<Longrightarrow>
    lookup t p = None \<and> (\<exists>r \<in> set rs. p = d @ slash # pre @ r @ suf)"
  by (induction rs) (auto simp: Let_def split: if_splits)

lemma wp_fresh_temp:
  assumes "\<And>r rs. lookup (tree w) (d @ slash # pre @ r @ suf) = None \<Longrightarrow>
      r \<in> set (entropy w) \<Longrightarrow> Q (Some (d @ slash # pre @ r @ suf)) (w\<lparr>entropy := rs\<rparr>)"
    and "Q None (w\<lparr>entropy := []\<rparr>)"
  shows "wp (fresh_temp d pre suf) Q w"
  using assms by (auto simp: wp_def fresh_temp_def split: option.split dest!: free_temp_free)

section \<open>Calls that only read\<close>

definition same_files :: "world \<Rightarrow> world \<Rightarrow> bool" where
  "same_files w w' \<longleftrightarrow> (\<exists>fs. w' = w\<lparr>faults := fs\<rparr>)"

lemma same_filesI [simp]: "same_files w (w\<lparr>faults := fs\<rparr>)" "same_files w w"
  by (auto simp: same_files_def intro: exI [of _ "faults w"])

lemma same_files_trans: "same_files u v \<Longrightarrow> same_files v w \<Longrightarrow> same_files u w"
  by (auto simp: same_files_def)

lemma same_files_fields:
  "same_files w w' \<Longrightarrow> tree w' = tree w \<and> durable w' = durable w \<and> entropy w' = entropy w
     \<and> cwd w' = cwd w \<and> execs w' = execs w \<and> journal w' = journal w \<and> written w' = written w
     \<and> objects w' = objects w"
  by (auto simp: same_files_def)

definition stat_of :: "names \<Rightarrow> string \<Rightarrow> node result" where
  "stat_of t p =
     (case resolve t p of
        Inl e \<Rightarrow> Fail (PathError ''stat'' p e)
      | Inr q \<Rightarrow> (case lookup t q of None \<Rightarrow> Fail (PathError ''stat'' p ENOENT) | Some n \<Rightarrow> Ok n))"

lemma run_os_Stat_nil [simp]: "faults w = [] \<Longrightarrow> run_state (os_Stat p) w = (stat_of (tree w) p, w)"
  by (simp add: os_Stat_def stat_of_def)

lemma wp_os_Stat:
  assumes "\<And>r w'. same_files w w' \<Longrightarrow> (\<exists>x. r = Inr x) \<longrightarrow> r = stat_of (tree w) p \<Longrightarrow> Q r w'"
  shows "wp (os_Stat p) Q w"
  unfolding os_Stat_def
  by (rule wp_syscall) (auto simp: wp_simps stat_of_def intro!: assms split: sum.split option.split)

lemma wp_os_ReadDir:
  assumes "\<And>r w'. same_files w w' \<Longrightarrow>
      (\<forall>es. r = Inr es \<longrightarrow> es = dir_entries (tree w) d \<and> lookup (tree w) d = Some Directory) \<Longrightarrow> Q r w'"
  shows "wp (os_ReadDir d) Q w"
  unfolding os_ReadDir_def
  by (rule wp_syscall) (auto simp: wp_simps intro!: assms split: option.split node.split)

lemma wp_os_ReadFile:
  assumes "\<And>r w'. same_files w w' \<Longrightarrow>
      (\<forall>d. r = Inr d \<longrightarrow> (\<exists>s. lookup (tree w) p = Some (File d s))) \<Longrightarrow> Q r w'"
  shows "wp (os_ReadFile p) Q w"
  unfolding os_ReadFile_def
  by (rule wp_syscall) (auto simp: wp_simps intro!: assms split: option.split node.split)

lemma wp_EvalSymlinks:
  assumes "\<And>r w'. same_files w w' \<Longrightarrow> (\<forall>q. r = Inr q \<longrightarrow> resolve (tree w) p = Inr q) \<Longrightarrow> Q r w'"
  shows "wp (EvalSymlinks p) Q w"
  unfolding EvalSymlinks_def
  by (rule wp_syscall) (auto simp: wp_simps intro!: assms split: sum.split)

lemma resolve_rooted: "resolve t p = Inr q \<Longrightarrow> is_rooted q"
  by (auto simp: resolve_def elems_path_def is_rooted_def split: sum.splits)

lemma child_name_Some: "child_name d p = Some n \<longleftrightarrow> p = d @ slash # n \<and> n \<noteq> [] \<and> slash \<notin> set n"
proof (cases "CutPrefix p (d @ ''/'')")
  case None
  then have "p \<noteq> d @ slash # n"
    using CutPrefix_append [of "d @ ''/''" n] by auto
  with None show ?thesis by (simp add: child_name_def)
next
  case (Some m)
  then have "p = d @ slash # m" using CutPrefix_Some [of p "d @ ''/''" m] by simp
  with Some show ?thesis by (auto simp: child_name_def)
qed

lemma set_map_filter: "set (List.map_filter f xs) = {y. \<exists>x \<in> set xs. f x = Some y}"
  by (induction xs) (auto simp: List.map_filter_simps split: option.splits)

lemma dir_entries_mem:
  "(n, b) \<in> set (dir_entries t d) \<longleftrightarrow>
     (\<exists>x. (d @ slash # n, x) \<in> set t) \<and> n \<noteq> [] \<and> slash \<notin> set n \<and> b = (lookup t (d @ slash # n) = Some Directory)"
  by (auto simp: dir_entries_def set_map_filter child_name_Some image_iff intro!: bexI)

lemma distinct_dir_entries: "distinct (map fst (dir_entries t d))"
  by (simp add: dir_entries_def comp_def)

lemma sorted_dir_entries: "sorted (map fst (dir_entries t d))"
  by (simp add: dir_entries_def comp_def)

section \<open>Calls that start no program\<close>

definition starts_nothing :: "'a io \<Rightarrow> bool" where
  "starts_nothing m \<longleftrightarrow> (\<forall>w. execs (snd (run_state m w)) = execs w)"

lemma wp_starts_nothing:
  assumes "starts_nothing m" "\<And>r w'. execs w' = execs w \<Longrightarrow> Q r w'"
  shows "wp m Q w"
  using assms by (auto simp: wp_def starts_nothing_def split: prod.split dest!: spec [of _ w])

lemma starts_nothing_return [frame]: "starts_nothing (return x)"
  by (simp add: starts_nothing_def)

lemma starts_nothing_bind [frame]:
  "starts_nothing m \<Longrightarrow> (\<And>x. starts_nothing (f x)) \<Longrightarrow> starts_nothing (m \<bind> f)"
  by (simp add: starts_nothing_def split: prod.split) (metis snd_conv)

lemma starts_nothing_prim [frame]:
  "starts_nothing next_fault" "starts_nothing (gets f)" "starts_nothing (put_tree t)"
  "starts_nothing (put_durable d)" "starts_nothing next_random" "starts_nothing (fresh_temp td pre suf)"
  by (auto simp: starts_nothing_def next_fault_def gets_def put_tree_def put_durable_def next_random_def
      fresh_temp_def split: list.split option.split prod.split)

lemma starts_nothing_if [frame]:
  "starts_nothing m \<Longrightarrow> starts_nothing n \<Longrightarrow> starts_nothing (if b then m else n)"
  by simp

lemma starts_nothing_case [frame]:
  "starts_nothing m \<Longrightarrow> (\<And>x. starts_nothing (f x)) \<Longrightarrow> starts_nothing (case ov of None \<Rightarrow> m | Some x \<Rightarrow> f x)"
  "(\<And>x. starts_nothing (g x)) \<Longrightarrow> (\<And>x. starts_nothing (h x)) \<Longrightarrow>
     starts_nothing (case s of Inl x \<Rightarrow> g x | Inr x \<Rightarrow> h x)"
  "(\<And>x y. starts_nothing (k x y)) \<Longrightarrow> starts_nothing (case q of (x, y) \<Rightarrow> k x y)"
  by (simp_all split: option.split sum.split prod.split)

lemma starts_nothing_syscall [frame]: "starts_nothing m \<Longrightarrow> starts_nothing (syscall op p m)"
  unfolding syscall_def by (intro frame) (auto intro!: frame split: fault.split)

lemma starts_nothing_calls [frame]:
  "starts_nothing (os_ReadFile p)" "starts_nothing (os_ReadDir p)" "starts_nothing (EvalSymlinks p)"
  "starts_nothing (os_Stat p)" "starts_nothing (os_Lstat p)" "starts_nothing (os_CreateTemp p a b)"
  "starts_nothing (file_Chmod p)" "starts_nothing (file_Sync p)"
  "starts_nothing (file_Close p)" "starts_nothing (open_trunc p)" "starts_nothing (os_Rename p q)"
  "starts_nothing (os_Remove p)" "starts_nothing (os_RemoveAll p)" "starts_nothing (os_Mkdir p)"
  "starts_nothing (os_MkdirAll p)" "starts_nothing (sync_dir p)" "starts_nothing (open_dir p)"
  "starts_nothing (filepath_Abs p)" "starts_nothing (os_MkdirTemp p a)" "starts_nothing (os_Open p)"
  "starts_nothing (file_Scan p)"
  unfolding os_MkdirTemp_def os_Open_def file_Scan_def os_ReadFile_def os_ReadDir_def EvalSymlinks_def os_Stat_def os_Lstat_def os_CreateTemp_def
    file_Chmod_def file_Sync_def file_Close_def open_trunc_def os_Rename_def os_Remove_def os_RemoveAll_def
    os_Mkdir_def os_MkdirAll_def sync_dir_def open_dir_def filepath_Abs_def
  by (intro frame)+

lemma starts_nothing_write [frame]:
  "starts_nothing (file_Write p d)" "starts_nothing (os_WriteFile p d)" "starts_nothing (write_stdout s)"
proof -
  show w: "starts_nothing (file_Write p d)" for d
    unfolding file_Write_def by (intro frame) (auto intro!: frame split: fault.split)
  show "starts_nothing (os_WriteFile p d)"
    unfolding os_WriteFile_def by (intro frame w)
  have "starts_nothing (State (\<lambda>w. (Ok (), w\<lparr>written := written w @ s\<rparr>)))"
    by (simp add: starts_nothing_def)
  then show "starts_nothing (write_stdout s)" unfolding write_stdout_def by (intro frame)
qed

section \<open>The programs a run starts\<close>

text \<open>
  Every program that a run of \<open>m\<close> starts satisfies \<open>P\<close>, whatever calls fail. The rule for a sequence passes
  on that the intermediate value was returned.
\<close>

definition starts_only :: "(cmd \<Rightarrow> bool) \<Rightarrow> 'a io \<Rightarrow> bool" where
  "starts_only P m \<longleftrightarrow> (\<forall>w. \<exists>cs. execs (snd (run_state m w)) = cs @ execs w \<and> list_all P cs)"

lemma starts_only_run:
  "starts_only P m \<Longrightarrow> run_state m w = (r, w') \<Longrightarrow> \<exists>cs. execs w' = cs @ execs w \<and> list_all P cs"
  by (auto simp: starts_only_def dest!: spec [of _ w])

lemma starts_only_nothing: "starts_nothing m \<Longrightarrow> starts_only P m"
  by (simp add: starts_nothing_def starts_only_def)

lemma starts_only_bind [frame]:
  assumes "starts_only P m" "\<And>x w w'. run_state m w = (x, w') \<Longrightarrow> starts_only P (f x)"
  shows "starts_only P (m \<bind> f)"
  unfolding starts_only_def
proof
  fix w
  obtain x w1 where m: "run_state m w = (x, w1)" by fastforce
  obtain y w2 where f: "run_state (f x) w1 = (y, w2)" by fastforce
  from starts_only_run [OF assms(1) m] starts_only_run [OF assms(2) [OF m] f] m f
  show "\<exists>cs. execs (snd (run_state (m \<bind> f) w)) = cs @ execs w \<and> list_all P cs" by auto
qed

lemma starts_only_return [frame]: "starts_only P (return x)"
  by (simp add: starts_only_def)

lemma starts_only_if [frame]: "(b \<Longrightarrow> starts_only P m) \<Longrightarrow> (\<not> b \<Longrightarrow> starts_only P n) \<Longrightarrow> starts_only P (if b then m else n)"
  by simp

lemma starts_only_case [frame]:
  "starts_only P m \<Longrightarrow> (\<And>x. ov = Some x \<Longrightarrow> starts_only P (f x)) \<Longrightarrow> starts_only P (case ov of None \<Rightarrow> m | Some x \<Rightarrow> f x)"
  "(\<And>x. s = Inl x \<Longrightarrow> starts_only P (g x)) \<Longrightarrow> (\<And>x. s = Inr x \<Longrightarrow> starts_only P (h x)) \<Longrightarrow>
     starts_only P (case s of Inl x \<Rightarrow> g x | Inr x \<Rightarrow> h x)"
  "(\<And>x y. z = (x, y) \<Longrightarrow> starts_only P (k x y)) \<Longrightarrow> starts_only P (case z of (x, y) \<Rightarrow> k x y)"
  "starts_only P m \<Longrightarrow> (\<And>x xs. l = x # xs \<Longrightarrow> starts_only P (c x xs)) \<Longrightarrow> starts_only P (case l of [] \<Rightarrow> m | x # xs \<Rightarrow> c x xs)"
  by (simp_all split: option.split sum.split prod.split list.split)

section \<open>What a call keeps\<close>

text \<open>A run of \<open>m\<close> keeps the part \<open>f\<close> of the state.\<close>

definition keeps :: "(world \<Rightarrow> 'b) \<Rightarrow> 'a io \<Rightarrow> bool" where
  "keeps f m \<longleftrightarrow> (\<forall>w. f (snd (run_state m w)) = f w)"

lemma wp_keeps:
  assumes "keeps f m" "\<And>r w'. f w' = f w \<Longrightarrow> Q r w'"
  shows "wp m Q w"
  using assms by (auto simp: wp_def keeps_def split: prod.split dest!: spec [of _ w])

lemma keeps_run: "keeps f m \<Longrightarrow> run_state m w = (r, w') \<Longrightarrow> f w' = f w"
  by (auto simp: keeps_def dest!: spec [of _ w])

lemma keeps_return [frame]: "keeps f (return x)"
  by (simp add: keeps_def)

lemma keeps_bind [frame]: "keeps f m \<Longrightarrow> (\<And>x. keeps f (g x)) \<Longrightarrow> keeps f (m \<bind> g)"
  by (simp add: keeps_def split: prod.split) (metis snd_conv)

lemma keeps_if [frame]: "keeps f m \<Longrightarrow> keeps f n \<Longrightarrow> keeps f (if b then m else n)"
  by simp

lemma keeps_case [frame]:
  "keeps f m \<Longrightarrow> (\<And>x. keeps f (g x)) \<Longrightarrow> keeps f (case ov of None \<Rightarrow> m | Some x \<Rightarrow> g x)"
  "(\<And>x. keeps f (g1 x)) \<Longrightarrow> (\<And>x. keeps f (h x)) \<Longrightarrow> keeps f (case s of Inl x \<Rightarrow> g1 x | Inr x \<Rightarrow> h x)"
  "(\<And>x y. keeps f (k x y)) \<Longrightarrow> keeps f (case q of (x, y) \<Rightarrow> k x y)"
  by (simp_all split: option.split sum.split prod.split)

lemma keeps_case_node [frame]:
  "(\<And>d s. keeps f (a d s)) \<Longrightarrow> keeps f b \<Longrightarrow> (\<And>l. keeps f (c l)) \<Longrightarrow> (\<And>i. keeps f (e i)) \<Longrightarrow>
     keeps f (case n of File d s \<Rightarrow> a d s | Directory \<Rightarrow> b | Symlink l \<Rightarrow> c l | Socket i \<Rightarrow> e i)"
  by (simp split: node.split)

lemma keeps_prim [frame]:
  "keeps objects next_fault" "keeps objects (gets f)" "keeps objects (put_tree t)"
  "keeps objects (put_durable d)" "keeps objects next_random" "keeps objects (fresh_temp td pre suf)"
  "keeps tree next_fault" "keeps tree (gets f)" "keeps tree next_random" "keeps tree (fresh_temp td pre suf)"
  by (auto simp: keeps_def next_fault_def gets_def put_tree_def put_durable_def next_random_def
      fresh_temp_def split: list.split option.split prod.split)

lemma keeps_syscall [frame]: "keeps f next_fault \<Longrightarrow> keeps f m \<Longrightarrow> keeps f (syscall op p m)"
  unfolding syscall_def by (intro frame) (auto intro!: frame split: fault.split)

lemma keeps_calls [frame]:
  "keeps objects (os_ReadFile p)" "keeps objects (os_ReadDir p)" "keeps objects (EvalSymlinks p)"
  "keeps objects (os_Stat p)" "keeps objects (os_Lstat p)" "keeps objects (os_CreateTemp p a b)"
  "keeps objects (file_Chmod p)" "keeps objects (file_Sync p)"
  "keeps objects (file_Close p)" "keeps objects (open_trunc p)" "keeps objects (os_Rename p q)"
  "keeps objects (os_Remove p)" "keeps objects (os_RemoveAll p)" "keeps objects (os_Mkdir p)"
  "keeps objects (os_MkdirAll p)" "keeps objects (sync_dir p)" "keeps objects (open_dir p)"
  "keeps objects (filepath_Abs p)" "keeps objects (os_MkdirTemp p a)" "keeps objects (os_Open p)"
  "keeps objects (file_Scan p)"
  unfolding os_ReadFile_def os_ReadDir_def EvalSymlinks_def os_Stat_def os_Lstat_def os_CreateTemp_def
    file_Chmod_def file_Sync_def file_Close_def open_trunc_def os_Rename_def os_Remove_def os_RemoveAll_def
    os_Mkdir_def os_MkdirAll_def sync_dir_def open_dir_def filepath_Abs_def os_MkdirTemp_def os_Open_def file_Scan_def
  by (intro frame)+

lemma keeps_write [frame]: "keeps objects (file_Write p d)" "keeps objects (os_WriteFile p d)"
proof -
  show w: "keeps objects (file_Write p d)" for d
    unfolding file_Write_def by (intro frame) (auto intro!: frame split: fault.split)
  show "keeps objects (os_WriteFile p d)" unfolding os_WriteFile_def by (intro frame w)
qed

lemma keeps_tree_calls [frame]:
  "keeps tree (os_ReadFile p)" "keeps tree (os_ReadDir p)" "keeps tree (EvalSymlinks p)" "keeps tree (os_Stat p)"
  "keeps tree (os_Lstat p)" "keeps tree (filepath_Abs p)" "keeps tree (os_Open p)" "keeps tree (file_Scan p)"
  "keeps tree (file_Close p)"
  unfolding os_ReadFile_def os_ReadDir_def EvalSymlinks_def os_Stat_def os_Lstat_def filepath_Abs_def os_Open_def
    file_Scan_def file_Close_def
  by (intro frame)+

section \<open>Runs without faults\<close>

text \<open>A fault-free run stays fault-free.\<close>

definition quiet :: "'a io \<Rightarrow> bool" where
  "quiet m \<longleftrightarrow> (\<forall>w. faults w = [] \<longrightarrow> faults (snd (run_state m w)) = [])"

lemma quiet_return [frame]: "quiet (return x)"
  by (simp add: quiet_def)

lemma quiet_bind [frame]: "quiet m \<Longrightarrow> (\<And>x. quiet (g x)) \<Longrightarrow> quiet (m \<bind> g)"
  by (simp add: quiet_def split: prod.split) (metis snd_conv)

lemma quiet_if [frame]: "quiet m \<Longrightarrow> quiet n \<Longrightarrow> quiet (if b then m else n)"
  by simp

lemma quiet_case [frame]:
  "quiet m \<Longrightarrow> (\<And>x. quiet (g x)) \<Longrightarrow> quiet (case ov of None \<Rightarrow> m | Some x \<Rightarrow> g x)"
  "(\<And>x. quiet (g1 x)) \<Longrightarrow> (\<And>x. quiet (h x)) \<Longrightarrow> quiet (case s of Inl x \<Rightarrow> g1 x | Inr x \<Rightarrow> h x)"
  "(\<And>x y. quiet (k x y)) \<Longrightarrow> quiet (case q of (x, y) \<Rightarrow> k x y)"
  by (simp_all split: option.split sum.split prod.split)

lemma quiet_prim [frame]:
  "quiet next_fault" "quiet (gets f)" "quiet (put_tree t)"
  "quiet (put_durable d)" "quiet next_random" "quiet (fresh_temp td pre suf)"
  by (auto simp: quiet_def next_fault_def gets_def put_tree_def put_durable_def next_random_def
      fresh_temp_def split: list.split option.split prod.split)

lemma quiet_syscall [frame]: "quiet m \<Longrightarrow> quiet (syscall op p m)"
  unfolding syscall_def by (intro frame) (auto intro!: frame split: fault.split)

lemma quiet_calls [frame]:
  "quiet (os_ReadFile p)" "quiet (os_ReadDir p)" "quiet (EvalSymlinks p)"
  "quiet (os_Stat p)" "quiet (os_Lstat p)" "quiet (os_CreateTemp p a b)"
  "quiet (file_Chmod p)" "quiet (file_Sync p)"
  "quiet (file_Close p)" "quiet (open_trunc p)" "quiet (os_Rename p q)"
  "quiet (os_Remove p)" "quiet (os_RemoveAll p)" "quiet (os_Mkdir p)"
  "quiet (os_MkdirAll p)" "quiet (sync_dir p)" "quiet (open_dir p)"
  "quiet (filepath_Abs p)" "quiet (os_MkdirTemp p a)" "quiet (os_Open p)"
  "quiet (file_Scan p)"
  unfolding os_ReadFile_def os_ReadDir_def EvalSymlinks_def os_Stat_def os_Lstat_def os_CreateTemp_def
    file_Chmod_def file_Sync_def file_Close_def open_trunc_def os_Rename_def os_Remove_def os_RemoveAll_def
    os_Mkdir_def os_MkdirAll_def sync_dir_def open_dir_def filepath_Abs_def os_MkdirTemp_def os_Open_def file_Scan_def
  by (intro frame)+

lemma quiet_write [frame]: "quiet (file_Write p d)" "quiet (os_WriteFile p d)"
proof -
  show w: "quiet (file_Write p d)" for d
    unfolding file_Write_def by (intro frame) (auto intro!: frame split: fault.split)
  show "quiet (os_WriteFile p d)" unfolding os_WriteFile_def by (intro frame w)
qed

lemma wp_quiet:
  assumes "quiet m" "faults w = []" "\<And>r w'. faults w' = [] \<Longrightarrow> Q r w'"
  shows "wp m Q w"
  using assms by (auto simp: wp_def quiet_def split: prod.split dest!: spec [of _ w])

lemma wp_quiet_nothing:
  assumes "starts_nothing m" "quiet m" "faults w = []" "\<And>r w'. execs w' = execs w \<Longrightarrow> faults w' = [] \<Longrightarrow> Q r w'"
  shows "wp m Q w"
  using assms by (auto simp: wp_def quiet_def starts_nothing_def split: prod.split dest!: spec [of _ w])

section \<open>Paths a run leaves alone\<close>

text \<open>
  The run binds the name \<open>q\<close> to the same node at its end and at every crash point on the way. The rule for
  a sequence passes on that the intermediate value was returned.
\<close>

definition untouched :: "string \<Rightarrow> 'a io \<Rightarrow> bool" where
  "untouched q m \<longleftrightarrow> (\<forall>w. lookup (tree (snd (run_state m w))) q = lookup (tree w) q
     \<and> (\<exists>js. journal (snd (run_state m w)) = js @ journal w \<and> list_all (\<lambda>s. lookup (fst s) q = lookup (tree w) q) js))"

lemma untouched_run:
  "untouched q m \<Longrightarrow> run_state m w = (r, w') \<Longrightarrow> lookup (tree w') q = lookup (tree w) q
     \<and> (\<exists>js. journal w' = js @ journal w \<and> list_all (\<lambda>s. lookup (fst s) q = lookup (tree w) q) js)"
  by (auto simp: untouched_def dest!: spec [of _ w])

lemma untouched_tree: "untouched q m \<Longrightarrow> run_state m w = (r, w') \<Longrightarrow> lookup (tree w') q = lookup (tree w) q"
  by (drule (1) untouched_run) simp

lemma untouched_still: "keeps tree m \<Longrightarrow> keeps journal m \<Longrightarrow> untouched q m"
  by (simp add: untouched_def keeps_def)

lemma untouched_return [frame]: "untouched q (return x)"
  by (simp add: untouched_def)

lemma untouched_bind [frame]:
  assumes "untouched q m" "\<And>x w w'. run_state m w = (x, w') \<Longrightarrow> untouched q (f x)"
  shows "untouched q (m \<bind> f)"
  unfolding untouched_def
proof
  fix w
  obtain x w1 where m: "run_state m w = (x, w1)" by fastforce
  obtain y w2 where f: "run_state (f x) w1 = (y, w2)" by fastforce
  from untouched_run [OF assms(1) m] untouched_run [OF assms(2) [OF m] f] m f
  show "lookup (tree (snd (run_state (m \<bind> f) w))) q = lookup (tree w) q \<and>
     (\<exists>js. journal (snd (run_state (m \<bind> f) w)) = js @ journal w \<and> list_all (\<lambda>s. lookup (fst s) q = lookup (tree w) q) js)"
    by auto
qed

lemma untouched_if [frame]: "(b \<Longrightarrow> untouched q m) \<Longrightarrow> (\<not> b \<Longrightarrow> untouched q n) \<Longrightarrow> untouched q (if b then m else n)"
  by simp

lemma untouched_case [frame]:
  "untouched q m \<Longrightarrow> (\<And>x. ov = Some x \<Longrightarrow> untouched q (f x)) \<Longrightarrow> untouched q (case ov of None \<Rightarrow> m | Some x \<Rightarrow> f x)"
  "(\<And>x. s = Inl x \<Longrightarrow> untouched q (g x)) \<Longrightarrow> (\<And>x. s = Inr x \<Longrightarrow> untouched q (h x)) \<Longrightarrow>
     untouched q (case s of Inl x \<Rightarrow> g x | Inr x \<Rightarrow> h x)"
  "(\<And>x y. z = (x, y) \<Longrightarrow> untouched q (k x y)) \<Longrightarrow> untouched q (case z of (x, y) \<Rightarrow> k x y)"
  by (simp_all split: option.split sum.split prod.split)

lemma untouched_prim [frame]:
  "untouched q next_fault" "untouched q (gets f)" "untouched q next_random" "untouched q (fresh_temp td pre suf)"
  "untouched q (put_durable d)"
  by (auto simp: untouched_def next_fault_def gets_def put_durable_def next_random_def
      fresh_temp_def split: list.split option.split prod.split)

lemma untouched_syscall [frame]: "untouched q m \<Longrightarrow> untouched q (syscall op p m)"
  unfolding syscall_def by (intro frame) (auto intro!: frame split: fault.split)

text \<open>A call that reads the name space and installs another one which agrees on \<open>q\<close>.\<close>

lemma untouched_gets_put [frame]:
  assumes "\<And>t. lookup (f t) q = lookup t q"
  shows "untouched q (gets tree \<bind> (\<lambda>t. put_tree (f t) \<bind> (\<lambda>_. return (x t))))"
  using assms by (simp add: untouched_def)

lemma untouched_readers [frame]:
  "untouched q (os_ReadFile p)" "untouched q (os_ReadDir p)" "untouched q (EvalSymlinks p)" "untouched q (os_Stat p)"
  "untouched q (os_Lstat p)" "untouched q (filepath_Abs p)" "untouched q (os_Open p)" "untouched q (file_Scan p)"
  "untouched q (file_Close p)" "untouched q (file_Chmod p)" "untouched q (sync_dir p)" "untouched q (open_dir p)"
  unfolding os_ReadFile_def os_ReadDir_def EvalSymlinks_def os_Stat_def os_Lstat_def filepath_Abs_def os_Open_def
    file_Scan_def file_Close_def file_Chmod_def sync_dir_def open_dir_def
  by (intro frame)+

lemma untouched_Remove [frame]: "q \<noteq> p \<Longrightarrow> untouched q (os_Remove p)"
  unfolding os_Remove_def
  by (intro untouched_syscall)
    (auto simp: untouched_def lookup_def delete_conv' split: option.split)

lemma untouched_RemoveAll [frame]: "\<not> below p q \<Longrightarrow> untouched q (os_RemoveAll p)"
  unfolding os_RemoveAll_def
  by (intro frame) (auto simp: lookup_def map_of_filter_key)

lemma untouched_Sync [frame]: "q \<noteq> p \<Longrightarrow> untouched q (file_Sync p)"
  unfolding file_Sync_def by (intro frame) (simp add: lookup_def update_conv')

lemma untouched_Write [frame]: "q \<noteq> p \<Longrightarrow> untouched q (file_Write p d)"
  by (auto simp: file_Write_def untouched_def next_fault_def lookup_def update_conv' split: fault.split list.split)

lemma untouched_Rename [frame]: "q \<noteq> a \<Longrightarrow> q \<noteq> b \<Longrightarrow> untouched q (os_Rename a b)"
  unfolding os_Rename_def
  by (intro untouched_syscall)
    (auto simp: untouched_def lookup_def update_conv' delete_conv' split: option.split)

lemma run_CreateTemp_name: "run_state (os_CreateTemp d pre suf) w = (Inr p, w') \<Longrightarrow> \<exists>r. p = d @ slash # pre @ r @ suf"
proof -
  assume r: "run_state (os_CreateTemp d pre suf) w = (Inr p, w')"
  have "wp (os_CreateTemp d pre suf) (\<lambda>x _. \<forall>p. x = Inr p \<longrightarrow> (\<exists>r. p = d @ slash # pre @ r @ suf)) w"
    unfolding os_CreateTemp_def by (rule wp_syscall) (auto simp: wp_simps intro!: wp_fresh_temp)
  from wp_run [OF this r] show ?thesis by blast
qed

lemma untouched_CreateTemp [frame]:
  assumes "\<And>r. q \<noteq> d @ slash # pre @ r @ suf"
  shows "untouched q (os_CreateTemp d pre suf)"
  unfolding os_CreateTemp_def
  by (intro untouched_syscall)
    (use assms in \<open>auto simp: untouched_def lookup_def update_conv' fresh_temp_def dest!: free_temp_free split: option.split\<close>)

section \<open>Resolution in a larger name space\<close>

text \<open>What a successful walk has seen, it sees again in a name space that extends the old one.\<close>

lemma walk_extend:
  assumes "walk links t dst es = Inr x" "\<And>q. lookup t q \<noteq> None \<Longrightarrow> lookup t' q = lookup t q"
  shows "walk links t' dst es = Inr x"
  using assms
proof (induction links t dst es rule: walk.induct)
  case (2 links t dst e es)
  show ?case
  proof (cases "e = [] \<or> e = ''.'' \<or> e = ''..''")
    case True
    with 2 show ?thesis by auto
  next
    case False
    with "2.prems"(1) obtain n where n: "lookup t (elems_path (e # dst)) = Some n"
      by (auto split: option.splits)
    with "2.prems"(2) have n': "lookup t' (elems_path (e # dst)) = Some n" by auto
    from False n n' "2.prems" "2.IH" show ?thesis
      by (cases n) (simp_all split: nat.splits if_split_asm split del: if_split)
  qed
qed simp

lemma resolve_extend:
  assumes "resolve t p = Inr x" "\<And>q. lookup t q \<noteq> None \<Longrightarrow> lookup t' q = lookup t q"
  shows "resolve t' p = Inr x"
  using assms walk_extend [of 255 t "[]" "split_on slash p" _ t'] by (auto simp: resolve_def split: sum.splits)

end
