(* ===== verification/Objectstore.thy ===== *)
theory Objectstore
  imports Go_Fs
begin

text \<open>
  \<open>internal/objectstore\<close>: the storage interface of the bundle mirrors, its in-memory implementation
  (\<open>objectstore.go\<close>) and the S3 implementation (\<open>s3/s3.go\<close>). The interface is a record of the four
  methods. The objects themselves are the \<open>objects\<close> component of the state. The AWS SDK client is not
  part of the repository: it is a record of functions passed to the S3 operations.
\<close>

section \<open>The interface\<close>

record ObjectStore =
  obj_Put :: "string \<Rightarrow> bytes \<Rightarrow> unit result io"
  obj_Get :: "string \<Rightarrow> bytes result io"
  obj_List :: "string \<Rightarrow> string list result io"
  obj_Delete :: "string \<Rightarrow> unit result io"

section \<open>The in-memory store\<close>

definition NotFoundError :: "string \<Rightarrow> gerror" where
  "NotFoundError key = Errf ''object not found: %s'' [key]"

definition Memory_Put :: "string \<Rightarrow> bytes \<Rightarrow> unit result io" where
  "Memory_Put key data = State (\<lambda>w. (Ok (), w\<lparr>objects := AList.update key data (objects w)\<rparr>))"

definition Memory_Get :: "string \<Rightarrow> bytes result io" where
  "Memory_Get key = do {
     m \<leftarrow> gets objects;
     return (case map_of m key of None \<Rightarrow> Fail (NotFoundError key) | Some data \<Rightarrow> Ok data)
   }"

text \<open>The keys of the map in some order without repetition, filtered, then sorted.\<close>

definition listed_keys :: "(string \<times> bytes) list \<Rightarrow> string \<Rightarrow> string list" where
  "listed_keys m pfx = sort (filter (\<lambda>k. HasPrefix k pfx) (remdups (map fst m)))"

definition Memory_List :: "string \<Rightarrow> string list result io" where
  "Memory_List pfx = do {
     m \<leftarrow> gets objects;
     return (Ok (listed_keys m pfx))
   }"

definition Memory_Delete :: "string \<Rightarrow> unit result io" where
  "Memory_Delete key = State (\<lambda>w. (Ok (), w\<lparr>objects := AList.delete key (objects w)\<rparr>))"

definition MemoryStore :: ObjectStore where
  "MemoryStore = \<lparr>obj_Put = Memory_Put, obj_Get = Memory_Get, obj_List = Memory_List, obj_Delete = Memory_Delete\<rparr>"

text \<open>\<open>NewMemoryStore\<close>: the store starts empty.\<close>

definition NewMemoryStore :: "world \<Rightarrow> world" where
  "NewMemoryStore w = w\<lparr>objects := []\<rparr>"

section \<open>The S3 store\<close>

text \<open>One page of \<open>ListObjectsV2\<close>; the pointers of the SDK are options.\<close>

record Page =
  Contents :: "string list"
  IsTruncated :: "bool option"
  NextContinuationToken :: "string option"

text \<open>The client's methods on a bucket; the body of \<open>GetObject\<close> is read by \<open>io.ReadAll\<close>, which may fail.\<close>

record S3Client =
  PutObject :: "string \<Rightarrow> string \<Rightarrow> bytes \<Rightarrow> unit result io"
  GetObject :: "string \<Rightarrow> string \<Rightarrow> bytes result result io"
  ListObjectsV2 :: "string \<Rightarrow> string \<Rightarrow> string option \<Rightarrow> Page result io"
  DeleteObject :: "string \<Rightarrow> string \<Rightarrow> unit result io"

record S3Store =
  client :: S3Client
  bucket :: string

definition S3_Put :: "S3Store \<Rightarrow> string \<Rightarrow> bytes \<Rightarrow> unit result io" where
  "S3_Put s key data = do {
     r \<leftarrow> PutObject (client s) (bucket s) key data;
     return (case r of Inl e \<Rightarrow> Fail (Wrapf ''s3 put %s/%s: %w'' [bucket s, key] e) | Inr _ \<Rightarrow> Ok ())
   }"

definition S3_Get :: "S3Store \<Rightarrow> string \<Rightarrow> bytes result io" where
  "S3_Get s key = do {
     r \<leftarrow> GetObject (client s) (bucket s) key;
     return (case r of
        Inl e \<Rightarrow> Fail (Wrapf ''s3 get %s/%s: %w'' [bucket s, key] e)
      | Inr body \<Rightarrow>
          (case body of
             Inl e \<Rightarrow> Fail (Wrapf ''s3 get %s/%s: read body: %w'' [bucket s, key] e)
           | Inr data \<Rightarrow> Ok data))
   }"

text \<open>
  The pagination loop. It runs as long as the service says there is more: not returning is the
  value \<open>None\<close>.
\<close>

partial_function (option) list_pages ::
  "S3Store \<Rightarrow> string \<Rightarrow> string option \<Rightarrow> string list \<Rightarrow> world \<Rightarrow> (string list result \<times> world) option" where
  "list_pages s pfx token keys w =
     (case run_state (ListObjectsV2 (client s) (bucket s) pfx token) w of (r, w1) \<Rightarrow>
        (case r of
           Inl e \<Rightarrow> Some (Fail (Wrapf ''s3 list %s/%s: %w'' [bucket s, pfx] e), w1)
         | Inr pg \<Rightarrow>
             if IsTruncated pg = Some True
             then list_pages s pfx (NextContinuationToken pg) (keys @ Contents pg) w1
             else Some (Ok (sort (keys @ Contents pg)), w1)))"

definition S3_List :: "S3Store \<Rightarrow> string \<Rightarrow> world \<Rightarrow> (string list result \<times> world) option" where
  "S3_List s pfx w = list_pages s pfx None [] w"

definition S3_Delete :: "S3Store \<Rightarrow> string \<Rightarrow> unit result io" where
  "S3_Delete s key = do {
     r \<leftarrow> DeleteObject (client s) (bucket s) key;
     return (case r of Inl e \<Rightarrow> Fail (Wrapf ''s3 delete %s/%s: %w'' [bucket s, key] e) | Inr _ \<Rightarrow> Ok ())
   }"

section \<open>The contract of the interface\<close>

text \<open>
  What the comments of the interface promise, as laws over the map of stored objects. An operation may
  fail; a failed \<open>Put\<close> or \<open>Delete\<close> may still have acted on its own key, never on another. No operation
  touches the file system or starts a program.
\<close>

definition same_host :: "world \<Rightarrow> world \<Rightarrow> bool" where
  "same_host w w' \<longleftrightarrow> tree w' = tree w \<and> durable w' = durable w \<and> execs w' = execs w \<and> journal w' = journal w
     \<and> written w' = written w"

lemma same_hostI [simp]: "same_host w w" "same_host w (w\<lparr>objects := m\<rparr>)"
  by (simp_all add: same_host_def)

lemma same_host_trans: "same_host u v \<Longrightarrow> same_host v w \<Longrightarrow> same_host u w"
  by (simp add: same_host_def)

lemma same_files_host: "same_files w w' \<Longrightarrow> same_host w w'"
  by (simp add: same_host_def same_files_fields)

locale object_store =
  fixes store :: ObjectStore
    and objs :: "world \<Rightarrow> string \<Rightarrow> bytes option"
  assumes objs_cong: "objects w' = objects w \<Longrightarrow> objs w' = objs w"
    and put_law: "wp (obj_Put store k d) (\<lambda>r w'. same_host w w' \<and> (\<forall>k'. k' \<noteq> k \<longrightarrow> objs w' k' = objs w k')
        \<and> (r = Ok () \<longrightarrow> objs w' k = Some d)) w"
    and get_law: "wp (obj_Get store k) (\<lambda>r w'. same_host w w' \<and> objs w' = objs w \<and> (\<forall>d. r = Ok d \<longrightarrow> objs w k = Some d)) w"
    and list_law: "wp (obj_List store p) (\<lambda>r w'. same_host w w' \<and> objs w' = objs w \<and>
        (\<forall>ks. r = Ok ks \<longrightarrow> sorted ks \<and> distinct ks \<and> set ks = {k. objs w k \<noteq> None \<and> HasPrefix k p})) w"
    and delete_law: "wp (obj_Delete store k) (\<lambda>r w'. same_host w w' \<and> (\<forall>k'. k' \<noteq> k \<longrightarrow> objs w' k' = objs w k')
        \<and> (r = Ok () \<longrightarrow> objs w' k = None)) w"
begin

text \<open>The newest of the listed keys, in the order of the keys.\<close>

lemma list_last:
  assumes "run_state (obj_List store p) w = (Ok ks, w')" "objs w k \<noteq> None" "HasPrefix k p"
    and "\<And>k'. objs w k' \<noteq> None \<Longrightarrow> HasPrefix k' p \<Longrightarrow> k' \<le> k"
  shows "ks \<noteq> [] \<and> last ks = k"
proof -
  have ks: "sorted ks" "set ks = {k. objs w k \<noteq> None \<and> HasPrefix k p}"
    using wp_run [OF list_law assms(1)] by auto
  then have "k \<in> set ks" using assms(2,3) by auto
  then have "ks \<noteq> []" by auto
  moreover have "k \<le> last ks" using sorted_last_greatest [OF ks(1) \<open>k \<in> set ks\<close>] .
  moreover have "last ks \<in> set ks" using \<open>ks \<noteq> []\<close> by simp
  then have "last ks \<le> k" using assms(4) ks(2) by auto
  ultimately show ?thesis by simp
qed

end

lemma set_listed_keys: "set (listed_keys m p) = {k. map_of m k \<noteq> None \<and> HasPrefix k p}"
  by (auto simp: listed_keys_def map_of_eq_None_iff)

lemma sorted_listed_keys: "sorted (listed_keys m p)" "distinct (listed_keys m p)"
  by (simp_all add: listed_keys_def)

interpretation mem: object_store MemoryStore "\<lambda>w. map_of (objects w)"
proof unfold_locales
  show "wp (obj_Put MemoryStore k d) (\<lambda>r w'. same_host w w' \<and> (\<forall>k'. k' \<noteq> k \<longrightarrow> map_of (objects w') k' = map_of (objects w) k')
        \<and> (r = Ok () \<longrightarrow> map_of (objects w') k = Some d)) w" for k d w
    by (simp add: MemoryStore_def Memory_Put_def wp_def update_conv')
  show "wp (obj_Delete MemoryStore k) (\<lambda>r w'. same_host w w' \<and> (\<forall>k'. k' \<noteq> k \<longrightarrow> map_of (objects w') k' = map_of (objects w) k')
        \<and> (r = Ok () \<longrightarrow> map_of (objects w') k = None)) w" for k w
    by (simp add: MemoryStore_def Memory_Delete_def wp_def delete_conv')
qed (auto simp: MemoryStore_def Memory_Get_def Memory_List_def wp_simps set_listed_keys sorted_listed_keys split: option.split)

section \<open>Pagination\<close>

text \<open>
  The documented behaviour of \<open>ListObjectsV2\<close>: for the keys of the bucket with the prefix, cut into
  non-overlapping pages, the token of a truncated page leads to the next one, and the last page is not
  truncated. The call changes nothing.
\<close>

fun serves_from :: "S3Store \<Rightarrow> string \<Rightarrow> world \<Rightarrow> string option \<Rightarrow> string list list \<Rightarrow> bool" where
  "serves_from s pfx w token [] = False"
| "serves_from s pfx w token [p] =
     (\<exists>pg. run_state (ListObjectsV2 (client s) (bucket s) pfx token) w = (Ok pg, w)
        \<and> Contents pg = p \<and> IsTruncated pg \<noteq> Some True)"
| "serves_from s pfx w token (p # ps) =
     (\<exists>pg. run_state (ListObjectsV2 (client s) (bucket s) pfx token) w = (Ok pg, w)
        \<and> Contents pg = p \<and> IsTruncated pg = Some True \<and> serves_from s pfx w (NextContinuationToken pg) ps)"

lemma list_pages_serves:
  "serves_from s pfx w token ps \<Longrightarrow> list_pages s pfx token keys w = Some (Ok (sort (keys @ concat ps)), w)"
  by (induction s pfx w token ps arbitrary: keys rule: serves_from.induct) (auto simp: list_pages.simps)

text \<open>
  C19. The paginated S3 listing returns, and returns what the in-memory store lists: for every way the
  service may cut the bucket's keys with the prefix into pages, the loop ends after the last page, with
  all keys, each once, in ascending order, and changes nothing.
\<close>

theorem S3_List_refines_memory:
  assumes "serves_from s pfx w None ps" "distinct (concat ps)"
    and "set (concat ps) = {k \<in> fst ` set (objects w). HasPrefix k pfx}"
  shows "S3_List s pfx w = Some (run_state (obj_List MemoryStore pfx) w)"
proof -
  have "set (concat ps) = set (listed_keys (objects w) pfx)"
    using assms(3) by (auto simp: listed_keys_def)
  then have "sort (concat ps) = listed_keys (objects w) pfx"
    using assms(2) sorted_listed_keys by (intro sorted_distinct_set_unique) auto
  with list_pages_serves [OF assms(1), of "[]"] show ?thesis
    by (simp add: S3_List_def MemoryStore_def Memory_List_def)
qed

text \<open>A service with two pages, the second reached by the token \<open>t\<close>.\<close>

definition two_pages :: S3Store where
  "two_pages = \<lparr>client = \<lparr>PutObject = \<lambda>b k d. return (Ok ()), GetObject = \<lambda>b k. return (Ok (Ok [])),
      ListObjectsV2 = (\<lambda>b p tok. return (Ok (if tok = None
         then \<lparr>Contents = [''r/b''], IsTruncated = Some True, NextContinuationToken = Some ''t''\<rparr>
         else \<lparr>Contents = [''r/a''], IsTruncated = None, NextContinuationToken = None\<rparr>))),
      DeleteObject = \<lambda>b k. return (Ok ())\<rparr>, bucket = ''bk''\<rparr>"

definition bucket_world :: world where
  "bucket_world = \<lparr>tree = [], durable = [], faults = [], entropy = [], cwd = ''/'', execs = [], journal = [], written = [],
     objects = [(''r/a'', ''x''), (''r/b'', ''y''), (''q'', ''z'')]\<rparr>"

theorem S3_List_refines_memory_witness:
  "S3_List two_pages ''r/'' bucket_world = Some (Ok [''r/a'', ''r/b''], bucket_world)"
proof -
  have s: "serves_from two_pages ''r/'' bucket_world None [[''r/b''], [''r/a'']]"
    by (simp add: two_pages_def)
  have d: "distinct (concat [[''r/b''], [''r/a'']])" by simp
  have k: "set (concat [[''r/b''], [''r/a'']]) = {k \<in> fst ` set (objects bucket_world). HasPrefix k ''r/''}"
    by (auto simp: bucket_world_def)
  have m: "run_state (obj_List MemoryStore ''r/'') bucket_world = (Ok [''r/a'', ''r/b''], bucket_world)"
    by (simp add: MemoryStore_def Memory_List_def listed_keys_def bucket_world_def)
  from S3_List_refines_memory [OF s d k] m show ?thesis by simp
qed

lemma memory_frame [frame]:
  "quiet (obj_Put MemoryStore k d)" "quiet (obj_Get MemoryStore k)" "quiet (obj_List MemoryStore p)" "quiet (obj_Delete MemoryStore k)"
  "starts_nothing (obj_Put MemoryStore k d)" "starts_nothing (obj_Get MemoryStore k)"
  "starts_nothing (obj_List MemoryStore p)" "starts_nothing (obj_Delete MemoryStore k)"
  by (simp_all add: MemoryStore_def Memory_Put_def Memory_Get_def Memory_List_def Memory_Delete_def quiet_def starts_nothing_def)

end
