(* ===== verification/Repo.thy ===== *)
theory Repo
  imports Go_Fs
begin

text \<open>
  \<open>internal/repo/repo.go\<close>: the repository name allowlist, the removal of one trailing \<open>.git\<close>, the
  bare-repository layout check, the enumeration of the bare repositories under a root, and the
  symlink-escape guard \<open>RealpathUnder\<close>.
\<close>

section \<open>Names\<close>

definition alnum_char :: "char \<Rightarrow> bool" where
  "alnum_char c \<longleftrightarrow> (CHR ''A'' \<le> c \<and> c \<le> CHR ''Z'') \<or> (CHR ''a'' \<le> c \<and> c \<le> CHR ''z'')
     \<or> (CHR ''0'' \<le> c \<and> c \<le> CHR ''9'')"

definition name_char :: "char \<Rightarrow> bool" where
  "name_char c \<longleftrightarrow> alnum_char c \<or> c = CHR ''.'' \<or> c = CHR ''_'' \<or> c = CHR ''-''"

text \<open>The regular expression \<open>^[A-Za-z0-9][A-Za-z0-9._-]{0,99}$\<close>.\<close>

definition ValidName :: "string \<Rightarrow> bool" where
  "ValidName n \<longleftrightarrow>
     (case n of [] \<Rightarrow> False | c # cs \<Rightarrow> alnum_char c \<and> list_all name_char cs \<and> length cs \<le> 99)"

definition stripDotGit :: "string \<Rightarrow> string \<times> bool" where
  "stripDotGit s =
     (if length s > 4 \<and> drop (length s - 4) s = ''.git'' then (take (length s - 4) s, True) else (s, False))"

definition Normalize :: "string \<Rightarrow> string" where
  "Normalize s = (case stripDotGit s of (n, ok) \<Rightarrow> if ok then n else s)"

section \<open>Layout\<close>

definition bare_names :: "string list" where
  "bare_names = [''HEAD'', ''objects'', ''refs'']"

fun stat_all :: "string \<Rightarrow> string list \<Rightarrow> bool result io" where
  "stat_all dir [] = return (Ok True)"
| "stat_all dir (n # ns) = do {
     r \<leftarrow> os_Stat (Join [dir, n]);
     case r of
       Inl e \<Rightarrow> return (if errors_Is e ErrNotExist then Ok False
                      else Fail (Wrapf ''stat %s: %w'' [Join [dir, n]] e))
     | Inr _ \<Rightarrow> stat_all dir ns
   }"

definition IsBareRepo :: "string \<Rightarrow> bool result io" where
  "IsBareRepo dir = stat_all dir bare_names"

text \<open>The loop of \<open>ListBare\<close> over the directory entries, with the names found so far.\<close>

fun bare_loop :: "string \<Rightarrow> (string \<times> bool) list \<Rightarrow> string list \<Rightarrow> string list result io" where
  "bare_loop root [] names = return (Ok names)"
| "bare_loop root ((e, isdir) # es) names =
     (if \<not> isdir \<or> \<not> HasSuffix e ''.git'' then bare_loop root es names
      else let name = Normalize e in
        if \<not> ValidName name then bare_loop root es names
        else do {
          r \<leftarrow> IsBareRepo (Join [root, e]);
          case r of
            Inl err \<Rightarrow> return (Fail (Wrapf ''inspect %s: %w'' [e] err))
          | Inr ok \<Rightarrow> bare_loop root es (if ok then names @ [name] else names)
        })"

definition ListBare :: "string \<Rightarrow> string list result io" where
  "ListBare root = do {
     r \<leftarrow> os_ReadDir root;
     case r of
       Inl e \<Rightarrow> return (Fail (Wrapf ''list repos under %s: %w'' [root] e))
     | Inr entries \<Rightarrow> do {
         rs \<leftarrow> bare_loop root entries [];
         return (case rs of Inl e \<Rightarrow> Fail e | Inr names \<Rightarrow> Ok (sort names)) }
   }"

definition RealpathUnder :: "string \<Rightarrow> string \<Rightarrow> string result io" where
  "RealpathUnder root dir = do {
     ra \<leftarrow> filepath_Abs root;
     case ra of
       Inl e \<Rightarrow> return (Fail (Wrapf ''resolve root: %w'' [] e))
     | Inr absRoot \<Rightarrow> do {
         rr \<leftarrow> EvalSymlinks dir;
         case rr of
           Inl e \<Rightarrow> return (Fail (Wrapf ''resolve %s: %w'' [dir] e))
         | Inr resolved \<Rightarrow>
             (let clean = Clean resolved in
              if clean \<noteq> absRoot \<and> \<not> HasPrefix clean (absRoot @ ''/'')
              then return (Fail (Errf ''%s escapes %s'' [clean, absRoot]))
              else return (Ok clean)) }
   }"

section \<open>Names: facts\<close>

lemma alnum_code: "alnum_char c \<longleftrightarrow>
    (65 \<le> code c \<and> code c \<le> 90) \<or> (97 \<le> code c \<and> code c \<le> 122) \<or> (48 \<le> code c \<and> code c \<le> 57)"
  by (simp add: alnum_char_def less_eq_char_def code_def)

lemma name_char_not_slash: "name_char c \<Longrightarrow> c \<noteq> slash"
  by (auto simp: name_char_def alnum_code code_def)

lemma name_char_not_newline: "name_char c \<Longrightarrow> c \<noteq> newline_char"
  by (auto simp: name_char_def alnum_code code_def)

lemma alnum_name_char: "alnum_char c \<Longrightarrow> name_char c"
  by (simp add: name_char_def)

lemma ValidName_chars: "ValidName n \<Longrightarrow> c \<in> set n \<Longrightarrow> name_char c"
  by (auto simp: ValidName_def list_all_iff alnum_name_char split: list.splits)

lemma ValidName_nonempty: "ValidName n \<Longrightarrow> n \<noteq> []"
  by (auto simp: ValidName_def)

lemma ValidName_no_slash: "ValidName n \<Longrightarrow> slash \<notin> set n"
  using ValidName_chars name_char_not_slash by blast

lemma ValidName_hd: "ValidName n \<Longrightarrow> alnum_char (hd n)"
  by (auto simp: ValidName_def split: list.splits)

lemma ValidName_not_dot: "ValidName n \<Longrightarrow> hd n \<noteq> CHR ''.'' \<and> hd n \<noteq> CHR ''-''"
  by (drule ValidName_hd) (auto simp: alnum_code code_def)

lemma git_suffix_name:
  assumes "ValidName n"
  shows "slash \<notin> set (n @ ''.git'')" "n @ ''.git'' \<noteq> []" "n @ ''.git'' \<noteq> ''.''" "n @ ''.git'' \<noteq> ''..''"
  using ValidName_no_slash [OF assms] ValidName_nonempty [OF assms] by (auto simp: append_eq_Cons_conv)

lemma Join_repo:
  "clean_root root \<Longrightarrow> ValidName n \<Longrightarrow> Join [root, n @ ''.git''] = root @ slash # n @ ''.git''"
  using git_suffix_name [of n] by (simp add: Join_clean_root)

lemma Normalize_git: "n \<noteq> [] \<Longrightarrow> Normalize (n @ ''.git'') = n"
  by (simp add: Normalize_def stripDotGit_def)

lemma Normalize_ValidName_git:
  assumes "HasSuffix e ''.git''" "ValidName (Normalize e)"
  shows "e = Normalize e @ ''.git''"
proof -
  from assms(1) obtain r where e: "e = r @ ''.git''" by (auto simp: HasSuffix_iff)
  show ?thesis
  proof (cases "r = []")
    case True
    with e have "Normalize e = ''.git''" by (simp add: Normalize_def stripDotGit_def)
    with assms(2) ValidName_not_dot show ?thesis by fastforce
  next
    case False
    with e show ?thesis by (simp add: Normalize_git)
  qed
qed

section \<open>Layout: facts\<close>

text \<open>The layout check as a predicate on the name space.\<close>

definition bare_layout :: "names \<Rightarrow> string \<Rightarrow> bool" where
  "bare_layout t d \<longleftrightarrow> list_all (\<lambda>n. case stat_of t (Join [d, n]) of Inl _ \<Rightarrow> False | Inr _ \<Rightarrow> True) bare_names"

lemma stat_all_sound:
  "wp (stat_all d ns) (\<lambda>r w'. same_files w w' \<and>
     (r = Inr True \<longrightarrow> list_all (\<lambda>n. case stat_of (tree w) (Join [d, n]) of Inl _ \<Rightarrow> False | Inr _ \<Rightarrow> True) ns)) w"
proof (induction ns arbitrary: w)
  case (Cons n ns)
  show ?case
    unfolding stat_all.simps wp_bind
  proof (rule wp_os_Stat)
    fix r w1
    assume s: "same_files w w1" and r: "(\<exists>x. r = Inr x) \<longrightarrow> r = stat_of (tree w) (Join [d, n])"
    from same_files_fields [OF s] have t: "tree w1 = tree w" by simp
    show "wp (case r of
            Inl e \<Rightarrow> return (if errors_Is e ErrNotExist then Ok False
                          else Fail (Wrapf ''stat %s: %w'' [Join [d, n]] e))
          | Inr _ \<Rightarrow> stat_all d ns)
       (\<lambda>r w'. same_files w w' \<and> (r = Inr True \<longrightarrow> list_all (\<lambda>n. case stat_of (tree w) (Join [d, n]) of
            Inl _ \<Rightarrow> False | Inr _ \<Rightarrow> True) (n # ns))) w1"
    proof (cases r)
      case (Inl e)
      with s show ?thesis by simp
    next
      case (Inr x)
      with r have "stat_of (tree w) (Join [d, n]) = Inr x" by simp
      with s t Inr show ?thesis
        by (auto intro!: wp_mono [OF Cons.IH] intro: same_files_trans)
    qed
  qed
qed simp

lemma IsBareRepo_sound:
  "wp (IsBareRepo d) (\<lambda>r w'. same_files w w' \<and> (r = Inr True \<longrightarrow> bare_layout (tree w) d)) w"
  using stat_all_sound [of d bare_names w] by (simp add: IsBareRepo_def bare_layout_def)

lemma stat_all_nil:
  assumes "faults w = []"
  shows "\<exists>r. run_state (stat_all d ns) w = (r, w) \<and>
     (r = Inr True \<longleftrightarrow> list_all (\<lambda>n. case stat_of (tree w) (Join [d, n]) of Inl _ \<Rightarrow> False | Inr _ \<Rightarrow> True) ns)"
  using assms by (induction ns) (auto split: sum.split)

lemma IsBareRepo_nil:
  assumes "faults w = []"
  shows "\<exists>r. run_state (IsBareRepo d) w = (r, w) \<and> (r = Inr True \<longleftrightarrow> bare_layout (tree w) d)"
  using stat_all_nil [OF assms, of d bare_names] by (simp add: IsBareRepo_def bare_layout_def)

definition live_entry :: "names \<Rightarrow> string \<Rightarrow> string \<times> bool \<Rightarrow> bool" where
  "live_entry t root x \<longleftrightarrow> snd x \<and> HasSuffix (fst x) ''.git'' \<and> ValidName (Normalize (fst x))
     \<and> bare_layout t (Join [root, fst x])"

lemma bare_loop_nil:
  assumes "faults w = []"
  shows "run_state (bare_loop root es ns) w = (Inr ns', w') \<Longrightarrow>
    w' = w \<and> ns' = ns @ map (Normalize \<circ> fst) (filter (live_entry (tree w) root) es)"
proof (induction es arbitrary: ns)
  case (Cons x es)
  obtain e isdir where x: "x = (e, isdir)" by (cases x)
  obtain r where r: "run_state (IsBareRepo (Join [root, e])) w = (r, w)"
    and rt: "r = Inr True \<longleftrightarrow> bare_layout (tree w) (Join [root, e])"
    using IsBareRepo_nil [OF assms] by blast
  from Cons.prems x r rt show ?case
    by (cases r) (auto simp: live_entry_def Let_def split: if_splits dest!: Cons.IH)
qed simp

lemma ListBare_nil:
  assumes "faults w = []" "run_state (ListBare root) w = (Inr ns, w')"
  shows "w' = w \<and> lookup (tree w) root = Some Directory \<and>
    ns = sort (map (Normalize \<circ> fst) (filter (live_entry (tree w) root) (dir_entries (tree w) root)))"
  using assms
  by (auto simp: ListBare_def os_ReadDir_def split: prod.splits sum.splits option.splits node.splits
      dest!: bare_loop_nil [OF assms(1)])

lemma live_entry_name: "live_entry t root x \<Longrightarrow> fst x = Normalize (fst x) @ ''.git''"
  by (simp add: live_entry_def Normalize_ValidName_git)

lemma live_names:
  assumes "clean_root root"
  shows "set (map (Normalize \<circ> fst) (filter (live_entry t root) (dir_entries t root))) =
    {n. ValidName n \<and> lookup t (root @ slash # n @ ''.git'') = Some Directory
        \<and> bare_layout t (root @ slash # n @ ''.git'')}" (is "?L = ?R")
proof (intro equalityI subsetI)
  fix n assume "n \<in> ?L"
  then obtain e b where e: "(e, b) \<in> set (dir_entries t root)" "live_entry t root (e, b)" "n = Normalize e"
    by auto
  then have eq: "e = n @ ''.git''" using live_entry_name by fastforce
  from e have v: "ValidName n" and "b" by (auto simp: live_entry_def)
  from e(1) \<open>b\<close> have "lookup t (root @ slash # e) = Some Directory" by (simp add: dir_entries_mem)
  moreover from e(2) have "bare_layout t (Join [root, e])" by (simp add: live_entry_def)
  ultimately show "n \<in> ?R" using v assms unfolding eq by (simp add: Join_repo)
next
  fix n assume n: "n \<in> ?R"
  let ?e = "n @ ''.git''"
  from n have v: "ValidName n" by simp
  from n have "(root @ slash # ?e, Directory) \<in> set t" using assms
    by (auto simp: lookup_def dest: map_of_SomeD split: if_splits)
  with n v have mem: "(?e, True) \<in> set (dir_entries t root)"
    using git_suffix_name [OF v] by (auto simp: dir_entries_mem)
  have "live_entry t root (?e, True)"
    using n v assms by (simp add: live_entry_def Normalize_git ValidName_nonempty Join_repo)
  with mem have "Normalize ?e \<in> ?L" by force
  with v show "n \<in> ?L" by (simp add: Normalize_git ValidName_nonempty)
qed

lemma distinct_live_names:
  "distinct (map (Normalize \<circ> fst) (filter (live_entry t root) (dir_entries t root)))"
proof -
  have d: "distinct (map fst (filter (live_entry t root) (dir_entries t root)))"
    using distinct_dir_entries by (rule distinct_map_filter)
  have "inj_on (Normalize \<circ> fst) (set (filter (live_entry t root) (dir_entries t root)))"
  proof (rule inj_onI)
    fix x y
    assume x: "x \<in> set (filter (live_entry t root) (dir_entries t root))"
      and y: "y \<in> set (filter (live_entry t root) (dir_entries t root))"
      and eq: "(Normalize \<circ> fst) x = (Normalize \<circ> fst) y"
    then have "live_entry t root x" "live_entry t root y" "Normalize (fst x) = Normalize (fst y)" by auto
    then have "fst x = fst y" "snd x = snd y" by (metis live_entry_name, simp add: live_entry_def)
    then show "x = y" by (rule prod_eqI)
  qed
  with d show ?thesis by (simp add: distinct_map)
qed

text \<open>
  In a fault-free run a successful \<open>ListBare\<close> changes nothing and returns, sorted and without
  duplicates, exactly the allowlisted names whose \<open>root/<name>.git\<close> is a directory with the bare layout.
\<close>

theorem ListBare_spec:
  assumes "clean_root root" "faults w = []" "run_state (ListBare root) w = (Inr ns, w')"
  shows "w' = w \<and> sorted ns \<and> distinct ns \<and>
    set ns = {n. ValidName n \<and> lookup (tree w) (root @ slash # n @ ''.git'') = Some Directory
        \<and> bare_layout (tree w) (root @ slash # n @ ''.git'')}"
  using ListBare_nil [OF assms(2,3)] live_names [OF assms(1), of "tree w"] distinct_live_names [of "tree w" root]
  by simp

text \<open>A root with one bare repository, one stray directory and one invalid name.\<close>

lemma bare_extend:
  assumes "bare_layout t d" "\<And>q. lookup t q \<noteq> None \<Longrightarrow> lookup t' q = lookup t q"
  shows "bare_layout t' d"
proof -
  have "case stat_of t' p of Inl _ \<Rightarrow> False | Inr _ \<Rightarrow> True" if "case stat_of t p of Inl _ \<Rightarrow> False | Inr _ \<Rightarrow> True" for p
    using that resolve_extend [OF _ assms(2), of p] assms(2) by (auto simp: stat_of_def split: sum.splits option.splits)
  with assms(1) show ?thesis by (auto simp: bare_layout_def list_all_iff)
qed

lemma run_RealpathUnder_nil:
  assumes "faults w = []" "is_rooted root" "resolve (tree w) dir = Inr p" "below (Clean root) (Clean p)"
  shows "run_state (RealpathUnder root dir) w = (Inr (Clean p), w)"
  using assms by (auto simp: RealpathUnder_def filepath_Abs_def EvalSymlinks_def below_def Let_def)

lemma run_IsBareRepo_nil:
  assumes "faults w = []" "bare_layout (tree w) d"
  shows "run_state (IsBareRepo d) w = (Inr True, w)"
  using IsBareRepo_nil [OF assms(1), of d] assms(2) by auto

definition sample_repos :: world where
  "sample_repos = \<lparr>tree =
      [(''/srv'', Directory), (''/srv/alpha.git'', Directory), (''/srv/alpha.git/HEAD'', File [] True),
       (''/srv/alpha.git/objects'', Directory), (''/srv/alpha.git/refs'', Directory),
       (''/srv/stray.git'', Directory), (''/srv/_x.git'', Directory)],
     durable = [], faults = [], entropy = [], cwd = ''/'', execs = [], journal = [], written = [], objects = []\<rparr>"

theorem ListBare_spec_witness:
  "clean_root ''/srv'' \<and> faults sample_repos = [] \<and> run_state (ListBare ''/srv'') sample_repos = (Inr [''alpha''], sample_repos)"
proof -
  have c: "clean_root ''/srv''" "faults sample_repos = []" by code_simp+
  have "fst (run_state (ListBare ''/srv'') sample_repos) = Inr [''alpha'']" by code_simp
  note r = run_result [OF this]
  from ListBare_spec [OF c r] r c show ?thesis by simp
qed

lemma realpath_below:
  assumes "is_rooted root" "run_state (RealpathUnder root dir) w = (Inr p, w')"
  shows "below (Clean root) p \<and> ''..'' \<notin> set (split_on slash p) \<and> same_files w w'"
proof -
  have "wp (RealpathUnder root dir) (\<lambda>r w'. same_files w w' \<and>
      (\<forall>p. r = Inr p \<longrightarrow> below (Clean root) p \<and> ''..'' \<notin> set (split_on slash p))) w"
    unfolding RealpathUnder_def filepath_Abs_def using assms(1)
    by (auto simp: wp_simps below_def Let_def intro!: wp_EvalSymlinks split: sum.split
        dest!: resolve_rooted Clean_no_dotdot)
  from wp_run [OF this assms(2)] show ?thesis by auto
qed

text \<open>
  Whatever faults occur, a path accepted by \<open>RealpathUnder\<close> is the root or below it, has no
  \<open>..\<close> element that could lead out again, and no file was touched.
\<close>

theorem RealpathUnder_confined:
  assumes "is_rooted root" "run_state (RealpathUnder root dir) w = (Inr p, w')"
  shows "below (Clean root) p \<and> ''..'' \<notin> set (split_on slash p) \<and> tree w' = tree w \<and> durable w' = durable w"
  using realpath_below [OF assms] by (auto dest: same_files_fields)

theorem RealpathUnder_confined_witness:
  "is_rooted ''/srv'' \<and> fst (run_state (RealpathUnder ''/srv'' ''/srv/alpha.git/refs'') sample_repos) = Inr ''/srv/alpha.git/refs''
   \<and> below (Clean ''/srv'') ''/srv/alpha.git/refs''"
proof -
  let ?r = "run_state (RealpathUnder ''/srv'' ''/srv/alpha.git/refs'') sample_repos"
  have c: "is_rooted ''/srv''" "fst ?r = Inr ''/srv/alpha.git/refs''" by code_simp+
  from RealpathUnder_confined [OF c(1) run_result [OF c(2)]] c show ?thesis by simp
qed

end
