(* ===== verification/Gitenv.thy ===== *)
theory Gitenv
  imports Go_Fs
begin

text \<open>
  \<open>internal/gitenv/gitenv.go\<close>: the pinned environment of every git child process. The git program
  itself is not part of the repository: it is a parameter, a function from the command and the name
  space to a reply and a new name space. Every started command is recorded in \<open>execs\<close>.
\<close>

section \<open>Child processes\<close>

datatype exit = Exited int | NotStarted gerror

record reply =
  out :: bytes
  err_out :: bytes
  exit_status :: exit

type_synonym git_prog = "cmd \<Rightarrow> names \<Rightarrow> reply \<times> names"

definition exec_cmd :: "git_prog \<Rightarrow> cmd \<Rightarrow> reply io" where
  "exec_cmd git c = State (\<lambda>w.
     case git c (tree w) of (r, t) \<Rightarrow>
       (r, w\<lparr>tree := t, execs := c # execs w, journal := (t, durable w) # journal w\<rparr>))"

text \<open>\<open>cmd.Run()\<close>: nil, the exit error, or the error of a failed start.\<close>

definition cmd_error :: "reply \<Rightarrow> gerror option" where
  "cmd_error r = (case exit_status r of
      Exited n \<Rightarrow> if n = 0 then None else Some (ExitError n)
    | NotStarted e \<Rightarrow> Some e)"

section \<open>The runner\<close>

record Runner =
  gitBin :: string
  runner_home :: string
  runner_path :: string
  objectFormat :: string

definition NewRunner :: "string \<Rightarrow> string \<Rightarrow> string \<Rightarrow> string \<Rightarrow> Runner" where
  "NewRunner envPath bin home path =
     \<lparr>gitBin = bin, runner_home = home, runner_path = (if path = [] then envPath else path), objectFormat = []\<rparr>"

definition WithObjectFormat :: "Runner \<Rightarrow> string \<Rightarrow> Runner" where
  "WithObjectFormat r f = (if f = ''sha1'' \<or> f = ''sha256'' then r\<lparr>objectFormat := f\<rparr> else r)"

definition runner_env :: "Runner \<Rightarrow> string list" where
  "runner_env r =
     [''LC_ALL=C'', ''TZ=UTC'', ''GIT_CONFIG_SYSTEM=/etc/gitconfig'', ''GIT_CONFIG_GLOBAL=/dev/null'',
      ''GIT_TERMINAL_PROMPT=0'', ''HOME='' @ runner_home r]
     @ (if objectFormat r \<noteq> [] then [''GIT_DEFAULT_HASH='' @ objectFormat r] else [])
     @ [''PATH='' @ runner_path r]"

definition command :: "Runner \<Rightarrow> string \<Rightarrow> string list \<Rightarrow> cmd" where
  "command r name args = \<lparr>cmd_prog = name, cmd_args = args, cmd_env = runner_env r, cmd_dir = []\<rparr>"

definition Git :: "Runner \<Rightarrow> string list \<Rightarrow> cmd" where
  "Git r args = command r (gitBin r) args"

definition Command :: "Runner \<Rightarrow> string \<Rightarrow> string list \<Rightarrow> cmd" where
  "Command r name args = command r name args"

definition runner_run :: "git_prog \<Rightarrow> Runner \<Rightarrow> string \<Rightarrow> string \<Rightarrow> string list \<Rightarrow> bytes result io" where
  "runner_run git r name dir args = do {
     rep \<leftarrow> exec_cmd git ((command r name args)\<lparr>cmd_dir := dir\<rparr>);
     return (case cmd_error rep of
        None \<Rightarrow> Ok (out rep)
      | Some e \<Rightarrow>
          (let msg = TrimSpace (err_out rep) in
           Fail (Errf ''%s %s: %s'' [name, join_with '' '' args, if msg = [] then err_text e else msg])))
   }"

definition Run :: "git_prog \<Rightarrow> Runner \<Rightarrow> string list \<Rightarrow> bytes result io" where
  "Run git r args = runner_run git r (gitBin r) [] args"

definition RunIn :: "git_prog \<Rightarrow> Runner \<Rightarrow> string \<Rightarrow> string list \<Rightarrow> bytes result io" where
  "RunIn git r dir args = runner_run git r (gitBin r) dir args"

section \<open>Facts\<close>

lemma wp_exec_cmd [wp_simps]:
  "wp (exec_cmd git c) Q w =
     (case git c (tree w) of (r, t) \<Rightarrow>
        Q r (w\<lparr>tree := t, execs := c # execs w, journal := (t, durable w) # journal w\<rparr>))"
  by (simp add: wp_def exec_cmd_def split: prod.split)

lemma run_exec_cmd [simp]:
  "run_state (exec_cmd git c) w =
     (case git c (tree w) of (r, t) \<Rightarrow>
       (r, w\<lparr>tree := t, execs := c # execs w, journal := (t, durable w) # journal w\<rparr>))"
  by (simp add: exec_cmd_def)

lemma keeps_exec [frame]: "keeps objects (exec_cmd git c)" "keeps objects (runner_run git r name dir args)"
  "keeps objects (Run git r args)" "keeps objects (RunIn git r dir args)"
proof -
  show e: "keeps objects (exec_cmd git c)" for c by (simp add: keeps_def split: prod.split)
  show r: "keeps objects (runner_run git r name dir args)" for name dir
    unfolding runner_run_def by (intro frame e)
  show "keeps objects (Run git r args)" "keeps objects (RunIn git r dir args)"
    unfolding Run_def RunIn_def by (rule r)+
qed

lemma quiet_exec [frame]: "quiet (exec_cmd git c)" "quiet (runner_run git r name dir args)"
  "quiet (Run git r args)" "quiet (RunIn git r dir args)"
proof -
  show e: "quiet (exec_cmd git c)" for c by (simp add: quiet_def split: prod.split)
  show r: "quiet (runner_run git r name dir args)" for name dir
    unfolding runner_run_def by (intro frame e)
  show "quiet (Run git r args)" "quiet (RunIn git r dir args)"
    unfolding Run_def RunIn_def by (rule r)+
qed

lemma starts_only_exec [frame]: "P c \<Longrightarrow> starts_only P (exec_cmd git c)"
  by (simp add: starts_only_def split: prod.split)

lemma starts_only_RunIn:
  "P ((Git r args)\<lparr>cmd_dir := dir\<rparr>) \<Longrightarrow> starts_only P (RunIn git r dir args)"
  unfolding RunIn_def runner_run_def by (intro frame) (simp add: Git_def)

lemma wp_Run_quiet:
  assumes "faults w = []" "\<And>r w'. faults w' = [] \<Longrightarrow> execs w' = Git R args # execs w \<Longrightarrow> Q r w'"
  shows "wp (Run git R args) Q w"
  unfolding Run_def runner_run_def wp_bind wp_exec_cmd
  using assms(1) by (auto simp: Git_def command_def split: prod.split intro!: assms(2))

text \<open>The value a child process sees for a variable: the last binding of the list wins (\<open>execve\<close>
  with Go's \<open>dedupEnv\<close>).\<close>

definition env_binding :: "string \<Rightarrow> string \<Rightarrow> string option" where
  "env_binding key kv = CutPrefix kv (key @ ''='')"

definition child_env :: "string list \<Rightarrow> string \<Rightarrow> string option" where
  "child_env env key = (case List.map_filter (env_binding key) (rev env) of [] \<Rightarrow> None | v # vs \<Rightarrow> Some v)"

text \<open>
  The environment of every git child process: locale, time zone, system and global configuration
  and the terminal prompt are pinned whatever the runner was built from; \<open>HOME\<close> and \<open>PATH\<close> are the
  runner's; \<open>GIT_DEFAULT_HASH\<close> is set exactly when an object format is configured, and no other
  variable at all reaches git.
\<close>

theorem runner_env_pinned:
  "child_env (runner_env r) ''LC_ALL'' = Some ''C''
   \<and> child_env (runner_env r) ''TZ'' = Some ''UTC''
   \<and> child_env (runner_env r) ''GIT_CONFIG_SYSTEM'' = Some ''/etc/gitconfig''
   \<and> child_env (runner_env r) ''GIT_CONFIG_GLOBAL'' = Some ''/dev/null''
   \<and> child_env (runner_env r) ''GIT_TERMINAL_PROMPT'' = Some ''0''
   \<and> child_env (runner_env r) ''HOME'' = Some (runner_home r)
   \<and> child_env (runner_env r) ''PATH'' = Some (runner_path r)
   \<and> child_env (runner_env r) ''GIT_DEFAULT_HASH'' = (if objectFormat r = [] then None else Some (objectFormat r))
   \<and> set (map (takeWhile (\<lambda>c. c \<noteq> CHR ''='')) (runner_env r)) \<subseteq>
       {''LC_ALL'', ''TZ'', ''GIT_CONFIG_SYSTEM'', ''GIT_CONFIG_GLOBAL'', ''GIT_TERMINAL_PROMPT'', ''HOME'',
        ''GIT_DEFAULT_HASH'', ''PATH''}"
  by (simp add: runner_env_def child_env_def env_binding_def CutPrefix_def List.map_filter_simps HasPrefix_def)

end
