(* ===== verification/Go_Time.thy ===== *)
theory Go_Time
  imports Go_Strings "HOL-Library.Monad_Syntax"
begin

text \<open>
  Go's \<open>time\<close> package, as far as gitd uses it: instants in nanoseconds with a zone offset, the
  proleptic Gregorian calendar, \<open>Format\<close> and \<open>Parse\<close> for RFC 3339 (with the leniencies of Go's parser),
  the nanosecond layout of the bundle keys, and the saturating \<open>Sub\<close>.
\<close>

section \<open>Instants\<close>

text \<open>Nanoseconds since 0000-01-01T00:00:00Z, and the zone offset in seconds east of UTC.\<close>

record time =
  t_ns :: int
  t_off :: int

type_synonym duration = int

abbreviation nsec :: int where "nsec \<equiv> 1000000000"

definition max_duration :: duration where "max_duration = 2 ^ 63 - 1"
definition min_duration :: duration where "min_duration = - (2 ^ 63)"

definition time_Add :: "time \<Rightarrow> duration \<Rightarrow> time" where
  "time_Add t d = t\<lparr>t_ns := t_ns t + d\<rparr>"

definition time_Sub :: "time \<Rightarrow> time \<Rightarrow> duration" where
  "time_Sub t u = max min_duration (min max_duration (t_ns t - t_ns u))"

definition time_After :: "time \<Rightarrow> time \<Rightarrow> bool" where
  "time_After t u \<longleftrightarrow> t_ns u < t_ns t"

definition time_UTC :: "time \<Rightarrow> time" where
  "time_UTC t = t\<lparr>t_off := 0\<rparr>"

section \<open>The calendar\<close>

definition leap :: "int \<Rightarrow> bool" where
  "leap y \<longleftrightarrow> y mod 4 = 0 \<and> (y mod 100 \<noteq> 0 \<or> y mod 400 = 0)"

text \<open>Days from 0000-01-01 to the first day of a year, and of a month in its year.\<close>

definition days_before_year :: "int \<Rightarrow> int" where
  "days_before_year y = 365 * y + (y + 3) div 4 - (y + 99) div 100 + (y + 399) div 400"

definition month_lengths :: "bool \<Rightarrow> int list" where
  "month_lengths lp = [31, if lp then 29 else 28, 31, 30, 31, 30, 31, 31, 30, 31, 30, 31]"

definition days_in :: "int \<Rightarrow> int \<Rightarrow> int" where
  "days_in y m = month_lengths (leap y) ! nat (m - 1)"

definition days_of_date :: "int \<Rightarrow> int \<Rightarrow> int \<Rightarrow> int" where
  "days_of_date y m d = days_before_year y + sum_list (take (nat (m - 1)) (month_lengths (leap y))) + (d - 1)"

text \<open>The year of a day: within its 400-year cycle, at most one year after \<open>day div 366\<close>.\<close>

definition year_in_cycle :: "int \<Rightarrow> int" where
  "year_in_cycle d =
     (case List.find (\<lambda>y. d < days_before_year (y + 1)) (map int [nat (d div 366)..<400]) of
        None \<Rightarrow> 399 | Some y \<Rightarrow> y)"

definition year_of_day :: "int \<Rightarrow> int" where
  "year_of_day n = 400 * (n div 146097) + year_in_cycle (n mod 146097)"

fun split_months :: "int list \<Rightarrow> int \<Rightarrow> int \<Rightarrow> int \<times> int" where
  "split_months [] m d = (m, d + 1)"
| "split_months (l # ls) m d = (if d < l then (m, d + 1) else split_months ls (m + 1) (d - l))"

definition date_of_day :: "int \<Rightarrow> int \<times> int \<times> int" where
  "date_of_day n =
     (let y = year_of_day n in (y, split_months (month_lengths (leap y)) 1 (n - days_before_year y)))"

section \<open>Printing\<close>

definition local_secs :: "time \<Rightarrow> int" where
  "local_secs t = t_ns t div nsec + t_off t"

definition year_text :: "int \<Rightarrow> string" where
  "year_text y =
     (let n = nat \<bar>y\<bar>; ds = (if n < 10000 then pad_dec 4 n else show_nat n) in if y < 0 then CHR ''-'' # ds else ds)"

definition clock_text :: "int \<Rightarrow> string" where
  "clock_text s = pad_dec 2 (nat (s div 3600)) @ CHR '':'' # pad_dec 2 (nat (s div 60 mod 60)) @ CHR '':'' # pad_dec 2 (nat (s mod 60))"

definition date_text :: "int \<Rightarrow> string" where
  "date_text n = (case date_of_day n of (y, m, d) \<Rightarrow>
     year_text y @ CHR ''-'' # pad_dec 2 (nat m) @ CHR ''-'' # pad_dec 2 (nat d))"

text \<open>The offset \<open>Z07:00\<close>: \<open>Z\<close> for UTC, else sign, hours and minutes (seconds are dropped).\<close>

definition zone_text :: "int \<Rightarrow> string" where
  "zone_text off =
     (if off = 0 then ''Z''
      else let z = \<bar>off\<bar> div 60 in
        (if off < 0 \<and> z \<noteq> 0 then CHR ''-'' else CHR ''+'')
        # pad_dec 2 (nat (z div 60)) @ CHR '':'' # pad_dec 2 (nat (z mod 60)))"

definition format_RFC3339 :: "time \<Rightarrow> string" where
  "format_RFC3339 t = (let s = local_secs t in
     date_text (s div 86400) @ CHR ''T'' # clock_text (s mod 86400) @ zone_text (t_off t))"

text \<open>The layout \<open>2006-01-02T15:04:05.000000000Z07:00\<close>.\<close>

definition format_nanos :: "time \<Rightarrow> string" where
  "format_nanos t = (let s = local_secs t in
     date_text (s div 86400) @ CHR ''T'' # clock_text (s mod 86400)
     @ CHR ''.'' # pad_dec 9 (nat (t_ns t mod nsec)) @ zone_text (t_off t))"

section \<open>Parsing\<close>

text \<open>\<open>getnum\<close>: two digits, or one when the field is not fixed.\<close>

definition getnum :: "bool \<Rightarrow> string \<Rightarrow> (int \<times> string) option" where
  "getnum fixed s =
     (case s of
        a # t \<Rightarrow>
          if \<not> is_digit a then None
          else if t \<noteq> [] \<and> is_digit (hd t) then Some (int (dec_value [a, hd t]), tl t)
          else if fixed then None else Some (int (dec_value [a]), t)
      | [] \<Rightarrow> None)"

definition getnum_in :: "bool \<Rightarrow> int \<Rightarrow> int \<Rightarrow> string \<Rightarrow> (int \<times> string) option" where
  "getnum_in fixed lo hi s =
     (case getnum fixed s of Some (n, r) \<Rightarrow> if lo \<le> n \<and> n \<le> hi then Some (n, r) else None | None \<Rightarrow> None)"

definition expect :: "char \<Rightarrow> string \<Rightarrow> string option" where
  "expect c s = (case s of a # t \<Rightarrow> if a = c then Some t else None | [] \<Rightarrow> None)"

definition getyear :: "string \<Rightarrow> (int \<times> string) option" where
  "getyear s = (if 4 \<le> length s \<and> list_all is_digit (take 4 s) then Some (int (dec_value (take 4 s)), drop 4 s) else None)"

text \<open>A fraction of a second that the layout does not mention: at most nine digits count.\<close>

definition getfrac :: "string \<Rightarrow> int \<times> string" where
  "getfrac s =
     (case s of
        c # t \<Rightarrow>
          if (c = CHR ''.'' \<or> c = CHR '','') \<and> t \<noteq> [] \<and> is_digit (hd t)
          then (let ds = takeWhile is_digit t; k = take 9 ds
                in (int (dec_value k) * 10 ^ (9 - length k), dropWhile is_digit t))
          else (0, s)
      | [] \<Rightarrow> (0, []))"

definition getzone :: "string \<Rightarrow> (int \<times> string) option" where
  "getzone s =
     (if s \<noteq> [] \<and> hd s = CHR ''Z'' then Some (0, tl s)
      else if length s < 6 \<or> s ! 3 \<noteq> CHR '':'' then None
      else (case (getnum_in True 0 24 (take 2 (drop 1 s)), getnum_in True 0 60 (take 2 (drop 4 s))) of
              (Some (h, _), Some (m, _)) \<Rightarrow>
                if hd s = CHR ''+'' then Some (60 * (60 * h + m), drop 6 s)
                else if hd s = CHR ''-'' then Some (- (60 * (60 * h + m)), drop 6 s)
                else None
            | _ \<Rightarrow> None))"

definition parse_RFC3339 :: "string \<Rightarrow> time option" where
  "parse_RFC3339 s0 = do {
     (y, s) \<leftarrow> getyear s0;
     s \<leftarrow> expect (CHR ''-'') s;
     (m, s) \<leftarrow> getnum_in True 1 12 s;
     s \<leftarrow> expect (CHR ''-'') s;
     (d, s) \<leftarrow> getnum True s;
     s \<leftarrow> expect (CHR ''T'') s;
     (h, s) \<leftarrow> getnum_in False 0 23 s;
     s \<leftarrow> expect (CHR '':'') s;
     (mi, s) \<leftarrow> getnum_in True 0 59 s;
     s \<leftarrow> expect (CHR '':'') s;
     (sec, s) \<leftarrow> getnum_in True 0 59 s;
     let (ns, s) = getfrac s;
     (off, s) \<leftarrow> getzone s;
     if s \<noteq> [] then None
     else if d < 1 \<or> days_in y m < d then None
     else Some \<lparr>t_ns = (86400 * days_of_date y m d + 3600 * h + 60 * mi + sec - off) * nsec + ns, t_off = off\<rparr>
   }"

section \<open>Facts: the calendar\<close>

lemma div_step:
  fixes y k :: int
  assumes k: "0 < k" and k': "k' = k - 1" "k'' = k"
  shows "(y + k'') div k = (y + k') div k + of_bool (y mod k = 0)"
proof -
  have y: "y = k * (y div k) + y mod k" by simp
  have b: "0 \<le> y mod k" "y mod k < k" using k by simp_all
  have "(y + (k - 1)) div k = y div k + (y mod k + (k - 1)) div k"
    by (subst y) (simp only: add.assoc div_mult_self4 [OF less_imp_neq [OF k, symmetric]])
  also have "(y mod k + (k - 1)) div k = (if y mod k = 0 then 0 else 1)"
  proof (cases "y mod k = 0")
    case True
    then show ?thesis using k by (simp add: div_pos_pos_trivial)
  next
    case False
    have "y mod k + (k - 1) = (y mod k - 1) + 1 * k" by simp
    also have "\<dots> div k = 1 + (y mod k - 1) div k" by (rule div_mult_self1) (use k in simp)
    finally show ?thesis using False b by (simp add: div_pos_pos_trivial)
  qed
  finally show ?thesis using k div_add_self2 [of k y] unfolding k' by simp
qed

lemma days_before_year_Suc: "days_before_year (y + 1) = days_before_year y + (if leap y then 366 else 365)"
proof -
  define p q r A B C where "p = (y mod 4 = 0)" and "q = (y mod 100 = 0)" and "r = (y mod 400 = 0)"
    and "A = (y + 3) div 4" and "B = (y + 99) div 100" and "C = (y + 399) div 400"
  have "r \<Longrightarrow> q" "q \<Longrightarrow> p"
    by (auto simp: p_def q_def r_def mod_eq_0_iff_dvd elim: dvd_trans [rotated])
  moreover have "(y + 1 + 3) div 4 = A + of_bool p" "(y + 1 + 99) div 100 = B + of_bool q"
    "(y + 1 + 399) div 400 = C + of_bool r"
    unfolding A_def B_def C_def p_def q_def r_def add.assoc
    by (rule div_step; simp)+
  ultimately show ?thesis
    unfolding days_before_year_def leap_def p_def [symmetric] q_def [symmetric] r_def [symmetric]
      A_def [symmetric] B_def [symmetric] C_def [symmetric]
    by (cases p; cases q; cases r) simp_all
qed

lemma days_before_year_cycle: "days_before_year (400 * e + y) = 146097 * e + days_before_year y"
proof -
  have "(400 * e + y + 3) div 4 = 100 * e + (y + 3) div 4"
    using div_mult_self1 [of 4 "y + 3" "100 * e"] by (simp add: algebra_simps)
  moreover have "(400 * e + y + 99) div 100 = 4 * e + (y + 99) div 100"
    using div_mult_self1 [of 100 "y + 99" "4 * e"] by (simp add: algebra_simps)
  moreover have "(400 * e + y + 399) div 400 = e + (y + 399) div 400"
    using div_mult_self1 [of 400 "y + 399" e] by (simp add: algebra_simps)
  ultimately show ?thesis by (simp add: days_before_year_def)
qed

lemma days_before_year_0 [simp]: "days_before_year 0 = 0"
  by (simp add: days_before_year_def)

lemma days_before_year_bound: "days_before_year (int n) \<le> 366 * int n"
  by (induction n) (auto simp: days_before_year_Suc [of "int _", simplified add.commute])

lemma days_before_year_mono: "y \<le> z \<Longrightarrow> days_before_year y \<le> days_before_year z"
proof (induction z rule: int_ge_induct)
  case (step i)
  then show ?case using days_before_year_Suc [of i] by (simp split: if_splits)
qed simp

lemma year_in_cycle:
  assumes "0 \<le> d" "d < 146097"
  shows "days_before_year (year_in_cycle d) \<le> d \<and> d < days_before_year (year_in_cycle d + 1)"
proof -
  let ?P = "\<lambda>y. d < days_before_year (y + 1)"
  let ?ys = "map int [nat (d div 366)..<400]"
  have "d div 366 < 400" using assms by simp
  then have "399 \<in> set ?ys" by (auto simp: image_iff intro!: bexI [of _ 399])
  moreover have "?P 399" using assms days_before_year_cycle [of 1 0] by simp
  ultimately have "List.find ?P ?ys \<noteq> None" unfolding find_None_iff by blast
  then obtain y where f: "List.find ?P ?ys = Some y" by blast
  then obtain i where i: "i < length ?ys" "y = ?ys ! i" "?P y" "\<forall>k<i. \<not> ?P (?ys ! k)"
    by (auto simp: find_Some_iff)
  have "days_before_year y \<le> d"
  proof (cases i)
    case 0
    with i have "y = d div 366" using assms by simp
    then have "days_before_year y \<le> 366 * (d div 366)" using days_before_year_bound [of "nat (d div 366)"] assms
      by (simp add: pos_imp_zdiv_nonneg_iff)
    also have "\<dots> \<le> d" using minus_mod_eq_mult_div [of d 366, symmetric] pos_mod_sign [of 366 d] by simp
    finally show ?thesis .
  next
    case (Suc k)
    with i have "\<not> ?P (?ys ! k)" by simp
    moreover have "?ys ! k + 1 = y" using i Suc by simp
    ultimately show ?thesis by simp
  qed
  with i(3) show ?thesis unfolding year_in_cycle_def f option.case by blast
qed

lemma year_of_day: "days_before_year (year_of_day n) \<le> n \<and> n < days_before_year (year_of_day n + 1)"
proof -
  let ?e = "n div 146097" and ?d = "n mod 146097"
  have "days_before_year (year_in_cycle ?d) \<le> ?d \<and> ?d < days_before_year (year_in_cycle ?d + 1)"
    by (rule year_in_cycle) simp_all
  then show ?thesis
    unfolding year_of_day_def add.assoc days_before_year_cycle
    using mult_div_mod_eq [of 146097 n] by linarith
qed


lemma split_months:
  assumes "0 \<le> d" "d < sum_list ls" "split_months ls m d = (m', d')" "0 \<le> m" "\<forall>l \<in> set ls. 0 \<le> l"
  shows "m \<le> m' \<and> m' < m + int (length ls) \<and> 1 \<le> d' \<and> d' \<le> ls ! nat (m' - m)
    \<and> sum_list (take (nat (m' - m)) ls) + (d' - 1) = d"
  using assms
proof (induction ls arbitrary: m d)
  case (Cons l ls)
  show ?case
  proof (cases "d < l")
    case True
    with Cons.prems show ?thesis by auto
  next
    case False
    with Cons.prems Cons.IH [of "d - l" "m + 1"] have ih:
      "m + 1 \<le> m'" "m' < m + 1 + int (length ls)" "1 \<le> d'" "d' \<le> ls ! nat (m' - (m + 1))"
      "sum_list (take (nat (m' - (m + 1))) ls) + (d' - 1) = d - l"
      by auto
    obtain k where k: "nat (m' - m) = Suc k" "nat (m' - (m + 1)) = k"
      using ih(1) by (metis Suc_nat_eq_nat_zadd1 add.commute add_diff_cancel_left diff_add_cancel diff_ge_0_iff_ge diff_diff_eq)
    show ?thesis using ih unfolding k by simp
  qed
qed simp

lemma length_month_lengths [simp]: "length (month_lengths b) = 12"
  by (simp add: month_lengths_def)

lemma date_of_day:
  assumes "date_of_day n = (y, m, d)"
  shows "y = year_of_day n" "1 \<le> m" "m \<le> 12" "1 \<le> d" "d \<le> days_in y m" "days_of_date y m d = n"
proof -
  from assms have y: "y = year_of_day n" and s: "split_months (month_lengths (leap y)) 1 (n - days_before_year y) = (m, d)"
    by (auto simp: date_of_day_def Let_def)
  have l: "\<forall>x \<in> set (month_lengths (leap y)). 0 \<le> x" by (simp add: month_lengths_def)
  have "sum_list (month_lengths (leap y)) = (if leap y then 366 else 365)" by (simp add: month_lengths_def)
  with year_of_day [of n] days_before_year_Suc [of y] have
    "0 \<le> n - days_before_year y" "n - days_before_year y < sum_list (month_lengths (leap y))"
    unfolding y by simp_all
  from split_months [OF this s _ l] show "1 \<le> m" "m \<le> 12" "1 \<le> d" "d \<le> days_in y m" "days_of_date y m d = n"
    by (simp_all add: days_in_def days_of_date_def)
  show "y = year_of_day n" by (rule y)
qed

lemma days_in_le: "1 \<le> m \<Longrightarrow> m \<le> 12 \<Longrightarrow> 28 \<le> days_in y m \<and> days_in y m \<le> 31"
proof -
  assume "1 \<le> m" "m \<le> 12"
  then have "nat (m - 1) < 12" by simp
  then show ?thesis
    unfolding days_in_def month_lengths_def by (auto simp: less_Suc_eq numeral_eq_Suc)
qed

lemma year_of_day_mono: "n \<le> n' \<Longrightarrow> year_of_day n \<le> year_of_day n'"
proof (rule ccontr)
  assume "n \<le> n'" "\<not> year_of_day n \<le> year_of_day n'"
  then have "days_before_year (year_of_day n' + 1) \<le> days_before_year (year_of_day n)"
    by (intro days_before_year_mono) simp
  with year_of_day [of n] year_of_day [of n'] \<open>n \<le> n'\<close> show False by linarith
qed

lemma take_sum_le:
  assumes "\<forall>l \<in> set ls. (0 :: int) \<le> l" "i < j" "j \<le> length ls"
  shows "sum_list (take i ls) + ls ! i \<le> sum_list (take j ls)"
proof -
  from assms have "take j ls = take i ls @ ls ! i # take (j - Suc i) (drop (Suc i) ls)"
    by (metis Suc_leI add_diff_inverse_nat append_take_drop_id id_take_nth_drop less_le_trans linorder_not_less take_Suc_conv_app_nth take_add append.assoc append_Cons append_Nil)
  moreover have "0 \<le> sum_list (take (j - Suc i) (drop (Suc i) ls))"
    using assms(1) by (intro sum_list_nonneg) (auto dest!: in_set_takeD in_set_dropD)
  ultimately show ?thesis by simp
qed

text \<open>Dates are ordered as their days.\<close>

lemma date_less:
  assumes "date_of_day n = (y, m, d)" "date_of_day n' = (y', m', d')" "n < n'"
  shows "y < y' \<or> (y = y' \<and> (m < m' \<or> (m = m' \<and> d < d')))"
proof -
  note a = date_of_day [OF assms(1)] and b = date_of_day [OF assms(2)]
  have "y \<le> y'" using year_of_day_mono [of n n'] assms(3) a(1) b(1) by simp
  moreover have "m < m' \<or> (m = m' \<and> d < d')" if "y = y'"
  proof (rule ccontr)
    assume c: "\<not> (m < m' \<or> (m = m' \<and> d < d'))"
    let ?ls = "month_lengths (leap y)"
    have "sum_list (take (nat (m' - 1)) ?ls) + days_in y m' \<le> sum_list (take (nat (m - 1)) ?ls)" if "m' < m"
      unfolding days_in_def using that a b by (intro take_sum_le) (auto simp: month_lengths_def)
    with c a b that assms(3) show False by (cases "m' < m") (auto simp: days_of_date_def)
  qed
  ultimately show ?thesis by auto
qed

section \<open>Facts: order of the printed times\<close>

lemma length_year_text: "0 \<le> y \<Longrightarrow> y \<le> 9999 \<Longrightarrow> length (year_text y) = 4"
  by (simp add: year_text_def Let_def nat_less_iff)

lemma pad2_less: "0 \<le> a \<Longrightarrow> a < b \<Longrightarrow> b < 100 \<Longrightarrow> pad_dec 2 (nat a) < pad_dec 2 (nat b)" for a b :: int
  by (rule pad_dec_less) auto

lemma field_less:
  fixes a b :: int and x y :: string
  assumes "a < b \<or> (a = b \<and> x < y)" "0 \<le> a" "0 \<le> b" "b < 100"
  shows "pad_dec 2 (nat a) @ c # x < pad_dec 2 (nat b) @ c # y"
  using assms pad2_less [of a b] by (auto intro: less_append_same_length)

lemma date_text_less:
  assumes "n < n'" "0 \<le> year_of_day n" "year_of_day n' \<le> 9999"
  shows "date_text n < date_text n' \<and> length (date_text n) = 10 \<and> length (date_text n') = 10"
proof -
  obtain y m d y' m' d' where a: "date_of_day n = (y, m, d)" and b: "date_of_day n' = (y', m', d')"
    by (metis prod_cases3)
  note A = date_of_day [OF a] and B = date_of_day [OF b]
  have D: "d \<le> 31" "d' \<le> 31" using A B days_in_le [of m y] days_in_le [of m' y'] by auto
  have Y: "0 \<le> y" "y \<le> y'" "y' \<le> 9999" using assms year_of_day_mono [of n n'] A(1) B(1) by auto
  let ?r = "pad_dec 2 (nat m) @ CHR ''-'' # pad_dec 2 (nat d)" and ?r' = "pad_dec 2 (nat m') @ CHR ''-'' # pad_dec 2 (nat d')"
  have r: "?r < ?r'" if "m < m' \<or> (m = m' \<and> d < d')"
    by (rule field_less) (use that A B D pad2_less [of d d'] in auto)
  have ty: "year_text y < year_text y'" if "y < y'"
    using that Y pad_dec_less [of "nat y" "nat y'" 4] by (simp add: year_text_def Let_def nat_less_iff)
  have "year_text y @ CHR ''-'' # ?r < year_text y' @ CHR ''-'' # ?r'"
    using date_less [OF a b assms(1)] r ty Y
    by (auto intro: less_append_same_length simp: length_year_text)
  then show ?thesis using a b Y by (simp add: date_text_def length_year_text)
qed

lemma length_clock_text [simp]: "length (clock_text s) = 8"
  by (simp add: clock_text_def)

lemma clock_text_less:
  assumes "0 \<le> s" "s < s'" "s' < 86400"
  shows "clock_text s < clock_text s'"
proof -
  have lt: "s div 3600 < 24" "s' div 3600 < 24" using assms by simp_all
  have c: "s div 3600 < s' div 3600 \<or> (s div 3600 = s' div 3600 \<and>
     (s div 60 mod 60 < s' div 60 mod 60 \<or> (s div 60 mod 60 = s' div 60 mod 60 \<and> s mod 60 < s' mod 60)))"
  proof -
    define h m h' m' where "h = s div 3600" and "m = s div 60" and "h' = s' div 3600" and "m' = s' div 60"
    have "s = 60 * m + s mod 60" "s' = 60 * m' + s' mod 60" by (simp_all add: m_def m'_def)
    moreover have "m div 60 = h" "m' div 60 = h'" by (simp_all add: m_def m'_def h_def h'_def div_mult2_eq [symmetric])
    then have "m = 60 * h + m mod 60" "m' = 60 * h' + m' mod 60" by auto
    moreover have "h \<le> h'" "m \<le> m'" using assms by (simp_all add: h_def h'_def m_def m'_def zdiv_mono1)
    ultimately show ?thesis unfolding h_def [symmetric] h'_def [symmetric] m_def [symmetric] m'_def [symmetric]
      using assms by linarith
  qed
  have "pad_dec 2 (nat (s mod 60)) < pad_dec 2 (nat (s' mod 60))" if "s mod 60 < s' mod 60"
    using that by (intro pad2_less) (simp_all add: pos_mod_bound order.strict_trans [OF pos_mod_bound [of 60]])
  then have "pad_dec 2 (nat (s div 60 mod 60)) @ CHR '':'' # pad_dec 2 (nat (s mod 60))
      < pad_dec 2 (nat (s' div 60 mod 60)) @ CHR '':'' # pad_dec 2 (nat (s' mod 60))"
    if "s div 60 mod 60 < s' div 60 mod 60 \<or> (s div 60 mod 60 = s' div 60 mod 60 \<and> s mod 60 < s' mod 60)"
    using that by (intro field_less) (auto simp: order.strict_trans [OF pos_mod_bound [of 60]])
  with c lt assms show ?thesis unfolding clock_text_def
    by (intro field_less) (auto simp: pos_imp_zdiv_nonneg_iff)
qed

text \<open>The year of an instant in UTC, for the range in which the printed year has four digits.\<close>

definition utc_year :: "time \<Rightarrow> int" where
  "utc_year t = year_of_day (t_ns t div nsec div 86400)"

lemma format_nanos_less:
  assumes "t_off t = 0" "t_off u = 0" "t_ns t < t_ns u" "0 \<le> utc_year t" "utc_year u \<le> 9999"
  shows "format_nanos t < format_nanos u \<and> length (format_nanos t) = length (format_nanos u)"
proof -
  define s s' where "s = t_ns t div nsec" and "s' = t_ns u div nsec"
  define n n' where "n = s div 86400" and "n' = s' div 86400"
  have le: "s \<le> s'" "n \<le> n'" using assms(3) by (simp_all add: s_def s'_def n_def n'_def zdiv_mono1)
  have Y: "0 \<le> year_of_day n" "year_of_day n' \<le> 9999"
    using assms(4,5) by (simp_all add: utc_year_def n_def n'_def s_def s'_def)
  have len: "length (date_text n) = 10 \<and> length (date_text n') = 10"
  proof (cases "n < n'")
    case True
    with date_text_less [OF True Y] show ?thesis by simp
  next
    case False
    with le Y show ?thesis
      by (cases "date_of_day n") (use date_of_day(1) in \<open>force simp: date_text_def length_year_text\<close>)
  qed
  have d: "date_text n < date_text n'" if "n < n'" using date_text_less [OF that Y] by simp
  have c: "clock_text (s mod 86400) < clock_text (s' mod 86400)" if "n = n'" "s < s'"
  proof (rule clock_text_less)
    show "s mod 86400 < s' mod 86400"
      using that mult_div_mod_eq [of 86400 s] mult_div_mod_eq [of 86400 s'] unfolding n_def n'_def by linarith
  qed simp_all
  have f: "pad_dec 9 (nat (t_ns t mod nsec)) < pad_dec 9 (nat (t_ns u mod nsec))" if "s = s'"
  proof (rule pad_dec_less)
    have "t_ns t mod nsec < t_ns u mod nsec"
      using that assms(3) mult_div_mod_eq [of nsec "t_ns t"] mult_div_mod_eq [of nsec "t_ns u"] unfolding s_def s'_def by linarith
    then show "nat (t_ns t mod nsec) < nat (t_ns u mod nsec)" by simp
    have "t_ns u mod nsec < nsec" by simp
    then show "nat (t_ns u mod nsec) < 10 ^ 9" by (simp add: nat_less_iff)
  qed
  have "date_text n @ CHR ''T'' # clock_text (s mod 86400) @ CHR ''.'' # pad_dec 9 (nat (t_ns t mod nsec)) @ ''Z''
      < date_text n' @ CHR ''T'' # clock_text (s' mod 86400) @ CHR ''.'' # pad_dec 9 (nat (t_ns u mod nsec)) @ ''Z''"
    using le len d c f
    by (cases "n < n'"; cases "s < s'") (auto intro!: less_append_same_length simp: n_def n'_def)
  then show ?thesis using len assms(1,2)
    by (simp add: format_nanos_def local_secs_def s_def s'_def n_def n'_def zone_text_def Let_def)
qed

section \<open>Facts: parsing what was printed\<close>

lemma digit_mod [simp]: "is_digit (digit_char (n mod 10))"
  by simp

lemma getnum_pad: "n < 100 \<Longrightarrow> getnum fixed (pad_dec 2 n @ r) = Some (int n, r)"
  using dec_value_pad_dec [of n 2] by (simp add: getnum_def numeral_2_eq_2)

lemma getnum_in_pad:
  "0 \<le> n \<Longrightarrow> n < 100 \<Longrightarrow> lo \<le> n \<Longrightarrow> n \<le> hi \<Longrightarrow> getnum_in fixed lo hi (pad_dec 2 (nat n) @ r) = Some (n, r)"
  by (simp add: getnum_in_def getnum_pad)

lemma getyear_text:
  assumes "0 \<le> y" "y \<le> 9999"
  shows "getyear (year_text y @ r) = Some (y, r)"
proof -
  have t: "year_text y = pad_dec 4 (nat y)" using assms by (simp add: year_text_def Let_def nat_less_iff)
  have "list_all is_digit (pad_dec 4 (nat y))" by (simp add: list_all_iff pad_dec_digits)
  moreover have "dec_value (pad_dec 4 (nat y)) = nat y" using assms by (intro dec_value_pad_dec) simp
  ultimately show ?thesis using assms unfolding getyear_def t by simp
qed

lemma expect_Cons [simp]: "expect c (c # s) = Some s"
  by (simp add: expect_def)

definition zone_ok :: "int \<Rightarrow> bool" where
  "zone_ok off \<longleftrightarrow> off mod 60 = 0 \<and> \<bar>off\<bar> \<le> 86400"

lemma getzone_text:
  assumes "zone_ok off"
  shows "getzone (zone_text off) = Some (off, [])" "getfrac (zone_text off) = (0, zone_text off)"
proof -
  define z H M where "z = \<bar>off\<bar> div 60" and "H = z div 60" and "M = z mod 60"
  have "60 dvd \<bar>off\<bar>" using assms by (simp add: zone_ok_def mod_eq_0_iff_dvd)
  then have sec: "60 * z = \<bar>off\<bar>" unfolding z_def by (rule dvd_mult_div_cancel)
  have hm: "60 * H + M = z" by (simp add: H_def M_def)
  have "H = \<bar>off\<bar> div 3600" by (simp add: H_def z_def flip: zdiv_zmult2_eq)
  also have "\<dots> \<le> 86400 div 3600" using assms by (intro zdiv_mono1) (simp_all add: zone_ok_def)
  finally have b: "H \<le> 24" by simp
  have b': "0 \<le> H" "0 \<le> M" "M < 60" by (simp_all add: H_def M_def z_def pos_imp_zdiv_nonneg_iff)
  have t: "zone_text off = (if off = 0 then ''Z''
      else (if off < 0 \<and> z \<noteq> 0 then CHR ''-'' else CHR ''+'') # pad_dec 2 (nat H) @ CHR '':'' # pad_dec 2 (nat M))"
    by (simp add: zone_text_def Let_def z_def H_def M_def)
  have n: "\<exists>c d. pad_dec 2 k = [c, d]" for k by (simp add: numeral_2_eq_2)
  obtain h1 h2 where h: "pad_dec 2 (nat H) = [h1, h2]" using n by blast
  obtain m1 m2 where m: "pad_dec 2 (nat M) = [m1, m2]" using n by blast
  have gh: "getnum_in True 0 24 [h1, h2] = Some (H, [])"
    using getnum_in_pad [of H 0 24 True "[]"] b b' h by simp
  have gm: "getnum_in True 0 60 [m1, m2] = Some (M, [])"
    using getnum_in_pad [of M 0 60 True "[]"] b' m by simp
  show "getzone (zone_text off) = Some (off, [])"
  proof (cases "off = 0")
    case True
    then show ?thesis by (simp add: getzone_def zone_text_def)
  next
    case False
    have z0: "z \<noteq> 0" using sec False by auto
    let ?sg = "if off < 0 then CHR ''-'' else CHR ''+''"
    have z: "zone_text off = [?sg, h1, h2, CHR '':'', m1, m2]"
      using False z0 h m by (simp add: t)
    have "60 * (60 * H + M) = \<bar>off\<bar>" using sec hm by simp
    then show ?thesis unfolding z getzone_def using gh gm by simp
  qed
  show "getfrac (zone_text off) = (0, zone_text off)"
    by (auto simp: getfrac_def zone_text_def Let_def)
qed

text \<open>Printing and parsing a time gives it back, cut to the second.\<close>

lemma parse_format_RFC3339:
  assumes "zone_ok (t_off t)" "0 \<le> year_of_day (local_secs t div 86400)" "year_of_day (local_secs t div 86400) \<le> 9999"
  shows "parse_RFC3339 (format_RFC3339 t) = Some (t\<lparr>t_ns := t_ns t div nsec * nsec\<rparr>)"
proof -
  let ?s = "local_secs t"
  obtain y m d where a: "date_of_day (?s div 86400) = (y, m, d)" by (metis prod_cases3)
  note A = date_of_day [OF a]
  have Y: "0 \<le> y" "y \<le> 9999" using assms A(1) by auto
  have D: "0 \<le> d" "d < 100" "\<not> d < 1" "\<not> days_in y m < d" using A days_in_le [of m y] by auto
  let ?c = "?s mod 86400"
  have c: "0 \<le> ?c" "?c < 86400" by simp_all
  have h: "0 \<le> ?c div 3600" "?c div 3600 \<le> 23" using c by (simp_all add: pos_imp_zdiv_nonneg_iff) 
  have cl: "3600 * (?c div 3600) + 60 * (?c div 60 mod 60) + ?c mod 60 = ?c"
  proof -
    have "?c div 60 div 60 = ?c div 3600" by (simp add: div_mult2_eq [symmetric])
    then show ?thesis using mult_div_mod_eq [of 60 ?c] mult_div_mod_eq [of 60 "?c div 60"] by linarith
  qed
  have ns: "86400 * (?s div 86400) + ?c - t_off t = t_ns t div nsec"
    using mult_div_mod_eq [of 86400 ?s] by (simp add: local_secs_def)
  have fmt: "format_RFC3339 t = year_text y @ CHR ''-'' # pad_dec 2 (nat m) @ CHR ''-'' # pad_dec 2 (nat d) @ CHR ''T'' #
     pad_dec 2 (nat (?c div 3600)) @ CHR '':'' # pad_dec 2 (nat (?c div 60 mod 60)) @ CHR '':'' # pad_dec 2 (nat (?c mod 60)) @ zone_text (t_off t)"
    by (simp add: format_RFC3339_def date_text_def a clock_text_def Let_def)
  have gm: "getnum_in True 1 12 (pad_dec 2 (nat m) @ r) = Some (m, r)" for r using A by (intro getnum_in_pad) auto
  have gd: "getnum True (pad_dec 2 (nat d) @ r) = Some (d, r)" for r using D getnum_pad [of "nat d"] by simp
  have gh: "getnum_in False 0 23 (pad_dec 2 (nat (?c div 3600)) @ r) = Some (?c div 3600, r)" for r
    using h by (intro getnum_in_pad) auto
  have g60: "getnum_in True 0 59 (pad_dec 2 (nat (x mod 60)) @ r) = Some (x mod 60, r)" for x r
    using pos_mod_bound [of 60 x] pos_mod_sign [of 60 x] by (intro getnum_in_pad) linarith+
  have "parse_RFC3339 (format_RFC3339 t) = Some \<lparr>t_ns = (86400 * days_of_date y m d + 3600 * (?c div 3600)
      + 60 * (?c div 60 mod 60) + ?c mod 60 - t_off t) * nsec + 0, t_off = t_off t\<rparr>"
    unfolding parse_RFC3339_def fmt
    using D by (simp add: getyear_text [OF Y] gm gd gh g60 getzone_text [OF assms(1)])
  also have "(86400 * days_of_date y m d + 3600 * (?c div 3600) + 60 * (?c div 60 mod 60) + ?c mod 60 - t_off t)
      = t_ns t div nsec"
    unfolding A(6) using cl ns by linarith
  finally show ?thesis by simp
qed

section \<open>Facts: the colons of a printed instant\<close>

lemma colon_not_digit: "map (\<lambda>c. c = CHR '':'') (pad_dec w n) = replicate w False"
proof -
  have "\<forall>c \<in> set (pad_dec w n). c \<noteq> CHR '':''" by (auto dest!: pad_dec_digits simp: is_digit_def code_def)
  then show ?thesis by (intro replicate_eqI) auto
qed

lemma colons_date_text:
  assumes "0 \<le> year_of_day n" "year_of_day n \<le> 9999"
  shows "map (\<lambda>c. c = CHR '':'') (date_text n) = replicate 10 False"
proof -
  obtain y m d where d: "date_of_day n = (y, m, d)" using prod_cases3 by blast
  then have "y = year_of_day n" by (simp add: date_of_day_def Let_def)
  with assms have "year_text y = pad_dec 4 (nat y)" by (simp add: year_text_def Let_def nat_less_iff)
  moreover have "replicate 10 False = replicate 4 False @ False # replicate 2 False @ False # replicate 2 False" by code_simp
  ultimately show ?thesis using d by (simp add: date_text_def colon_not_digit)
qed

lemma colons_format_nanos:
  assumes "t_off t = 0" "0 \<le> utc_year t" "utc_year t \<le> 9999"
  shows "map (\<lambda>c. c = CHR '':'') (format_nanos t) =
    replicate 10 False @ False # (replicate 2 False @ True # replicate 2 False @ True # replicate 2 False)
    @ False # replicate 9 False @ [False]"
  using assms colons_date_text [of "t_ns t div nsec div 86400"]
  by (simp add: format_nanos_def local_secs_def Let_def clock_text_def zone_text_def colon_not_digit utc_year_def)

lemma utc_year_mono: "t_ns t \<le> t_ns u \<Longrightarrow> utc_year t \<le> utc_year u"
  unfolding utc_year_def by (intro year_of_day_mono zdiv_mono1) auto

end
