(* ===== verification/Atomic_Write.thy ===== *)
theory Atomic_Write
  imports Go_Fs
begin

text \<open>
  The durable replacement of a file that \<open>internal/spool\<close> (\<open>writeAtomic\<close>) and \<open>internal/mirror\<close>
  (\<open>WriteJobFile\<close>) both perform, statement for statement: a temporary file in the same directory, chmod,
  write, fsync, close, rename over the target, fsync of the directory, with the clean-up of each failure.
  The two differ in the name of the temporary file and in how they report a failed directory sync.
\<close>

section \<open>Operations\<close>

definition fsyncDir :: "string \<Rightarrow> unit result io" where
  "fsyncDir dir = do {
     r \<leftarrow> open_dir dir;
     case r of
       Inl e \<Rightarrow> return (Fail e)
     | Inr _ \<Rightarrow> do {
         rs \<leftarrow> sync_dir dir;
         _ \<leftarrow> file_Close dir;
         return rs }
   }"

text \<open>The \<open>cleanup\<close> closure: both results are ignored.\<close>

definition cleanup :: "string \<Rightarrow> unit io" where
  "cleanup tmp = do { _ \<leftarrow> file_Close tmp; _ \<leftarrow> os_Remove tmp; return () }"

definition remove_quietly :: "string \<Rightarrow> unit io" where
  "remove_quietly p = do { _ \<leftarrow> os_Remove p; return () }"

definition replace_file :: "string \<Rightarrow> string \<Rightarrow> string \<Rightarrow> string \<Rightarrow> bytes \<Rightarrow> (gerror \<Rightarrow> gerror) \<Rightarrow> unit result io" where
  "replace_file dir pre suf path data fsync_err = do {
     rt \<leftarrow> os_CreateTemp dir pre suf;
     case rt of
       Inl e \<Rightarrow> return (Fail (Wrapf ''create temp: %w'' [] e))
     | Inr tmp \<Rightarrow> do {
         r1 \<leftarrow> file_Chmod tmp;
         case r1 of
           Inl e \<Rightarrow> do { _ \<leftarrow> cleanup tmp; return (Fail (Wrapf ''chmod temp: %w'' [] e)) }
         | Inr _ \<Rightarrow> do {
             r2 \<leftarrow> file_Write tmp data;
             case r2 of
               Inl e \<Rightarrow> do { _ \<leftarrow> cleanup tmp; return (Fail (Wrapf ''write temp: %w'' [] e)) }
             | Inr _ \<Rightarrow> do {
                 r3 \<leftarrow> file_Sync tmp;
                 case r3 of
                   Inl e \<Rightarrow> do { _ \<leftarrow> cleanup tmp; return (Fail (Wrapf ''fsync temp: %w'' [] e)) }
                 | Inr _ \<Rightarrow> do {
                     r4 \<leftarrow> file_Close tmp;
                     case r4 of
                       Inl e \<Rightarrow> do { _ \<leftarrow> remove_quietly tmp; return (Fail (Wrapf ''close temp: %w'' [] e)) }
                     | Inr _ \<Rightarrow> do {
                         r5 \<leftarrow> os_Rename tmp path;
                         case r5 of
                           Inl e \<Rightarrow> do { _ \<leftarrow> remove_quietly tmp; return (Fail (Wrapf ''rename: %w'' [] e)) }
                         | Inr _ \<Rightarrow> do {
                             r6 \<leftarrow> fsyncDir dir;
                             return (case r6 of Inl e \<Rightarrow> Fail (fsync_err e) | Inr _ \<Rightarrow> Ok ()) } } } } } }
   }"

section \<open>Facts\<close>

text \<open>
  A pair of name spaces in which a crash leaves the old or the new contents under the target name,
  and the runs all of whose crash points are such pairs.
\<close>

definition crash_sound :: "string \<Rightarrow> node option set \<Rightarrow> node \<Rightarrow> names \<times> names \<Rightarrow> bool" where
  "crash_sound p old new s \<longleftrightarrow>
     lookup (fst s) p \<in> insert (Some new) old \<and> lookup (snd s) p \<in> insert (Some new) old"

definition settled :: "node option \<Rightarrow> bool" where
  "settled n \<longleftrightarrow> (case n of Some (File d s) \<Rightarrow> s | _ \<Rightarrow> True)"

lemma may_read_settled: "settled n \<Longrightarrow> may_read n r \<Longrightarrow> r = n"
  by (auto simp: may_read_def settled_def split: option.splits node.splits bool.splits)

lemma crash_sound_after:
  assumes "crash_sound p old (File d True) s" "\<forall>n \<in> old. settled n" "after_crash s p r"
  shows "r \<in> insert (Some (File d True)) old"
proof -
  have "\<forall>n \<in> insert (Some (File d True)) old. settled n" using assms(2) by (simp add: settled_def)
  with assms(1,3) show ?thesis
    unfolding crash_sound_def after_crash_def by (metis may_read_settled)
qed

definition crash_points :: "(names \<times> names \<Rightarrow> bool) \<Rightarrow> world \<Rightarrow> world \<Rightarrow> bool" where
  "crash_points P w w' \<longleftrightarrow> (\<exists>js. journal w' = js @ journal w \<and> list_all P js)"

text \<open>While the temporary file is being written: it holds \<open>x\<close> and nothing else has changed.\<close>

definition temp_phase :: "string \<Rightarrow> node option set \<Rightarrow> node \<Rightarrow> world \<Rightarrow> string \<Rightarrow> node option \<Rightarrow> world \<Rightarrow> bool" where
  "temp_phase p old new w0 tmp x w \<longleftrightarrow>
     crash_points (crash_sound p old new) w0 w \<and> lookup (tree w0) p \<in> old \<and> lookup (durable w0) p \<in> old
     \<and> tmp \<noteq> p \<and> tmp \<noteq> ''/'' \<and> lookup (tree w0) tmp = None \<and> lookup (tree w) tmp = x
     \<and> (\<forall>q. q \<noteq> tmp \<longrightarrow> lookup (tree w) q = lookup (tree w0) q) \<and> durable w = durable w0"

lemma temp_phase_faults [simp]: "temp_phase p old new w0 tmp x (w\<lparr>faults := fs\<rparr>) = temp_phase p old new w0 tmp x w"
  by (simp add: temp_phase_def crash_points_def)

lemma crash_points_step: "crash_points P w0 w \<Longrightarrow> P s \<Longrightarrow> journal w' = s # journal w \<Longrightarrow> crash_points P w0 w'"
  by (force simp: crash_points_def)

lemma temp_phase_put:
  assumes "temp_phase p old new w0 tmp x w"
    and "\<And>q. lookup t q = (if q = tmp then y else lookup (tree w) q)"
  shows "temp_phase p old new w0 tmp y (w\<lparr>faults := fs, tree := t, journal := (t, durable w) # journal w\<rparr>)"
proof -
  have "crash_sound p old new (t, durable w)"
    using assms by (auto simp: temp_phase_def crash_sound_def)
  then show ?thesis
    using assms unfolding temp_phase_def by (auto elim!: crash_points_step)
qed

lemma wp_temp_Write:
  assumes "temp_phase p old new w0 tmp (Some (File a b)) w"
    and "\<And>w'. temp_phase p old new w0 tmp (Some (File (a @ data) False)) w' \<Longrightarrow> Q (Ok ()) w'"
    and "\<And>e x w'. temp_phase p old new w0 tmp x w' \<Longrightarrow> Q (Fail e) w'"
  shows "wp (file_Write tmp data) Q w"
proof -
  have tmp: "tmp \<noteq> ''/''" and c: "contents (tree w) tmp = a"
    using assms(1) by (auto simp: temp_phase_def contents_def)
  show ?thesis
    unfolding file_Write_def wp_bind
    by (rule wp_next_fault)
      (auto simp: wp_simps c tmp split: fault.split intro!: assms(2) assms(3) temp_phase_put [OF assms(1)])
qed

lemma wp_temp_Sync:
  assumes "temp_phase p old new w0 tmp (Some (File a b)) w"
    and "\<And>w'. temp_phase p old new w0 tmp (Some (File a True)) w' \<Longrightarrow> Q (Ok ()) w'"
    and "\<And>e x w'. temp_phase p old new w0 tmp x w' \<Longrightarrow> Q (Fail e) w'"
  shows "wp (file_Sync tmp) Q w"
proof -
  have tmp: "tmp \<noteq> ''/''" and c: "contents (tree w) tmp = a"
    using assms(1) by (auto simp: temp_phase_def contents_def)
  show ?thesis
    unfolding file_Sync_def
    by (rule wp_syscall)
      (use assms(1) in \<open>auto simp: wp_simps c tmp intro!: assms(2) assms(3) temp_phase_put [OF assms(1)]\<close>)
qed

lemma wp_temp_quiet:
  assumes "temp_phase p old new w0 tmp x w"
    and "\<And>w'. temp_phase p old new w0 tmp x w' \<Longrightarrow> Q (Ok ()) w'"
    and "\<And>e w'. temp_phase p old new w0 tmp x w' \<Longrightarrow> Q (Fail e) w'"
  shows "wp (file_Chmod tmp) Q w" "wp (file_Close tmp) Q w"
  unfolding file_Chmod_def file_Close_def by (rule wp_syscall; use assms in simp)+

lemma wp_temp_Remove:
  assumes "temp_phase p old new w0 tmp x w"
    and "\<And>r y w'. temp_phase p old new w0 tmp y w' \<Longrightarrow> Q r w'"
  shows "wp (os_Remove tmp) Q w"
proof -
  have tmp: "tmp \<noteq> ''/''" using assms(1) by (simp add: temp_phase_def)
  show ?thesis
    unfolding os_Remove_def
    by (rule wp_syscall)
      (use assms in \<open>auto simp: wp_simps tmp split: option.split intro!: assms(2) temp_phase_put [OF assms(1)]\<close>)
qed

lemma wp_temp_cleanup:
  assumes "temp_phase p old new w0 tmp x w" "\<And>y w'. temp_phase p old new w0 tmp y w' \<Longrightarrow> Q () w'"
  shows "wp (cleanup tmp) Q w" "wp (remove_quietly tmp) Q w"
  unfolding cleanup_def remove_quietly_def wp_bind
  by (rule wp_temp_quiet(2) [OF assms(1)]; erule wp_temp_Remove, simp add: assms(2))
     (rule wp_temp_Remove [OF assms(1)], simp add: assms(2))

text \<open>After the rename: the target holds the new contents and nothing else differs from the start.\<close>

definition replaced :: "string \<Rightarrow> node option set \<Rightarrow> node \<Rightarrow> world \<Rightarrow> world \<Rightarrow> bool" where
  "replaced p old new w0 w \<longleftrightarrow>
     crash_points (crash_sound p old new) w0 w \<and> lookup (durable w) p \<in> insert (Some new) old
     \<and> (\<forall>q. lookup (tree w) q = (if q = p then Some new else lookup (tree w0) q))"

lemma replaced_faults [simp]: "replaced p old new w0 (w\<lparr>faults := fs\<rparr>) = replaced p old new w0 w"
  by (simp add: replaced_def crash_points_def)

lemma wp_temp_Rename:
  assumes "temp_phase p old new w0 tmp (Some new) w" "p \<noteq> ''/''"
    and "\<And>w'. replaced p old new w0 w' \<Longrightarrow> Q (Ok ()) w'"
    and "\<And>e x w'. temp_phase p old new w0 tmp x w' \<Longrightarrow> Q (Fail e) w'"
  shows "wp (os_Rename tmp p) Q w"
proof -
  have tmp: "tmp \<noteq> ''/''" and n: "lookup (tree w) tmp = Some new" using assms(1) by (auto simp: temp_phase_def)
  let ?t = "AList.update p new (AList.delete tmp (tree w))"
  have l: "lookup ?t q = (if q = p then Some new else lookup (tree w0) q)" for q
    using assms(1,2) tmp by (auto simp: temp_phase_def)
  have "crash_sound p old new (?t, durable w)"
    using assms(1) l by (simp add: crash_sound_def temp_phase_def)
  with assms(1) have "replaced p old new w0 (w\<lparr>faults := fs, tree := ?t, journal := (?t, durable w) # journal w\<rparr>)" for fs
    using l unfolding replaced_def temp_phase_def by (auto elim!: crash_points_step)
  then show ?thesis
    unfolding os_Rename_def by (intro wp_syscall) (use assms n in \<open>auto simp: wp_simps\<close>)
qed

lemma wp_fsyncDir:
  assumes "replaced p old new w0 w" "child_name d p \<noteq> None" "d \<noteq> []"
    and "\<And>r w'. replaced p old new w0 w' \<Longrightarrow> (r = Ok () \<Longrightarrow> lookup (durable w') p = Some new) \<Longrightarrow> Q r w'"
  shows "wp (fsyncDir d) Q w"
proof -
  let ?dur = "\<lambda>w. sync_names d (tree w) (durable w)"
  have s: "replaced p old new w0 (w1\<lparr>durable := ?dur w1, journal := (tree w1, ?dur w1) # journal w1\<rparr>)
      \<and> lookup (?dur w1) p = Some new" if "replaced p old new w0 w1" for w1
  proof -
    have n: "lookup (?dur w1) p = Some new" using that assms(2,3) by (simp add: lookup_sync_names replaced_def)
    moreover have "crash_sound p old new (tree w1, ?dur w1)"
      using that n by (simp add: crash_sound_def replaced_def)
    ultimately show ?thesis using that unfolding replaced_def by (auto elim!: crash_points_step)
  qed
  have c: "wp (file_Close d) (\<lambda>_. wp (return r) Q) w1" if "replaced p old new w0 w1" "r = Ok () \<Longrightarrow> lookup (durable w1) p = Some new" for r w1
    unfolding file_Close_def by (rule wp_syscall) (use that in \<open>auto intro!: assms(4)\<close>)
  have y: "wp (sync_dir d) (\<lambda>rs. wp (file_Close d \<bind> (\<lambda>_. return rs)) Q) w1" if "replaced p old new w0 w1" for w1
    unfolding sync_dir_def
    by (rule wp_syscall) (use that s [of "w1\<lparr>faults := _\<rparr>"] in \<open>auto simp: wp_simps intro!: c\<close>)
  show ?thesis
    unfolding fsyncDir_def wp_bind open_dir_def
    by (rule wp_syscall) (use assms(1) y in \<open>auto simp: wp_simps intro!: assms(4)\<close>)
qed

definition atomic_write :: "string \<Rightarrow> node option set \<Rightarrow> node \<Rightarrow> world \<Rightarrow> unit result \<Rightarrow> world \<Rightarrow> bool" where
  "atomic_write p old new w r w' \<longleftrightarrow>
     crash_points (crash_sound p old new) w w'
     \<and> lookup (tree w') p \<in> {lookup (tree w) p, Some new}
     \<and> (\<forall>q. q \<noteq> p \<longrightarrow> lookup (tree w) q \<noteq> None \<longrightarrow> lookup (tree w') q = lookup (tree w) q)
     \<and> (r = Ok () \<longrightarrow> lookup (durable w') p = Some new
          \<and> (\<forall>q. lookup (tree w') q = (if q = p then Some new else lookup (tree w) q)))"

lemma atomic_write_failed:
  assumes "temp_phase p old new w0 tmp x w"
  shows "atomic_write p old new w0 (Fail e) w"
proof -
  have "lookup (tree w) q = lookup (tree w0) q" if "q = p \<or> lookup (tree w0) q \<noteq> None" for q
    using assms that unfolding temp_phase_def by metis
  with assms show ?thesis unfolding temp_phase_def atomic_write_def by simp
qed

lemma atomic_write_replaced:
  "replaced p old new w0 w \<Longrightarrow> (r = Ok () \<Longrightarrow> lookup (durable w) p = Some new) \<Longrightarrow> atomic_write p old new w0 r w"
  unfolding replaced_def atomic_write_def by auto

lemma wp_create_temp:
  assumes "lookup (tree w) p \<in> old" "lookup (durable w) p \<in> old" "\<And>r. p \<noteq> d @ slash # pre @ r @ suf" "d \<noteq> []"
    and "\<And>tmp w'. temp_phase p old new w tmp (Some (File [] False)) w' \<Longrightarrow> Q (Ok tmp) w'"
    and "\<And>e w'. atomic_write p old new w (Fail e) w' \<Longrightarrow> Q (Fail e) w'"
  shows "wp (os_CreateTemp d pre suf) Q w"
proof -
  have f: "atomic_write p old new w (Fail e) (w\<lparr>faults := fs, entropy := es\<rparr>)" for e fs es
    using assms(1,2) by (simp add: atomic_write_def crash_points_def)
  have f': "atomic_write p old new w (Fail e) (w\<lparr>faults := fs\<rparr>)" for e fs
    using f [where e = e and fs = fs and es = "entropy w"] by simp
  have ok: "temp_phase p old new w tmp (Some (File [] False))
      (w\<lparr>faults := fs, entropy := es, tree := AList.update tmp (File [] False) (tree w),
         journal := (AList.update tmp (File [] False) (tree w), durable w) # journal w\<rparr>)"
    if "lookup (tree w) tmp = None" "tmp = d @ slash # pre @ r @ suf" for fs es tmp r
  proof -
    have ne: "tmp \<noteq> p" "tmp \<noteq> ''/''" using that assms(3) [of r] assms(4) by (auto simp: append_eq_Cons_conv)
    let ?t = "AList.update tmp (File [] False) (tree w)"
    have "crash_sound p old new (?t, durable w)" using ne assms(1,2) by (simp add: crash_sound_def)
    then have "crash_points (crash_sound p old new) w (w\<lparr>faults := fs, entropy := es, tree := ?t, journal := (?t, durable w) # journal w\<rparr>)"
      by (simp add: crash_points_def)
    with ne that assms(1,2) show ?thesis unfolding temp_phase_def by simp
  qed
  show ?thesis
    unfolding os_CreateTemp_def
    by (rule wp_syscall)
      (auto simp: wp_simps split: option.split intro!: wp_fresh_temp assms(5,6) f f' ok)
qed

lemma replace_file_atomic:
  assumes "lookup (tree w) p \<in> old" "lookup (durable w) p \<in> old"
    and "p = d @ slash # n" "n \<noteq> []" "slash \<notin> set n" "\<And>r. n \<noteq> pre @ r @ suf" "d \<noteq> []"
  shows "wp (replace_file d pre suf p data ferr) (atomic_write p old (File data True) w) w"
proof -
  let ?new = "File data True"
  have ch: "child_name d p \<noteq> None" "p \<noteq> ''/''" using assms by (simp, cases d, auto)
  have fresh: "p \<noteq> d @ slash # pre @ r @ suf" for r using assms(3,6) by simp
  have fail: "wp m (\<lambda>_. wp (return (Fail e)) (atomic_write p old ?new w)) w'"
    if "temp_phase p old ?new w tmp x w'" "m = cleanup tmp \<or> m = remove_quietly tmp" for m e tmp x w'
    using that by (auto intro!: wp_temp_cleanup [OF that(1)] elim: atomic_write_failed)
  have fsync: "wp (fsyncDir d) (\<lambda>r6. wp (return (case r6 of Inl e \<Rightarrow> Fail (ferr e) | Inr _ \<Rightarrow> Ok ()))
      (atomic_write p old ?new w)) w'" if "replaced p old ?new w w'" for w'
    by (rule wp_fsyncDir [OF that ch(1) assms(7)]) (auto intro!: atomic_write_replaced split: sum.split)
  show ?thesis
    unfolding replace_file_def wp_bind
    apply (rule wp_create_temp [OF assms(1,2) fresh assms(7)]; simp only: sum.case wp_bind)
     apply (erule wp_temp_quiet(1); simp only: sum.case wp_bind)
      apply (erule wp_temp_Write; simp only: sum.case wp_bind append_Nil)
       apply (erule wp_temp_Sync; simp only: sum.case wp_bind)
        apply (erule wp_temp_quiet(2); simp only: sum.case wp_bind)
         apply (erule wp_temp_Rename [OF _ ch(2)]; simp only: sum.case wp_bind)
          apply (erule fsync)
         apply (erule fail, simp)+
    apply (simp add: atomic_write_def)
    done
qed

text \<open>Without faults a replacement succeeds, as soon as a temporary name is free.\<close>

lemma replace_file_succeeds:
  assumes "faults w = []" "lookup (tree w) d = Some Directory"
    and "free_temp (tree w) d pre suf (entropy w) = Some (tmp, rs)" "d \<noteq> []"
    and "p = d @ slash # n" "\<And>r. n \<noteq> pre @ r @ suf" "lookup (tree w) p \<noteq> Some Directory"
  shows "\<exists>w'. run_state (replace_file d pre suf p data ferr) w = (Inr (), w') \<and> faults w' = [] \<and> entropy w' = rs"
proof -
  from free_temp_free [OF assms(3)] obtain r where t: "tmp = d @ slash # pre @ r @ suf" "lookup (tree w) tmp = None"
    by blast
  have n: "tmp \<noteq> ''/''" "p \<noteq> ''/''" "tmp \<noteq> p" "d \<noteq> p" "d \<noteq> tmp"
    using assms(4,5,6) t(1) by (auto simp: append_eq_Cons_conv)
  show ?thesis
    using assms(1,2,3,7) n
    by (simp add: replace_file_def os_CreateTemp_def fresh_temp_def file_Chmod_def file_Write_def file_Sync_def
        file_Close_def os_Rename_def fsyncDir_def open_dir_def sync_dir_def)
qed

lemma cleanup_frame [frame]:
  "quiet (cleanup p)" "quiet (remove_quietly p)" "starts_nothing (cleanup p)" "starts_nothing (remove_quietly p)"
  "keeps objects (cleanup p)" "keeps objects (remove_quietly p)"
  unfolding cleanup_def remove_quietly_def by (intro frame)+

section \<open>The contract of a durable cell\<close>

text \<open>
  What a client of stored values relies on, whatever they are stored in: loading a stored value gives
  it back, and after a successful save the value is stored.
\<close>

locale durable_cells =
  fixes key_ok :: "'k \<Rightarrow> bool"
    and load :: "'k \<Rightarrow> 'r result io"
    and save :: "'k \<Rightarrow> 'r \<Rightarrow> unit result io"
    and stored :: "'k \<Rightarrow> 'r \<Rightarrow> world \<Rightarrow> bool"
    and fit :: "'r \<Rightarrow> bool"
  assumes load_stored: "fit r \<Longrightarrow> stored k r w \<Longrightarrow> wp (load k) (\<lambda>x w'. same_files w w' \<and> (\<forall>y. x = Inr y \<longrightarrow> y = r)) w"
    and load_quiet: "fit r \<Longrightarrow> stored k r w \<Longrightarrow> faults w = [] \<Longrightarrow> run_state (load k) w = (Inr r, w)"
    and save_stored: "key_ok k \<Longrightarrow> wp (save k r) (\<lambda>x w'. x = Inr () \<longrightarrow> stored k r w') w"
begin

lemma save_load:
  assumes "key_ok k" "fit r" "run_state (save k r) w = (Inr (), w1)" "faults w1 = []"
  shows "run_state (load k) w1 = (Inr r, w1)"
  using load_quiet [OF assms(2) _ assms(4)] wp_run [OF save_stored [OF assms(1)] assms(3)] by simp

lemma read_modify_write:
  assumes "key_ok k" "fit r" "stored k r w"
  shows "wp (load k \<bind> (\<lambda>x. case x of Inl e \<Rightarrow> return (Fail (f e))
      | Inr y \<Rightarrow> save k (g y) \<bind> (\<lambda>z. return (case z of Inl e \<Rightarrow> Fail (f e) | Inr _ \<Rightarrow> Ok (g y)))))
    (\<lambda>x w'. \<forall>y. x = Inr y \<longrightarrow> y = g r \<and> stored k (g r) w') w"
  unfolding wp_bind
proof (rule wp_mono [OF load_stored [OF assms(2,3)]], goal_cases)
  case (1 x w1)
  show ?case
  proof (cases x)
    case (Inr y)
    with 1 have "y = r" by simp
    with Inr show ?thesis
      unfolding Inr sum.case wp_bind by (intro wp_mono [OF save_stored [OF assms(1)]]) (auto split: sum.split)
  qed simp
qed

end

lemma untouched_replace_file [frame]:
  assumes "q \<noteq> p" "\<And>r. q \<noteq> d @ slash # pre @ r @ suf"
  shows "untouched q (replace_file d pre suf p data ferr)"
proof -
  have "untouched q (cleanup tmp)" "untouched q (remove_quietly tmp)" if "q \<noteq> tmp" for tmp
    unfolding cleanup_def remove_quietly_def using that by (intro frame; assumption)+
  moreover have "untouched q (fsyncDir d)" unfolding fsyncDir_def by (intro frame)
  moreover have "q \<noteq> tmp" if "run_state (os_CreateTemp d pre suf) w = (x, w')" "x = Inr tmp" for x w w' tmp
    using run_CreateTemp_name assms(2) that by blast
  ultimately show ?thesis
    unfolding replace_file_def using assms
    by (intro frame; blast)
qed

end
