(* ===== verification/Mirror.thy ===== *)
theory Mirror
  imports Objectstore Repo Gitenv Go_Time Atomic_Write
begin

text \<open>
  \<open>internal/mirror/mirror.go\<close> and \<open>bundleformat.go\<close>: creating, listing, deleting, verifying and restoring
  the git bundle mirrors, with the two operations of \<open>agent.go\<close> that belong to the mirror
  (\<open>LatestBundle\<close>, \<open>VerifyBundleFile\<close>). The object store is any implementation of the interface, git a
  parameter, and the reading of the clock an argument.
\<close>

section \<open>The bundle header\<close>

text \<open>The loop over the capability lines after a v3 signature; \<open>None\<close> when no line decides.\<close>

fun scan_caps :: "string \<Rightarrow> string list \<Rightarrow> string result option" where
  "scan_caps path [] = None"
| "scan_caps path (line # ls) =
     (if line = [] then Some (Ok ''sha1'')
      else if \<not> HasPrefix line ''@'' then scan_caps path ls
      else if line = ''@object-format=sha256'' then Some (Ok ''sha256'')
      else if line = ''@object-format=sha1'' then Some (Ok ''sha1'')
      else if HasPrefix line ''@object-format='' then
        Some (Fail (Errf ''bundle header %s: unsupported object format capability %q'' [path, line]))
      else scan_caps path ls)"

definition header_format :: "string \<Rightarrow> string list \<Rightarrow> gerror option \<Rightarrow> string result" where
  "header_format path lines err =
     (case lines of
        [] \<Rightarrow> (case err of
             Some e \<Rightarrow> Fail (Wrapf ''bundle header %s: read: %w'' [path] e)
           | None \<Rightarrow> Fail (Errf ''bundle header %s: empty file'' [path]))
      | firstLine # rest \<Rightarrow>
          if firstLine = ''# v2 git bundle'' then Ok ''sha1''
          else if firstLine = ''# v3 git bundle'' then
            (case scan_caps path rest of
               Some r \<Rightarrow> r
             | None \<Rightarrow> (case err of Some e \<Rightarrow> Fail (Wrapf ''bundle header %s: read: %w'' [path] e) | None \<Rightarrow> Ok ''sha1''))
          else Fail (Errf ''bundle header %s: unrecognized first line %q'' [path, firstLine]))"

definition bundleObjectFormat :: "string \<Rightarrow> string result io" where
  "bundleObjectFormat path = do {
     r \<leftarrow> os_Open path;
     case r of
       Inl e \<Rightarrow> return (Fail (Wrapf ''bundle header: open %s: %w'' [path] e))
     | Inr _ \<Rightarrow> do {
         sc \<leftarrow> file_Scan path;
         _ \<leftarrow> file_Close path;
         return (header_format path (fst sc) (snd sc)) }
   }"

section \<open>The mirror\<close>

record BundleResult =
  Uploaded :: bool
  Reason :: string

record Mirror =
  mir_store :: ObjectStore
  mir_git :: Runner
  mir_reposRoot :: string
  mir_prefix :: string
  mir_workDir :: string

definition Mirror_New :: "ObjectStore \<Rightarrow> Runner \<Rightarrow> string \<Rightarrow> string \<Rightarrow> string \<Rightarrow> Mirror" where
  "Mirror_New store git reposRoot pfx workDir =
     \<lparr>mir_store = store, mir_git = git, mir_reposRoot = reposRoot, mir_prefix = pfx, mir_workDir = workDir\<rparr>"

definition bundleKey :: "Mirror \<Rightarrow> string \<Rightarrow> time \<Rightarrow> string" where
  "bundleKey m repoName t =
     (let ts = ReplaceAll_char (CHR '':'') (CHR ''-'') (format_nanos (time_UTC t))
      in mir_prefix m @ ''/'' @ repoName @ ''/'' @ ts @ ''.bundle'')"

text \<open>The part of \<open>CreateBundle\<close> that runs while the temporary file exists.\<close>

definition bundle_upload :: "git_prog \<Rightarrow> Mirror \<Rightarrow> time \<Rightarrow> string \<Rightarrow> string \<Rightarrow> string \<Rightarrow> BundleResult result io" where
  "bundle_upload git m now repoName repoDir tmpName = do {
     rb \<leftarrow> RunIn git (mir_git m) repoDir [''bundle'', ''create'', tmpName, ''--all''];
     case rb of
       Inl e \<Rightarrow> return (Fail (Wrapf ''mirror create %s: bundle: %w'' [repoName] e))
     | Inr _ \<Rightarrow> do {
         rd \<leftarrow> os_ReadFile tmpName;
         case rd of
           Inl e \<Rightarrow> return (Fail (Wrapf ''mirror create %s: read bundle: %w'' [repoName] e))
         | Inr data \<Rightarrow> do {
             rp \<leftarrow> obj_Put (mir_store m) (bundleKey m repoName now) data;
             return (case rp of
                Inl e \<Rightarrow> Fail (Wrapf ''mirror create %s: upload: %w'' [repoName] e)
              | Inr _ \<Rightarrow> Ok \<lparr>Uploaded = True, Reason = []\<rparr>) } }
   }"

definition CreateBundle :: "git_prog \<Rightarrow> Mirror \<Rightarrow> time \<Rightarrow> string \<Rightarrow> BundleResult result io" where
  "CreateBundle git m now repoName =
     (if \<not> ValidName repoName then return (Fail (Errf ''mirror create: invalid repo name %q'' [repoName]))
      else let repoDir = Join [mir_reposRoot m, repoName @ ''.git''] in do {
        rr \<leftarrow> RunIn git (mir_git m) repoDir [''for-each-ref'', ''--format=%(refname)''];
        case rr of
          Inl e \<Rightarrow> return (Fail (Wrapf ''mirror create %s: enumerate refs: %w'' [repoName] e))
        | Inr refs \<Rightarrow>
            if TrimSpace refs = [] then return (Ok \<lparr>Uploaded = False, Reason = ''no refs''\<rparr>)
            else do {
              rt \<leftarrow> os_CreateTemp (mir_workDir m) ''bundle-'' ''.bundle'';
              case rt of
                Inl e \<Rightarrow> return (Fail (Wrapf ''mirror create %s: temp: %w'' [repoName] e))
              | Inr tmpName \<Rightarrow> do {
                  _ \<leftarrow> file_Close tmpName;
                  r \<leftarrow> bundle_upload git m now repoName repoDir tmpName;
                  _ \<leftarrow> remove_quietly tmpName;
                  return r } }
      })"

abbreviation repo_prefix :: "Mirror \<Rightarrow> string \<Rightarrow> string" where
  "repo_prefix m repoName \<equiv> mir_prefix m @ ''/'' @ repoName @ ''/''"

definition Mirror_List :: "Mirror \<Rightarrow> string \<Rightarrow> string list result io" where
  "Mirror_List m repoName =
     (if \<not> ValidName repoName then return (Fail (Errf ''mirror list: invalid repo name %q'' [repoName]))
      else do {
        r \<leftarrow> obj_List (mir_store m) (repo_prefix m repoName);
        return (case r of Inl e \<Rightarrow> Fail (Wrapf ''mirror list %s: %w'' [repoName] e) | Inr keys \<Rightarrow> Ok keys) })"

definition repoNameFromKey :: "Mirror \<Rightarrow> string \<Rightarrow> string option" where
  "repoNameFromKey m key =
     (case CutPrefix key (mir_prefix m @ ''/'') of
        None \<Rightarrow> None
      | Some rest \<Rightarrow>
          (case cut_at slash rest of
             None \<Rightarrow> None
           | Some (repoName, _) \<Rightarrow>
               if repoName = [] then None else if \<not> ValidName repoName then None else Some repoName))"

text \<open>The loop of \<open>ListAllRepos\<close>; the Go map is an association list.\<close>

fun group_keys :: "Mirror \<Rightarrow> string list \<Rightarrow> (string \<times> string list) list \<Rightarrow> (string \<times> string list) list result" where
  "group_keys m [] repos = Ok repos"
| "group_keys m (key # keys) repos =
     (case repoNameFromKey m key of
        None \<Rightarrow> Fail (Errf ''mirror list-all: malformed key %q'' [key])
      | Some repoName \<Rightarrow> group_keys m keys (AList.map_default repoName [key] (\<lambda>ks. ks @ [key]) repos))"

definition ListAllRepos :: "Mirror \<Rightarrow> (string \<times> string list) list result io" where
  "ListAllRepos m = do {
     r \<leftarrow> obj_List (mir_store m) (mir_prefix m @ ''/'');
     return (case r of
        Inl e \<Rightarrow> Fail (Wrapf ''mirror list-all: %w'' [] e)
      | Inr keys \<Rightarrow> group_keys m keys [])
   }"

fun delete_loop :: "Mirror \<Rightarrow> string \<Rightarrow> string list \<Rightarrow> unit result io" where
  "delete_loop m repoName [] = return (Ok ())"
| "delete_loop m repoName (key # keys) = do {
     r \<leftarrow> obj_Delete (mir_store m) key;
     case r of
       Inl e \<Rightarrow> return (Fail (Wrapf ''mirror delete %s: %w'' [repoName] e))
     | Inr _ \<Rightarrow> delete_loop m repoName keys
   }"

definition Mirror_Delete :: "Mirror \<Rightarrow> string \<Rightarrow> unit result io" where
  "Mirror_Delete m repoName = do {
     r \<leftarrow> Mirror_List m repoName;
     case r of Inl e \<Rightarrow> return (Fail e) | Inr keys \<Rightarrow> delete_loop m repoName keys
   }"

text \<open>\<open>download\<close> returns the name of the temporary file; its clean-up is \<open>remove_quietly\<close> of that name.\<close>

definition download :: "Mirror \<Rightarrow> string \<Rightarrow> string result io" where
  "download m key = do {
     rg \<leftarrow> obj_Get (mir_store m) key;
     case rg of
       Inl e \<Rightarrow> return (Fail (Wrapf ''mirror download %s: %w'' [key] e))
     | Inr data \<Rightarrow> do {
         rt \<leftarrow> os_CreateTemp (mir_workDir m) ''verify-'' ''.bundle'';
         case rt of
           Inl e \<Rightarrow> return (Fail (Wrapf ''mirror download %s: temp: %w'' [key] e))
         | Inr name \<Rightarrow> do {
             rw \<leftarrow> file_Write name data;
             case rw of
               Inl e \<Rightarrow> do { _ \<leftarrow> cleanup name; return (Fail (Wrapf ''mirror download %s: write: %w'' [key] e)) }
             | Inr _ \<Rightarrow> do {
                 rc \<leftarrow> file_Close name;
                 case rc of
                   Inl e \<Rightarrow> do { _ \<leftarrow> remove_quietly name; return (Fail (Wrapf ''mirror download %s: close: %w'' [key] e)) }
                 | Inr _ \<Rightarrow> return (Ok name) } } }
   }"

text \<open>The loop of \<open>unbundle\<close> over the listed refs: the first restored branch, or empty.\<close>

fun update_refs :: "git_prog \<Rightarrow> Mirror \<Rightarrow> string \<Rightarrow> string list \<Rightarrow> string \<Rightarrow> string result io" where
  "update_refs git m dest [] firstBranch = return (Ok firstBranch)"
| "update_refs git m dest (line # ls) firstBranch =
     (case Fields line of
        [oid, ref] \<Rightarrow>
          if \<not> HasPrefix ref ''refs/'' then update_refs git m dest ls firstBranch
          else do {
            r \<leftarrow> RunIn git (mir_git m) dest [''update-ref'', ref, oid];
            case r of
              Inl e \<Rightarrow> return (Fail (Wrapf ''update-ref %s: %w'' [ref] e))
            | Inr _ \<Rightarrow> update_refs git m dest ls
                (if firstBranch = [] \<and> HasPrefix ref ''refs/heads/'' then ref else firstBranch) }
      | _ \<Rightarrow> update_refs git m dest ls firstBranch)"

definition Mirror_unbundle :: "git_prog \<Rightarrow> Mirror \<Rightarrow> string \<Rightarrow> string \<Rightarrow> unit result io" where
  "Mirror_unbundle git m dest bundlePath = do {
     ro \<leftarrow> RunIn git (mir_git m) dest [''bundle'', ''unbundle'', bundlePath];
     case ro of
       Inl e \<Rightarrow> return (Fail e)
     | Inr listing \<Rightarrow> do {
         rf \<leftarrow> update_refs git m dest (split_on newline_char listing) [];
         case rf of
           Inl e \<Rightarrow> return (Fail e)
         | Inr firstBranch \<Rightarrow>
             if firstBranch = [] then return (Ok ())
             else do {
               rh \<leftarrow> RunIn git (mir_git m) dest [''rev-parse'', ''--verify'', ''HEAD''];
               case rh of
                 Inr _ \<Rightarrow> return (Ok ())
               | Inl _ \<Rightarrow> do {
                   rs \<leftarrow> RunIn git (mir_git m) dest [''symbolic-ref'', ''HEAD'', firstBranch];
                   return (case rs of Inl e \<Rightarrow> Fail (Wrapf ''repoint HEAD: %w'' [] e) | Inr _ \<Rightarrow> Ok ()) } } }
   }"

text \<open>\<open>Fetch\<close> between the creation of \<open>dest\<close> and its deferred removal.\<close>

definition fill_dest :: "git_prog \<Rightarrow> Mirror \<Rightarrow> string \<Rightarrow> string \<Rightarrow> string \<Rightarrow> string \<Rightarrow> unit result io" where
  "fill_dest git m repoName dest latest bundlePath = do {
     rv \<leftarrow> RunIn git (mir_git m) dest [''bundle'', ''verify'', bundlePath];
     case rv of
       Inl e \<Rightarrow> return (Fail (Wrapf ''mirror fetch %s: verify %s: %w'' [repoName, latest] e))
     | Inr _ \<Rightarrow> do {
         ru \<leftarrow> Mirror_unbundle git m dest bundlePath;
         return (case ru of
            Inl e \<Rightarrow> Fail (Wrapf ''mirror fetch %s: unbundle %s: %w'' [repoName, latest] e)
          | Inr _ \<Rightarrow> Ok ()) }
   }"

text \<open>\<open>Fetch\<close> while the downloaded bundle exists.\<close>

definition restore_bundle :: "git_prog \<Rightarrow> Mirror \<Rightarrow> string \<Rightarrow> string \<Rightarrow> string \<Rightarrow> string \<Rightarrow> unit result io" where
  "restore_bundle git m repoName dest latest bundlePath = do {
     rf \<leftarrow> bundleObjectFormat bundlePath;
     case rf of
       Inl e \<Rightarrow> return (Fail (Wrapf ''mirror fetch %s: %w'' [repoName] e))
     | Inr format \<Rightarrow> do {
         ri \<leftarrow> Run git (mir_git m) [''init'', ''--bare'', ''--object-format='' @ format, dest];
         case ri of
           Inl e \<Rightarrow> return (Fail (Wrapf ''mirror fetch %s: init: %w'' [repoName] e))
         | Inr _ \<Rightarrow> do {
             r \<leftarrow> fill_dest git m repoName dest latest bundlePath;
             case r of
               Inl e \<Rightarrow> do { _ \<leftarrow> os_RemoveAll dest; return (Fail e) }
             | Inr _ \<Rightarrow> return (Ok ()) } }
   }"

definition Fetch :: "git_prog \<Rightarrow> Mirror \<Rightarrow> string \<Rightarrow> string \<Rightarrow> unit result io" where
  "Fetch git m repoName dest =
     (if \<not> ValidName repoName then return (Fail (Errf ''mirror fetch: invalid repo name %q'' [repoName]))
      else do {
        rs \<leftarrow> os_Stat dest;
        case rs of
          Inr _ \<Rightarrow> return (Fail (Errf ''mirror fetch: destination %s already exists'' [dest]))
        | Inl _ \<Rightarrow> do {
            rm \<leftarrow> os_MkdirAll (Dir dest);
            case rm of
              Inl e \<Rightarrow> return (Fail (Wrapf ''mirror fetch: mkdir parent: %w'' [] e))
            | Inr _ \<Rightarrow> do {
                rl \<leftarrow> Mirror_List m repoName;
                case rl of
                  Inl e \<Rightarrow> return (Fail e)
                | Inr keys \<Rightarrow>
                    if keys = [] then return (Fail (Errf ''mirror fetch %s: no bundles'' [repoName]))
                    else do {
                      rd \<leftarrow> download m (last keys);
                      case rd of
                        Inl e \<Rightarrow> return (Fail e)
                      | Inr bundlePath \<Rightarrow> do {
                          r \<leftarrow> restore_bundle git m repoName dest (last keys) bundlePath;
                          _ \<leftarrow> remove_quietly bundlePath;
                          return r } } } }
      })"

definition Restore :: "git_prog \<Rightarrow> Mirror \<Rightarrow> string \<Rightarrow> unit result io" where
  "Restore git m repoName = Fetch git m repoName (Join [mir_reposRoot m, repoName @ ''.git''])"

definition Verify :: "git_prog \<Rightarrow> Mirror \<Rightarrow> string \<Rightarrow> unit result io" where
  "Verify git m repoName =
     (if \<not> ValidName repoName then return (Fail (Errf ''mirror verify: invalid repo name %q'' [repoName]))
      else let repoDir = Join [mir_reposRoot m, repoName @ ''.git''] in do {
        rl \<leftarrow> Mirror_List m repoName;
        case rl of
          Inl e \<Rightarrow> return (Fail e)
        | Inr keys \<Rightarrow>
            if keys = [] then return (Ok ())
            else do {
              rd \<leftarrow> download m (last keys);
              case rd of
                Inl e \<Rightarrow> return (Fail e)
              | Inr bundlePath \<Rightarrow> do {
                  rv \<leftarrow> RunIn git (mir_git m) repoDir [''bundle'', ''verify'', bundlePath];
                  _ \<leftarrow> remove_quietly bundlePath;
                  return (case rv of Inl e \<Rightarrow> Fail (Wrapf ''mirror verify %s: %w'' [repoName] e) | Inr _ \<Rightarrow> Ok ()) } }
      })"

definition LatestBundle :: "Mirror \<Rightarrow> string \<Rightarrow> bytes result io" where
  "LatestBundle m repoName =
     (if \<not> ValidName repoName then return (Fail (Errf ''mirror latest-bundle: invalid repo name %q'' [repoName]))
      else do {
        rl \<leftarrow> Mirror_List m repoName;
        case rl of
          Inl e \<Rightarrow> return (Fail e)
        | Inr keys \<Rightarrow>
            if keys = [] then return (Fail (Errf ''mirror latest-bundle %s: no bundles'' [repoName]))
            else do {
              rg \<leftarrow> obj_Get (mir_store m) (last keys);
              return (case rg of
                 Inl e \<Rightarrow> Fail (Wrapf ''mirror latest-bundle %s: download %s: %w'' [repoName, last keys] e)
               | Inr data \<Rightarrow> Ok data) }
      })"

text \<open>\<open>VerifyBundleFile\<close> while its scratch directory exists.\<close>

definition verify_scratch :: "git_prog \<Rightarrow> Mirror \<Rightarrow> string \<Rightarrow> string \<Rightarrow> string \<Rightarrow> unit result io" where
  "verify_scratch git m path format repoDir = do {
     ri \<leftarrow> Run git (mir_git m) [''init'', ''--bare'', ''--object-format='' @ format, repoDir];
     case ri of
       Inl e \<Rightarrow> return (Fail (Wrapf ''mirror verify-bundle: init: %w'' [] e))
     | Inr _ \<Rightarrow> do {
         rv \<leftarrow> RunIn git (mir_git m) repoDir [''bundle'', ''verify'', path];
         return (case rv of Inl e \<Rightarrow> Fail (Wrapf ''mirror verify-bundle %s: %w'' [path] e) | Inr _ \<Rightarrow> Ok ()) }
   }"

definition VerifyBundleFile :: "git_prog \<Rightarrow> Mirror \<Rightarrow> string \<Rightarrow> unit result io" where
  "VerifyBundleFile git m path = do {
     rf \<leftarrow> bundleObjectFormat path;
     case rf of
       Inl e \<Rightarrow> return (Fail (Wrapf ''mirror verify-bundle: %w'' [] e))
     | Inr format \<Rightarrow> do {
         rt \<leftarrow> os_MkdirTemp (mir_workDir m) ''verify-'';
         case rt of
           Inl e \<Rightarrow> return (Fail (Wrapf ''mirror verify-bundle: scratch: %w'' [] e))
         | Inr scratch \<Rightarrow> do {
             r \<leftarrow> verify_scratch git m path format (Join [scratch, ''repo.git'']);
             _ \<leftarrow> os_RemoveAll scratch;
             return r } }
   }"

section \<open>Facts: keys\<close>

lemma bundle_stamp_less:
  assumes "t_ns t < t_ns u" "0 \<le> utc_year t" "utc_year u \<le> 9999"
  shows "ReplaceAll_char (CHR '':'') (CHR ''-'') (format_nanos (time_UTC t)) < ReplaceAll_char (CHR '':'') (CHR ''-'') (format_nanos (time_UTC u))
    \<and> length (format_nanos (time_UTC t)) = length (format_nanos (time_UTC u))"
proof -
  have y: "utc_year t \<le> utc_year u" using assms(1) by (intro utc_year_mono) simp
  have f: "t_off (time_UTC t) = 0" "t_off (time_UTC u) = 0" "t_ns (time_UTC t) < t_ns (time_UTC u)"
    "utc_year (time_UTC t) = utc_year t" "utc_year (time_UTC u) = utc_year u"
    using assms(1) by (simp_all add: time_UTC_def utc_year_def)
  have l: "format_nanos (time_UTC t) < format_nanos (time_UTC u)" "length (format_nanos (time_UTC t)) = length (format_nanos (time_UTC u))"
    using format_nanos_less [of "time_UTC t" "time_UTC u"] f assms y by auto
  have "map (\<lambda>c. c = CHR '':'') (format_nanos (time_UTC t)) = map (\<lambda>c. c = CHR '':'') (format_nanos (time_UTC u))"
    using colons_format_nanos f assms y by simp
  from ReplaceAll_char_less [OF l(2) this l(1)] l(2) show ?thesis by blast
qed

lemma bundleKey_less:
  assumes "t_ns t < t_ns u" "0 \<le> utc_year t" "utc_year u \<le> 9999"
  shows "bundleKey m r t < bundleKey m r u"
  using bundle_stamp_less [OF assms]
  by (auto simp: bundleKey_def Let_def ReplaceAll_char_def intro!: less_append_same_length)

lemma repo_prefix_bundleKey: "HasPrefix (bundleKey m r t) (repo_prefix m r)"
  by (simp add: bundleKey_def Let_def HasPrefix_iff)

text \<open>The keys of two different repositories have no common prefix up to the name.\<close>

lemma repo_prefix_disjoint:
  assumes "ValidName r" "ValidName r'" "r \<noteq> r'" "HasPrefix k (repo_prefix m r)"
  shows "\<not> HasPrefix k (repo_prefix m r')"
proof
  assume "HasPrefix k (repo_prefix m r')"
  then obtain x y where "r @ slash # x = r' @ slash # y" using assms(4)
    by (fastforce simp: HasPrefix_iff dest: sym)
  then have "cut_at slash (r @ slash # x) = cut_at slash (r' @ slash # y)" by simp
  with assms(1-3) show False by (simp add: ValidName_no_slash)
qed

lemma repoNameFromKey_iff: "repoNameFromKey m k = Some r \<longleftrightarrow> ValidName r \<and> HasPrefix k (repo_prefix m r)"
proof
  assume "ValidName r \<and> HasPrefix k (repo_prefix m r)"
  then obtain x where "k = (mir_prefix m @ ''/'') @ r @ slash # x" "ValidName r" by (auto simp: HasPrefix_iff)
  then show "repoNameFromKey m k = Some r"
    using CutPrefix_append [of "mir_prefix m @ ''/''" "r @ slash # x"]
    by (simp add: repoNameFromKey_def ValidName_no_slash ValidName_nonempty)
next
  assume "repoNameFromKey m k = Some r"
  then obtain rest x where r: "CutPrefix k (mir_prefix m @ ''/'') = Some rest" "cut_at slash rest = Some (r, x)" "ValidName r"
    by (auto simp: repoNameFromKey_def split: option.splits if_splits)
  from r(2) have "rest = r @ slash # x"
    by (rule cut_at_Some)
  with r show "ValidName r \<and> HasPrefix k (repo_prefix m r)"
    using CutPrefix_Some [of k "mir_prefix m @ ''/''" rest] by (simp add: HasPrefix_iff)
qed

lemma group_keys_spec:
  "group_keys m ks repos = Inr repos' \<Longrightarrow>
     list_all (\<lambda>k. repoNameFromKey m k \<noteq> None) ks
     \<and> (\<forall>r. map_of repos' r = (case filter (\<lambda>k. repoNameFromKey m k = Some r) ks of
          [] \<Rightarrow> map_of repos r | kr \<Rightarrow> Some ((case map_of repos r of None \<Rightarrow> [] | Some k0 \<Rightarrow> k0) @ kr)))"
proof (induction ks arbitrary: repos)
  case (Cons k ks)
  then obtain r0 where r0: "repoNameFromKey m k = Some r0"
    and g: "group_keys m ks (AList.map_default r0 [k] (\<lambda>ks. ks @ [k]) repos) = Inr repos'"
    by (auto split: option.splits)
  have md: "map_of (AList.map_default r0 [k] (\<lambda>ks. ks @ [k]) repos) r =
      (if r = r0 then Some ((case map_of repos r of None \<Rightarrow> [] | Some k0 \<Rightarrow> k0) @ [k]) else map_of repos r)" for r
    by (induction repos) auto
  from Cons.IH [OF g] r0 show ?case by (auto simp: md split: list.splits option.splits)
qed simp

section \<open>Facts: the header\<close>

text \<open>
  What the comment of \<open>bundleObjectFormat\<close> tabulates: the first object-format capability before the first
  blank line decides; a header that was cut short by an unreadable line decides nothing.
\<close>

definition declared_format :: "string list \<Rightarrow> bool \<Rightarrow> string option" where
  "declared_format lines short =
     (if lines \<noteq> [] \<and> hd lines = ''# v2 git bundle'' then Some ''sha1''
      else if lines \<noteq> [] \<and> hd lines = ''# v3 git bundle'' then
        (case List.find (\<lambda>l. HasPrefix l ''@object-format='') (takeWhile (\<lambda>l. l \<noteq> []) (tl lines)) of
           Some l \<Rightarrow> if l \<in> {''@object-format=sha1'', ''@object-format=sha256''} then Some (drop 15 l) else None
         | None \<Rightarrow> if short \<and> [] \<notin> set (tl lines) then None else Some ''sha1'')
      else None)"

definition result_option :: "'a result \<Rightarrow> 'a option" where
  "result_option r = (case r of Inl _ \<Rightarrow> None | Inr x \<Rightarrow> Some x)"

lemma scan_caps_spec:
  "(case scan_caps p ls of Some r \<Rightarrow> result_option r | None \<Rightarrow> d) =
     (case List.find (\<lambda>l. HasPrefix l ''@object-format='') (takeWhile (\<lambda>l. l \<noteq> []) ls) of
        Some l \<Rightarrow> if l \<in> {''@object-format=sha1'', ''@object-format=sha256''} then Some (drop 15 l) else None
      | None \<Rightarrow> if [] \<in> set ls then Some ''sha1'' else d)"
proof (induction ls)
  case (Cons l ls)
  have "HasPrefix l ''@object-format='' \<Longrightarrow> HasPrefix l ''@''" by (auto simp: HasPrefix_iff)
  with Cons show ?case by (auto simp: result_option_def split: option.splits)
qed simp

lemma header_format_spec:
  "result_option (header_format p ls err) = declared_format ls (err \<noteq> None)"
proof (cases ls)
  case (Cons l rest)
  show ?thesis
  proof (cases "l = ''# v3 git bundle''")
    case True
    have "result_option (header_format p ls err) =
        (case scan_caps p rest of Some r \<Rightarrow> result_option r | None \<Rightarrow> if err \<noteq> None then None else Some ''sha1'')"
      unfolding Cons True by (simp add: header_format_def result_option_def split: option.split)
    then show ?thesis unfolding scan_caps_spec by (simp add: declared_format_def Cons True split: option.split)
  qed (simp add: header_format_def declared_format_def result_option_def Cons)
qed (simp add: header_format_def declared_format_def result_option_def split: option.split)

text \<open>
  The object format a restore uses is the one the bundle declares, and anything else fails closed: on a
  readable file the header parser accepts exactly a v2 signature, or a v3 signature whose first
  object-format capability before the first blank line, if there is one, is \<open>sha1\<close> or \<open>sha256\<close>; ref lines,
  other capabilities and the binary pack never change the answer.
\<close>

theorem bundleObjectFormat_spec:
  assumes "faults w = []" "lookup (tree w) path = Some (File data s)" "run_state (bundleObjectFormat path) w = (r, w')"
  shows "w' = w \<and> result_option r = declared_format (fst (scan_lines data)) (snd (scan_lines data))"
proof -
  have "run_state (bundleObjectFormat path) w = (header_format path (fst (scan_read data None)) (snd (scan_read data None)), w)"
    using assms(1,2) by (simp add: bundleObjectFormat_def os_Open_def file_Scan_def file_Close_def)
  then show ?thesis using assms(3) header_format_spec [of path "fst (scan_read data None)" "snd (scan_read data None)"]
    by (auto simp: scan_read_def split: prod.splits)
qed

section \<open>Facts: keys and listings\<close>

context object_store
begin

lemma mirror_list:
  assumes "mir_store m = store"
  shows "wp (Mirror_List m r) (\<lambda>x w'. same_host w w' \<and> objs w' = objs w \<and> (\<forall>ks. x = Ok ks \<longrightarrow>
     ValidName r \<and> sorted ks \<and> distinct ks \<and> set ks = {k. objs w k \<noteq> None \<and> HasPrefix k (repo_prefix m r)})) w"
  unfolding Mirror_List_def wp_if wp_bind assms
  by (auto intro!: wp_mono [OF list_law] split: sum.split)

lemma delete_keys:
  assumes "mir_store m = store"
  shows "wp (delete_loop m r ks) (\<lambda>x w'. same_host w w' \<and> (\<forall>k. k \<notin> set ks \<longrightarrow> objs w' k = objs w k)
     \<and> (x = Ok () \<longrightarrow> (\<forall>k \<in> set ks. objs w' k = None))) w"
proof (induction ks arbitrary: w)
  case (Cons k ks)
  show ?case
    unfolding delete_loop.simps wp_bind assms
  proof (rule wp_mono [OF delete_law], goal_cases)
    case (1 x w1)
    then show ?case
      by (cases x) (auto intro!: wp_mono [OF Cons.IH] dest: same_host_trans)
  qed
qed simp

lemma mirror_delete:
  assumes "mir_store m = store"
  shows "wp (Mirror_Delete m r) (\<lambda>x w'. same_host w w' \<and> (\<forall>k. \<not> HasPrefix k (repo_prefix m r) \<longrightarrow> objs w' k = objs w k)
     \<and> (x = Ok () \<longrightarrow> ValidName r \<and> (\<forall>k. HasPrefix k (repo_prefix m r) \<longrightarrow> objs w' k = None))) w"
  unfolding Mirror_Delete_def wp_bind
proof (rule wp_mono [OF mirror_list [OF assms]], goal_cases)
  case (1 x w1)
  show ?case
  proof (cases x)
    case (Inr ks)
    with 1 show ?thesis
      unfolding Inr sum.case by (intro wp_mono [OF delete_keys [OF assms]])
        (auto dest: same_host_trans, metis not_Some_eq)
  qed (use 1 in simp)
qed

lemma list_all_repos:
  assumes "mir_store m = store" "run_state (ListAllRepos m) w = (Ok repos, w1)" "run_state (Mirror_List m r) w = (Ok ks, w2)"
  shows "map_of repos r = (if ks = [] then None else Some ks)"
proof -
  have "wp (ListAllRepos m) (\<lambda>x w'. \<forall>rs. x = Ok rs \<longrightarrow> (\<exists>all. sorted all \<and> distinct all
      \<and> set all = {k. objs w k \<noteq> None \<and> HasPrefix k (mir_prefix m @ ''/'')} \<and> group_keys m all [] = Ok rs)) w"
    unfolding ListAllRepos_def wp_bind assms(1) by (rule wp_mono [OF list_law]) (auto split: sum.split)
  from wp_run [OF this assms(2)] obtain all where a: "sorted all" "distinct all"
    "set all = {k. objs w k \<noteq> None \<and> HasPrefix k (mir_prefix m @ ''/'')}" "group_keys m all [] = Ok repos" by auto
  have k: "ValidName r" "sorted ks" "distinct ks" "set ks = {k. objs w k \<noteq> None \<and> HasPrefix k (repo_prefix m r)}"
    using wp_run [OF mirror_list [OF assms(1)] assms(3)] by auto
  let ?f = "filter (\<lambda>k. repoNameFromKey m k = Some r) all"
  have "set ?f = set ks" using a(3) k(1,4) by (auto simp: repoNameFromKey_iff HasPrefix_iff)
  then have "?f = ks" using a(1,2) k(2,3) by (intro sorted_distinct_set_unique) (auto simp: sorted_wrt_filter)
  moreover from group_keys_spec [OF a(4)] have "map_of repos r = (case ?f of [] \<Rightarrow> None | kr \<Rightarrow> Some kr)"
    by (auto split: list.split)
  ultimately show ?thesis by (simp split: list.split)
qed

end

text \<open>The bytes of a bundle: what git left in the file it was told to create, when it exited with success.\<close>

definition bundle_of :: "git_prog \<Rightarrow> Mirror \<Rightarrow> string \<Rightarrow> bytes \<Rightarrow> bool" where
  "bundle_of git m r data \<longleftrightarrow> (\<exists>tmp t s. case git ((Git (mir_git m) [''bundle'', ''create'', tmp, ''--all''])
       \<lparr>cmd_dir := Join [mir_reposRoot m, r @ ''.git'']\<rparr>) t of
     (rep, t') \<Rightarrow> cmd_error rep = None \<and> lookup t' tmp = Some (File data s))"

context object_store
begin

lemma keeps_objs: "keeps objects m \<Longrightarrow> keeps objs m"
  unfolding keeps_def by (blast intro: objs_cong)

lemma objs_same_files: "same_files w w' \<Longrightarrow> objs w' = objs w"
  by (rule objs_cong) (simp add: same_files_fields)

text \<open>A successful upload stores the bundle under the new key; no other object changes.\<close>

definition uploaded :: "git_prog \<Rightarrow> Mirror \<Rightarrow> time \<Rightarrow> string \<Rightarrow> world \<Rightarrow> BundleResult result \<Rightarrow> world \<Rightarrow> bool" where
  "uploaded git m now r w x w' \<longleftrightarrow> (\<forall>k. k \<noteq> bundleKey m r now \<longrightarrow> objs w' k = objs w k)
     \<and> (\<forall>b. x = Ok b \<longrightarrow> Uploaded b \<longrightarrow> (\<exists>data. bundle_of git m r data \<and> objs w' (bundleKey m r now) = Some data))"

lemma uploaded_fail: "objs w1 = objs w \<Longrightarrow> uploaded git m now r w (Fail e) w1"
  by (simp add: uploaded_def)

lemma uploaded_cong: "objs w1 = objs w \<Longrightarrow> uploaded git m now r w1 x w2 \<Longrightarrow> uploaded git m now r w x w2"
  "objs w3 = objs w2 \<Longrightarrow> uploaded git m now r w x w2 \<Longrightarrow> uploaded git m now r w x w3"
  by (simp_all add: uploaded_def)

lemma upload_put:
  assumes "mir_store m = store" "bundle_of git m r data" "objs w1 = objs w"
  shows "wp (obj_Put (mir_store m) (bundleKey m r now) data \<bind> (\<lambda>rp. return (case rp of
        Inl e \<Rightarrow> Fail (f e) | Inr _ \<Rightarrow> Ok \<lparr>Uploaded = True, Reason = []\<rparr>))) (uploaded git m now r w) w1"
  unfolding assms(1) wp_bind
  by (rule wp_mono [OF put_law]) (use assms in \<open>auto simp: uploaded_def split: sum.split\<close>)

lemma upload_spec:
  assumes "mir_store m = store"
  shows "wp (bundle_upload git m now r (Join [mir_reposRoot m, r @ ''.git'']) tmp) (uploaded git m now r w) w"
proof -
  let ?c = "(Git (mir_git m) [''bundle'', ''create'', tmp, ''--all''])\<lparr>cmd_dir := Join [mir_reposRoot m, r @ ''.git'']\<rparr>"
  obtain rep t where g: "git ?c (tree w) = (rep, t)" by fastforce
  have c: "(command (mir_git m) (gitBin (mir_git m)) [''bundle'', ''create'', tmp, ''--all''])\<lparr>cmd_dir := Join [mir_reposRoot m, r @ ''.git'']\<rparr> = ?c"
    by (simp add: Git_def)
  define w1 where "w1 = w\<lparr>tree := t, execs := ?c # execs w, journal := (t, durable w) # journal w\<rparr>"
  have o1: "objs w1 = objs w" by (rule objs_cong) (simp add: w1_def)
  have b: "bundle_of git m r data" if "lookup (tree w1) tmp = Some (File data s)" "cmd_error rep = None" for data s
    unfolding bundle_of_def using that g by (intro exI [of _ tmp] exI [of _ "tree w"] exI [of _ s]) (simp add: w1_def)
  show ?thesis
  proof (cases "cmd_error rep")
    case None
    show ?thesis
      unfolding bundle_upload_def RunIn_def runner_run_def wp_bind [of "exec_cmd _ _ \<bind> _"] wp_bind [of "exec_cmd _ _"] wp_exec_cmd c g prod.case
        wp_return w1_def [symmetric] None option.case sum.case wp_bind [of "os_ReadFile _"]
    proof (rule wp_os_ReadFile, goal_cases)
      case (1 x w2)
      then have "objs w2 = objs w" using objs_same_files o1 by metis
      with 1 None b show ?case
        by (cases x) (auto simp only: sum.case wp_return intro!: upload_put [OF assms] uploaded_fail)
    qed
  next
    case (Some e)
    then show ?thesis
      unfolding bundle_upload_def RunIn_def runner_run_def wp_bind wp_exec_cmd c g prod.case wp_return w1_def [symmetric]
      using o1 by (simp add: Let_def uploaded_fail)
  qed
qed

lemma create_temp_spec:
  assumes "mir_store m = store"
  shows "wp (os_CreateTemp d a c \<bind> (\<lambda>rt. case rt of
        Inl e \<Rightarrow> return (Fail (f e))
      | Inr tmp \<Rightarrow> do {
          _ \<leftarrow> file_Close tmp;
          x \<leftarrow> bundle_upload git m now r (Join [mir_reposRoot m, r @ ''.git'']) tmp;
          _ \<leftarrow> remove_quietly tmp;
          return x })) (uploaded git m now r w) w" (is "wp (_ \<bind> ?rest) _ _")
proof -
  have tail: "wp (remove_quietly p \<bind> (\<lambda>_. return x)) (uploaded git m now r w) w1" if "uploaded git m now r w x w1" for p x w1
    unfolding wp_bind by (rule wp_keeps [where f = objs], intro keeps_objs frame) (use that in \<open>auto elim: uploaded_cong\<close>)
  have up: "wp (bundle_upload git m now r (Join [mir_reposRoot m, r @ ''.git'']) tmp \<bind> (\<lambda>x. remove_quietly tmp \<bind> (\<lambda>_. return x)))
      (uploaded git m now r w) w1" if "objs w1 = objs w" for tmp w1
    unfolding wp_bind [of "bundle_upload _ _ _ _ _ _"]
    by (rule wp_mono [OF upload_spec [OF assms]]) (rule tail, rule uploaded_cong(1) [OF that])
  have "wp (?rest x) (uploaded git m now r w) w1" if "objs w1 = objs w" for x w1
  proof (cases x)
    case (Inr tmp)
    show ?thesis
      unfolding Inr sum.case wp_bind [of "file_Close _"]
      by (rule wp_keeps [where f = objs], intro keeps_objs frame) (use that up in simp)
  qed (simp add: that uploaded_fail)
  then show ?thesis
    unfolding wp_bind [of "os_CreateTemp _ _ _"] by (rule wp_keeps [where f = objs, rotated]) (assumption, intro keeps_objs frame)
qed

lemma create_spec:
  assumes "mir_store m = store"
  shows "wp (CreateBundle git m now r) (uploaded git m now r w) w"
proof (cases "ValidName r")
  case True
  have t: "wp (if TrimSpace refs = [] then return (Ok \<lparr>Uploaded = False, Reason = ''no refs''\<rparr>) else m') (uploaded git m now r w) w1"
    if "objs w1 = objs w" "wp m' (uploaded git m now r w1) w1" for refs m' w1
    using that by (auto simp: uploaded_def elim!: wp_mono)
  show ?thesis
    unfolding CreateBundle_def Let_def wp_bind [of "RunIn _ _ _ _"] if_not_P [of "\<not> ValidName r", OF not_not [THEN iffD2, OF True]]
    by (rule wp_keeps [where f = objs], intro keeps_objs frame)
      (auto simp only: wp_return uploaded_fail split: sum.split intro!: t create_temp_spec [OF assms])
qed (simp add: CreateBundle_def uploaded_def)

lemma latest_spec:
  assumes "mir_store m = store" "objs w k = Some data" "HasPrefix k (repo_prefix m r)"
    and "\<And>k'. objs w k' \<noteq> None \<Longrightarrow> HasPrefix k' (repo_prefix m r) \<Longrightarrow> k' \<le> k"
  shows "wp (LatestBundle m r) (\<lambda>x w'. same_host w w' \<and> objs w' = objs w \<and> (\<forall>d. x = Ok d \<longrightarrow> d = data)) w"
proof -
  have g: "wp (obj_Get store k) (\<lambda>rg. wp (return (case rg of Inl e \<Rightarrow> Fail (f e) | Inr d \<Rightarrow> Ok d))
      (\<lambda>x w'. same_host w w' \<and> objs w' = objs w \<and> (\<forall>d. x = Ok d \<longrightarrow> d = data))) w1"
    if "same_host w w1" "objs w1 = objs w" for w1 f
    using that assms(2) by (intro wp_mono [OF get_law]) (auto split: sum.split dest: same_host_trans)
  have "wp (Mirror_List m r) (\<lambda>x w1. same_host w w1 \<and> objs w1 = objs w \<and> (\<forall>ks. x = Ok ks \<longrightarrow> ks \<noteq> [] \<and> last ks = k)) w"
  proof (rule wp_mono [OF mirror_list [OF assms(1)]], intro conjI allI impI)
    fix x w1 ks
    assume h: "same_host w w1 \<and> objs w1 = objs w \<and> (\<forall>ks. x = Ok ks \<longrightarrow> ValidName r \<and> sorted ks \<and> distinct ks
      \<and> set ks = {k. objs w k \<noteq> None \<and> HasPrefix k (repo_prefix m r)})" and x: "x = Ok ks"
    then have ks: "sorted ks" "k \<in> set ks" "\<And>k'. k' \<in> set ks \<Longrightarrow> k' \<le> k" using assms(2-4) by auto
    then have "k \<le> last ks" "ks \<noteq> []" using sorted_last_greatest by auto
    with ks show "ks \<noteq> []" "last ks = k" by (auto intro!: antisym)
  qed auto
  then show ?thesis
    unfolding LatestBundle_def wp_if wp_bind assms(1)
    by (auto split: sum.split simp: wp_bind elim!: wp_mono intro!: g)
qed

end

lemma run_LatestBundle_memory:
  assumes "mir_store m = MemoryStore" "ValidName r" "map_of (objects w) k = Some data" "HasPrefix k (repo_prefix m r)"
    and "\<And>k'. map_of (objects w) k' \<noteq> None \<Longrightarrow> HasPrefix k' (repo_prefix m r) \<Longrightarrow> k' \<le> k"
  shows "run_state (LatestBundle m r) w = (Ok data, w)"
proof -
  let ?ks = "listed_keys (objects w) (repo_prefix m r)"
  have l: "run_state (obj_List MemoryStore (repo_prefix m r)) w = (Ok ?ks, w)"
    by (simp add: MemoryStore_def Memory_List_def)
  from mem.list_last [OF this _ assms(4,5)] assms(3) have "?ks \<noteq> []" "last ?ks = k" by auto
  with assms(1-3) l show ?thesis
    by (simp add: LatestBundle_def Mirror_List_def) (simp add: MemoryStore_def Memory_Get_def)
qed


section \<open>Facts: restore\<close>

definition dest_gone :: "string \<Rightarrow> world \<Rightarrow> bool" where
  "dest_gone dest w \<longleftrightarrow> (\<forall>q. below dest q \<longrightarrow> lookup (tree w) q = None)"

definition fetch_init :: "Mirror \<Rightarrow> string \<Rightarrow> cmd \<Rightarrow> bool" where
  "fetch_init m dest c \<longleftrightarrow> (\<exists>format. c = Git (mir_git m) [''init'', ''--bare'', ''--object-format='' @ format, dest])"

text \<open>A failed restore: no git ran, or only an init that failed, or nothing is left at the destination.\<close>

definition fetch_clean :: "Mirror \<Rightarrow> string \<Rightarrow> world \<Rightarrow> unit result \<Rightarrow> world \<Rightarrow> bool" where
  "fetch_clean m dest w x w' \<longleftrightarrow> (\<exists>u. x = Inr u) \<or> execs w' = execs w
     \<or> (\<exists>c. execs w' = c # execs w \<and> fetch_init m dest c) \<or> dest_gone dest w'"

lemma below_root: "clean_root dest \<Longrightarrow> \<not> below dest ''/''"
  using clean_root_nonempty [of dest] by (cases dest) (auto simp: below_def clean_root_def HasPrefix_iff)

lemma wp_RemoveAll_gone:
  assumes "faults w = []" "clean_root dest" "\<And>w'. dest_gone dest w' \<Longrightarrow> faults w' = [] \<Longrightarrow> Q (Ok ()) w'"
  shows "wp (os_RemoveAll dest) Q w"
proof -
  have "lookup (filter (\<lambda>(q, n). \<not> below dest q) (tree w)) q = None" if "below dest q" for q
    using that lookup_filter [of "\<lambda>q. \<not> below dest q" "tree w" q] below_root [OF assms(2)] by simp
  with assms show ?thesis by (simp add: wp_def os_RemoveAll_def dest_gone_def)
qed

lemma wp_remove_quietly_gone:
  assumes "fetch_clean m dest w0 x w" "\<And>w'. fetch_clean m dest w0 x w' \<Longrightarrow> Q () w'"
  shows "wp (remove_quietly p) Q w"
proof -
  have d: "dest_gone dest (w\<lparr>faults := fs, tree := AList.delete p (tree w), journal := j\<rparr>)" if "dest_gone dest w" for fs j
    using that by (cases "p = ''/''") (auto simp: dest_gone_def lookup_def delete_conv')
  show ?thesis
    unfolding remove_quietly_def os_Remove_def wp_bind
    by (rule wp_syscall)
      (use assms(1) d in \<open>auto simp: wp_simps fetch_clean_def dest_gone_def split: option.split intro!: assms(2) [unfolded fetch_clean_def]\<close>)
qed

lemma starts_nothing_header [frame]:
  "starts_nothing (bundleObjectFormat p)" "quiet (bundleObjectFormat p)"
  unfolding bundleObjectFormat_def by (intro frame)+

lemma download_frame [frame]:
  "mir_store m = MemoryStore \<Longrightarrow> starts_nothing (download m k)" "mir_store m = MemoryStore \<Longrightarrow> quiet (download m k)"
  "mir_store m = MemoryStore \<Longrightarrow> starts_nothing (Mirror_List m r)" "mir_store m = MemoryStore \<Longrightarrow> quiet (Mirror_List m r)"
  unfolding download_def Mirror_List_def by (simp_all only:) (intro frame)+

lemma quiet_update_refs [frame]: "quiet (update_refs git m dest ls b)"
  by (induction ls arbitrary: b) (auto split: list.split intro!: frame)

lemma quiet_fill [frame]: "quiet (Mirror_unbundle git m dest p)" "quiet (fill_dest git m r dest k p)"
proof -
  show u: "quiet (Mirror_unbundle git m dest p)" unfolding Mirror_unbundle_def by (intro frame)
  show "quiet (fill_dest git m r dest k p)" unfolding fill_dest_def by (intro frame u)
qed

lemma restore_bundle_clean:
  assumes "faults w = []" "clean_root dest"
  shows "wp (restore_bundle git m r dest k p) (fetch_clean m dest w) w"
proof -
  have fill: "wp (fill_dest git m r dest k p \<bind> (\<lambda>x. case x of Inl e \<Rightarrow> os_RemoveAll dest \<bind> (\<lambda>_. return (Fail e)) | Inr _ \<Rightarrow> return (Ok ())))
      (fetch_clean m dest w) w1" if "faults w1 = []" for w1
    unfolding wp_bind [of "fill_dest _ _ _ _ _ _"]
    by (rule wp_quiet) (use that assms(2) in \<open>auto simp: wp_bind fetch_clean_def split: sum.split intro!: frame wp_RemoveAll_gone\<close>)
  have init: "wp (Run git (mir_git m) [''init'', ''--bare'', ''--object-format='' @ f, dest] \<bind> (\<lambda>ri. case ri of
        Inl e \<Rightarrow> return (Fail (g e))
      | Inr _ \<Rightarrow> fill_dest git m r dest k p \<bind> (\<lambda>x. case x of Inl e \<Rightarrow> os_RemoveAll dest \<bind> (\<lambda>_. return (Fail e)) | Inr _ \<Rightarrow> return (Ok ()))))
      (fetch_clean m dest w) w1" if "faults w1 = []" "execs w1 = execs w" for w1 f g
    unfolding wp_bind [of "Run _ _ _"]
  proof (rule wp_Run_quiet [OF that(1)], goal_cases)
    case (1 x w2)
    then show ?case using that(2) fill by (cases x) (auto simp: fetch_clean_def fetch_init_def)
  qed
  show ?thesis
    unfolding restore_bundle_def wp_bind [of "bundleObjectFormat _"]
  proof (rule wp_quiet_nothing, (intro frame)+, rule assms(1), goal_cases)
    case (1 x w1)
    then show ?case using init by (cases x) (auto simp: fetch_clean_def)
  qed
qed

lemma Fetch_clean:
  assumes "faults w = []" "mir_store m = MemoryStore" "clean_root dest"
  shows "wp (Fetch git m r dest) (fetch_clean m dest w) w"
proof -
  have ret: "fetch_clean m dest w x w1" if "execs w1 = execs w" for x w1 using that by (simp add: fetch_clean_def)
  have cong: "fetch_clean m dest w x w2" if "execs w1 = execs w" "fetch_clean m dest w1 x w2" for x w1 w2
    using that by (simp add: fetch_clean_def)
  have restore: "wp (restore_bundle git m r dest k p \<bind> (\<lambda>x. remove_quietly p \<bind> (\<lambda>_. return x))) (fetch_clean m dest w) w1"
    if "faults w1 = []" "execs w1 = execs w" for k p w1
    unfolding wp_bind
    by (rule wp_mono [OF restore_bundle_clean [OF that(1) assms(3)]])
      (auto intro!: wp_remove_quietly_gone elim: cong [OF that(2)])
  note step = wp_quiet_nothing [where Q = "\<lambda>x. wp (_ x) (fetch_clean m dest w)"]
  have down: "wp (download m k \<bind> (\<lambda>rd. case rd of Inl e \<Rightarrow> return (Fail e)
      | Inr p \<Rightarrow> restore_bundle git m r dest k p \<bind> (\<lambda>x. remove_quietly p \<bind> (\<lambda>_. return x)))) (fetch_clean m dest w) w1"
    if "faults w1 = []" "execs w1 = execs w" for k w1
    unfolding wp_bind [of "download _ _"]
    by (rule step, (intro frame assms(2))+, rule that) (auto simp: that ret split: sum.split intro!: restore)
  have lst: "wp (Mirror_List m r \<bind> (\<lambda>rl. case rl of Inl e \<Rightarrow> return (Fail e)
      | Inr keys \<Rightarrow> if keys = [] then return (Fail (f keys)) else g keys)) (fetch_clean m dest w) w1"
    if "faults w1 = []" "execs w1 = execs w" "\<And>keys w2. faults w2 = [] \<Longrightarrow> execs w2 = execs w \<Longrightarrow> wp (g keys) (fetch_clean m dest w) w2" for f g w1
    unfolding wp_bind [of "Mirror_List _ _"]
    by (rule step, (intro frame assms(2))+, rule that) (auto simp: that ret split: sum.split)
  have mk: "wp (os_MkdirAll d \<bind> (\<lambda>rm. case rm of Inl e \<Rightarrow> return (Fail (f e)) | Inr _ \<Rightarrow> g)) (fetch_clean m dest w) w1"
    if "faults w1 = []" "execs w1 = execs w" "\<And>w2. faults w2 = [] \<Longrightarrow> execs w2 = execs w \<Longrightarrow> wp g (fetch_clean m dest w) w2" for d f g w1
    unfolding wp_bind [of "os_MkdirAll _"]
    by (rule step, (intro frame)+, rule that) (auto simp: that ret split: sum.split)
  show ?thesis
  proof (cases "ValidName r")
    case True
    show ?thesis
      unfolding Fetch_def if_not_P [of "\<not> ValidName r", OF not_not [THEN iffD2, OF True]] wp_bind [of "os_Stat _"]
      by (rule step, (intro frame)+, rule assms) (auto simp: ret split: sum.split intro!: mk lst down)
  qed (simp add: Fetch_def ret)
qed



text \<open>
  The one-call listing agrees with the listings it replaces: when \<open>ListAllRepos\<close> succeeds, it maps each
  repository name to exactly the keys, in the order, that \<open>List\<close> returns for it, and a repository without
  bundles is absent.
\<close>

theorem ListAllRepos_agrees:
  assumes "mir_store m = MemoryStore" "run_state (ListAllRepos m) w = (Inr repos, w1)"
    and "run_state (Mirror_List m r) w = (Inr ks, w2)"
  shows "map_of repos r = (if ks = [] then None else Some ks)"
  by (rule mem.list_all_repos [OF assms])

section \<open>Concrete runs\<close>

definition sample_mirror :: Mirror where
  "sample_mirror = Mirror_New MemoryStore \<lparr>gitBin = ''git'', runner_home = ''/h'', runner_path = ''/bin'', objectFormat = []\<rparr>
     ''/srv'' ''repos'' ''/w''"

definition mirror_world :: "(string \<times> bytes) list \<Rightarrow> world" where
  "mirror_world ob = \<lparr>tree = [(''/w'', Directory), (''/srv'', Directory), (''/srv/a.git'', Directory)], durable = [], faults = [],
     entropy = [''1'', ''2''], cwd = ''/'', execs = [], journal = [], written = [], objects = ob\<rparr>"

text \<open>A git that lists one ref, bundles, and initialises, and fails at everything else.\<close>

definition bundling_git :: git_prog where
  "bundling_git c t =
     (let ok = (\<lambda>s. \<lparr>out = s, err_out = [], exit_status = Exited 0\<rparr>); a = cmd_args c in
      if a = [''for-each-ref'', ''--format=%(refname)''] then (ok ''refs/heads/main'', t)
      else if take 2 a = [''bundle'', ''create''] then (ok [], AList.update (a ! 2) (File (''# v2 git bundle'' @ [newline_char]) False) t)
      else if hd a = ''init'' then (ok [], AList.update (last a) Directory t)
      else (\<lparr>out = [], err_out = ''no'', exit_status = Exited 1\<rparr>, t))"

definition bundle_time :: time where "bundle_time = \<lparr>t_ns = 63950000000 * nsec, t_off = 0\<rparr>"

lemmas sample_mirror_simps = sample_mirror_def Mirror_New_def mirror_world_def

lemma sample_mirror_store: "mir_store sample_mirror = MemoryStore"
  by (simp add: sample_mirror_simps)


theorem bundleObjectFormat_spec_witness:
  "(let w = (mirror_world [])\<lparr>tree := [(''/w/b'', File (''# v3 git bundle'' @ newline_char # ''@object-format=sha256'' @ [newline_char]) True)]\<rparr>
    in fst (run_state (bundleObjectFormat ''/w/b'') w) = Inr ''sha256'')"
proof -
  let ?d = "''# v3 git bundle'' @ newline_char # ''@object-format=sha256'' @ [newline_char]"
  let ?w = "(mirror_world [])\<lparr>tree := [(''/w/b'', File ?d True)]\<rparr>"
  have f: "faults ?w = []" "lookup (tree ?w) ''/w/b'' = Some (File ?d True)" by code_simp+
  have "declared_format (fst (scan_lines ?d)) (snd (scan_lines ?d)) = Some ''sha256''" by code_simp
  with bundleObjectFormat_spec [OF f run_result [OF refl]]
  have "result_option (fst (run_state (bundleObjectFormat ''/w/b'') ?w)) = Some ''sha256''" by simp
  then show ?thesis by (simp add: result_option_def split: sum.splits)
qed



theorem ListAllRepos_agrees_witness:
  "\<exists>repos w1 w2. run_state (ListAllRepos sample_mirror) (mirror_world [(''repos/a/1.bundle'', ''x'')]) = (Inr repos, w1)
     \<and> run_state (Mirror_List sample_mirror ''a'') (mirror_world [(''repos/a/1.bundle'', ''x'')]) = (Inr [''repos/a/1.bundle''], w2)
     \<and> map_of repos ''a'' = Some [''repos/a/1.bundle'']"
proof -
  let ?w = "mirror_world [(''repos/a/1.bundle'', ''x'')]"
  have l: "fst (run_state (ListAllRepos sample_mirror) ?w) = Inr [(''a'', [''repos/a/1.bundle''])]" by code_simp
  have k: "fst (run_state (Mirror_List sample_mirror ''a'') ?w) = Inr [''repos/a/1.bundle'']" by code_simp
  from ListAllRepos_agrees [OF sample_mirror_store run_result [OF l] run_result [OF k]] run_result [OF l] run_result [OF k]
  show ?thesis by auto
qed

end
