(* ===== verification/Go_Json.thy ===== *)
theory Go_Json
  imports Go_Path
begin

text \<open>
  Go's \<open>encoding/json\<close>, as far as gitd uses it: the text that \<open>Marshal\<close> prints (with its HTML
  escaping), the scanner and string unquoting of \<open>Decoder\<close> and \<open>Unmarshal\<close>, and the assignment of an
  object's members to the fields of a struct, with \<open>DisallowUnknownFields\<close>, case folding, \<open>null\<close> and
  repeated members. All failures of a decode are one value (\<open>None\<close>): gitd never looks at the kind.
  Recursion is bounded by twice the length of the text, which is enough for every input since each two
  nested calls have consumed at least one byte: more fuel never changes a result (\<open>json_value_fuel\<close>).
\<close>

section \<open>Integers as text\<close>

text \<open>\<open>strconv.ParseInt(s, 10, 64)\<close> on a JSON number literal.\<close>

definition parse_int64 :: "string \<Rightarrow> int option" where
  "parse_int64 s =
     (let neg = s \<noteq> [] \<and> hd s = CHR ''-''; ds = (if neg then tl s else s);
          v = (if neg then - int (dec_value ds) else int (dec_value ds))
      in if ds \<noteq> [] \<and> list_all is_digit ds \<and> - (2 ^ 63) \<le> v \<and> v < 2 ^ 63 then Some v else None)"

section \<open>Strings\<close>

definition utf8 :: "nat \<Rightarrow> string" where
  "utf8 x =
     (if x < 128 then [char_of x]
      else if x < 2048 then [char_of (192 + x div 64), char_of (128 + x mod 64)]
      else if x < 65536 then [char_of (224 + x div 4096), char_of (128 + x div 64 mod 64), char_of (128 + x mod 64)]
      else [char_of (240 + x div 262144), char_of (128 + x div 4096 mod 64), char_of (128 + x div 64 mod 64),
            char_of (128 + x mod 64)])"

definition replacement :: string where
  "replacement = [CHR 0xEF, CHR 0xBF, CHR 0xBD]"

definition unicode_escape :: "nat \<Rightarrow> string" where
  "unicode_escape x =
     [backslash_char, CHR ''u'', hex_digit (x div 4096 mod 16), hex_digit (x div 256 mod 16),
      hex_digit (x div 16 mod 16), hex_digit (x mod 16)]"

definition quote_ascii :: "char \<Rightarrow> string" where
  "quote_ascii c =
     (if c = dquote_char \<or> c = backslash_char then [backslash_char, c]
      else if code c = 8 then [backslash_char, CHR ''b'']
      else if code c = 12 then [backslash_char, CHR ''f'']
      else if c = newline_char then [backslash_char, CHR ''n'']
      else if c = return_char then [backslash_char, CHR ''r'']
      else if c = tab_char then [backslash_char, CHR ''t'']
      else if code c < 32 \<or> c = CHR ''<'' \<or> c = CHR ''>'' \<or> c = CHR ''&'' then unicode_escape (code c)
      else [c])"

function quote_body :: "string \<Rightarrow> string" where
  "quote_body s =
     (if s = [] then []
      else if code (hd s) < 128 then quote_ascii (hd s) @ quote_body (tl s)
      else let n = valid_rune s in
        if n = 0 then unicode_escape 65533 @ quote_body (tl s)
        else if take n s = utf8 8232 then unicode_escape 8232 @ quote_body (drop n s)
        else if take n s = utf8 8233 then unicode_escape 8233 @ quote_body (drop n s)
        else take n s @ quote_body (drop n s))"
  by pat_completeness auto
termination by (relation "measure length") auto

declare quote_body.simps [simp del]

definition quote_string :: "string \<Rightarrow> string" where
  "quote_string s = dquote_char # quote_body s @ [dquote_char]"

definition hex_val :: "char \<Rightarrow> nat option" where
  "hex_val c =
     (if is_digit c then Some (code c - 48)
      else if 97 \<le> code c \<and> code c \<le> 102 then Some (code c - 87)
      else if 65 \<le> code c \<and> code c \<le> 70 then Some (code c - 55)
      else None)"

definition hex4 :: "string \<Rightarrow> nat option" where
  "hex4 s =
     (case s of
        a # b # c # d # _ \<Rightarrow>
          (case (hex_val a, hex_val b, hex_val c, hex_val d) of
             (Some w, Some x, Some y, Some z) \<Rightarrow> Some (4096 * w + 256 * x + 16 * y + z)
           | _ \<Rightarrow> None)
      | _ \<Rightarrow> None)"

definition escape_char :: "char \<Rightarrow> char option" where
  "escape_char e =
     (if e = dquote_char \<or> e = backslash_char \<or> e = slash then Some e
      else if e = CHR ''b'' then Some (char_of (8 :: nat))
      else if e = CHR ''f'' then Some (char_of (12 :: nat))
      else if e = CHR ''n'' then Some newline_char
      else if e = CHR ''r'' then Some return_char
      else if e = CHR ''t'' then Some tab_char
      else None)"

definition low_surrogate :: "string \<Rightarrow> nat option" where
  "low_surrogate s =
     (if HasPrefix s [backslash_char, CHR ''u'']
      then (case hex4 (drop 2 s) of Some y \<Rightarrow> if 56320 \<le> y \<and> y < 57344 then Some y else None | None \<Rightarrow> None)
      else None)"

text \<open>The body of a string literal up to its closing quote: the decoded bytes and the rest.\<close>

definition prepend :: "string \<Rightarrow> (string \<times> 'a) option \<Rightarrow> (string \<times> 'a) option" where
  "prepend p r = (case r of None \<Rightarrow> None | Some (s, t) \<Rightarrow> Some (p @ s, t))"

function unquote :: "string \<Rightarrow> (string \<times> string) option" where
  "unquote [] = None"
| "unquote (c # s) =
     (if c = dquote_char then Some ([], s)
      else if c = backslash_char then
        (if s = [] then None
         else if hd s = CHR ''u'' then
           (case hex4 (tl s) of
              None \<Rightarrow> None
            | Some x \<Rightarrow>
                if 55296 \<le> x \<and> x < 57344 then
                  (case (if x < 56320 then low_surrogate (drop 5 s) else None) of
                     Some y \<Rightarrow> prepend (utf8 (65536 + 1024 * (x - 55296) + (y - 56320))) (unquote (drop 11 s))
                   | None \<Rightarrow> prepend replacement (unquote (drop 5 s)))
                else prepend (utf8 x) (unquote (drop 5 s)))
         else (case escape_char (hd s) of None \<Rightarrow> None | Some d \<Rightarrow> prepend [d] (unquote (tl s))))
      else if code c < 32 then None
      else if code c < 128 then prepend [c] (unquote s)
      else prepend (rune_at (c # s)) (unquote (drop (rune_len (c # s) - 1) s)))"
  by pat_completeness auto
termination by (relation "measure length") auto

declare unquote.simps(2) [simp del]

section \<open>Values\<close>

datatype json = JNull | JBool bool | JNum string | JStr string | JArr "json list" | JObj "(string \<times> json) list"

definition json_space :: "char \<Rightarrow> bool" where
  "json_space c \<longleftrightarrow> c = CHR '' '' \<or> c = tab_char \<or> c = newline_char \<or> c = return_char"

definition skip_ws :: "string \<Rightarrow> string" where
  "skip_ws s = dropWhile json_space s"

definition digits_of :: "string \<Rightarrow> string \<times> string" where
  "digits_of s = (takeWhile is_digit s, dropWhile is_digit s)"

text \<open>The optional fraction and exponent of a number, each \<open>None\<close> when it starts and is incomplete.\<close>

definition scan_frac :: "string \<Rightarrow> (string \<times> string) option" where
  "scan_frac s =
     (case s of
        c # t \<Rightarrow> if c = CHR ''.'' then
            (case digits_of t of (ds, r) \<Rightarrow> if ds = [] then None else Some (c # ds, r))
          else Some ([], s)
      | [] \<Rightarrow> Some ([], []))"

definition scan_exp :: "string \<Rightarrow> (string \<times> string) option" where
  "scan_exp s =
     (case s of
        c # t \<Rightarrow> if c = CHR ''e'' \<or> c = CHR ''E'' then
            (let sg = (if t \<noteq> [] \<and> (hd t = CHR ''+'' \<or> hd t = CHR ''-'') then [hd t] else []);
                 u = (if sg = [] then t else tl t)
             in case digits_of u of (ds, r) \<Rightarrow> if ds = [] then None else Some (c # sg @ ds, r))
          else Some ([], s)
      | [] \<Rightarrow> Some ([], []))"

definition scan_num :: "string \<Rightarrow> (string \<times> string) option" where
  "scan_num s =
     (let neg = s \<noteq> [] \<and> hd s = CHR ''-''; t = (if neg then tl s else s) in
      case digits_of t of
        (ds, r) \<Rightarrow>
          if ds = [] then None
          else let (int_part, r0) = (if hd ds = CHR ''0'' then (''0'', tl t) else (ds, r)) in
            (case scan_frac r0 of
               None \<Rightarrow> None
             | Some (f, r1) \<Rightarrow>
                 (case scan_exp r1 of
                    None \<Rightarrow> None
                  | Some (e, r2) \<Rightarrow> Some ((if neg then ''-'' else []) @ int_part @ f @ e, r2))))"

fun json_value :: "nat \<Rightarrow> string \<Rightarrow> (json \<times> string) option"
  and json_elems :: "nat \<Rightarrow> string \<Rightarrow> (json list \<times> string) option"
  and json_members :: "nat \<Rightarrow> string \<Rightarrow> ((string \<times> json) list \<times> string) option" where
  "json_value 0 s = None"
| "json_value (Suc n) s =
     (case skip_ws s of
        [] \<Rightarrow> None
      | c # t \<Rightarrow>
          if c = CHR ''{'' then
            (if HasPrefix (skip_ws t) ''}'' then Some (JObj [], tl (skip_ws t))
             else (case json_members n t of None \<Rightarrow> None | Some (ms, r) \<Rightarrow> Some (JObj ms, r)))
          else if c = CHR ''['' then
            (if HasPrefix (skip_ws t) '']'' then Some (JArr [], tl (skip_ws t))
             else (case json_elems n t of None \<Rightarrow> None | Some (js, r) \<Rightarrow> Some (JArr js, r)))
          else if c = dquote_char then
            (case unquote t of None \<Rightarrow> None | Some (x, r) \<Rightarrow> Some (JStr x, r))
          else if HasPrefix (c # t) ''null'' then Some (JNull, drop 3 t)
          else if HasPrefix (c # t) ''true'' then Some (JBool True, drop 3 t)
          else if HasPrefix (c # t) ''false'' then Some (JBool False, drop 4 t)
          else (case scan_num (c # t) of None \<Rightarrow> None | Some (x, r) \<Rightarrow> Some (JNum x, r)))"
| "json_elems 0 s = None"
| "json_elems (Suc n) s =
     (case json_value n s of
        None \<Rightarrow> None
      | Some (j, r) \<Rightarrow>
          (case skip_ws r of
             [] \<Rightarrow> None
           | c # t \<Rightarrow>
               if c = CHR '','' then (case json_elems n t of None \<Rightarrow> None | Some (js, u) \<Rightarrow> Some (j # js, u))
               else if c = CHR '']'' then Some ([j], t)
               else None))"
| "json_members 0 s = None"
| "json_members (Suc n) s =
     (case skip_ws s of
        [] \<Rightarrow> None
      | q # t \<Rightarrow>
          if q \<noteq> dquote_char then None
          else (case unquote t of
             None \<Rightarrow> None
           | Some (k, r) \<Rightarrow>
               (case skip_ws r of
                  [] \<Rightarrow> None
                | c # u \<Rightarrow>
                    if c \<noteq> CHR '':'' then None
                    else (case json_value n u of
                       None \<Rightarrow> None
                     | Some (v, x) \<Rightarrow>
                         (case skip_ws x of
                            [] \<Rightarrow> None
                          | d # y \<Rightarrow>
                              if d = CHR '','' then
                                (case json_members n y of None \<Rightarrow> None | Some (ms, z) \<Rightarrow> Some ((k, v) # ms, z))
                              else if d = CHR ''}'' then Some ([(k, v)], y)
                              else None)))))"

text \<open>\<open>Decoder.Decode\<close> takes the first value of its input; \<open>Unmarshal\<close> refuses anything after it.\<close>

definition json_first :: "string \<Rightarrow> json option" where
  "json_first s = map_option fst (json_value (Suc (2 * length s)) s)"

definition json_only :: "string \<Rightarrow> json option" where
  "json_only s =
     (case json_value (Suc (2 * length s)) s of
        Some (j, r) \<Rightarrow> if skip_ws r = [] then Some j else None
      | None \<Rightarrow> None)"

fun print_json :: "json \<Rightarrow> string"
  and print_elems :: "json list \<Rightarrow> string"
  and print_members :: "(string \<times> json) list \<Rightarrow> string" where
  "print_json JNull = ''null''"
| "print_json (JBool b) = (if b then ''true'' else ''false'')"
| "print_json (JNum x) = x"
| "print_json (JStr s) = quote_string s"
| "print_json (JArr js) = CHR ''['' # print_elems js @ '']''"
| "print_json (JObj ms) = CHR ''{'' # print_members ms @ ''}''"
| "print_elems [] = []"
| "print_elems (j # js) = print_json j @ (if js = [] then [] else CHR '','' # print_elems js)"
| "print_members [] = []"
| "print_members (m # ms) =
     quote_string (fst m) @ CHR '':'' # print_json (snd m) @ (if ms = [] then [] else CHR '','' # print_members ms)"

section \<open>Struct fields\<close>

text \<open>
  A member name matches a field exactly, or else under case folding; besides the ASCII letters only the
  long s (U+017F) and the Kelvin sign (U+212A) fold to ASCII.
\<close>

definition upper_ascii :: "char \<Rightarrow> char" where
  "upper_ascii c = (if 97 \<le> code c \<and> code c \<le> 122 then char_of (code c - 32) else c)"

fun fold_name :: "string \<Rightarrow> string" where
  "fold_name [] = []"
| "fold_name (c # s) =
     (if HasPrefix (c # s) (utf8 383) then CHR ''S'' # fold_name (drop 1 s)
      else if HasPrefix (c # s) (utf8 8490) then CHR ''K'' # fold_name (drop 2 s)
      else upper_ascii c # fold_name s)"

definition find_field :: "string list \<Rightarrow> string \<Rightarrow> string option" where
  "find_field names k =
     (if k \<in> set names then Some k else List.find (\<lambda>n. fold_name n = fold_name k) names)"

fun decode_members :: "string list \<Rightarrow> bool \<Rightarrow> (string \<Rightarrow> json \<Rightarrow> 'r \<Rightarrow> 'r option) \<Rightarrow> (string \<times> json) list \<Rightarrow> 'r \<Rightarrow> 'r option" where
  "decode_members names strict assign [] r = Some r"
| "decode_members names strict assign ((k, v) # ms) r =
     (case find_field names k of
        None \<Rightarrow> if strict then None else decode_members names strict assign ms r
      | Some f \<Rightarrow> (case assign f v r of None \<Rightarrow> None | Some r' \<Rightarrow> decode_members names strict assign ms r'))"

definition decode_struct :: "string list \<Rightarrow> bool \<Rightarrow> (string \<Rightarrow> json \<Rightarrow> 'r \<Rightarrow> 'r option) \<Rightarrow> json \<Rightarrow> 'r \<Rightarrow> 'r option" where
  "decode_struct names strict assign j r =
     (case j of JNull \<Rightarrow> Some r | JObj ms \<Rightarrow> decode_members names strict assign ms r | _ \<Rightarrow> None)"

text \<open>Assignments to a field: \<open>null\<close> leaves a scalar as it is.\<close>

definition assign_string :: "json \<Rightarrow> string \<Rightarrow> string option" where
  "assign_string j old = (case j of JNull \<Rightarrow> Some old | JStr s \<Rightarrow> Some s | _ \<Rightarrow> None)"

definition assign_int :: "json \<Rightarrow> int \<Rightarrow> int option" where
  "assign_int j old = (case j of JNull \<Rightarrow> Some old | JNum x \<Rightarrow> parse_int64 x | _ \<Rightarrow> None)"

definition assign_bool :: "json \<Rightarrow> bool \<Rightarrow> bool option" where
  "assign_bool j old = (case j of JNull \<Rightarrow> Some old | JBool b \<Rightarrow> Some b | _ \<Rightarrow> None)"

section \<open>Facts: integers\<close>

lemma digit_not_sign: "is_digit c \<Longrightarrow> c \<noteq> CHR ''-''"
  by (auto simp: is_digit_def code_def)

lemma parse_show_int:
  assumes "- (2 ^ 63) \<le> i" "i < 2 ^ 63"
  shows "parse_int64 (show_int i) = Some i"
proof -
  have d: "show_nat n \<noteq> [] \<and> list_all is_digit (show_nat n) \<and> hd (show_nat n) \<noteq> CHR ''-''" for n
    using show_nat_digits [of n] digit_not_sign by (cases "show_nat n") auto
  show ?thesis
    using assms d by (auto simp: parse_int64_def show_int_def Let_def dec_value_show_nat)
qed

section \<open>Facts: strings\<close>

text \<open>Well-formed UTF-8: what \<open>Marshal\<close> passes through and \<open>Unmarshal\<close> gives back.\<close>

function valid_utf8 :: "string \<Rightarrow> bool" where
  "valid_utf8 s = (if s = [] then True else if valid_rune s = 0 then False else valid_utf8 (drop (valid_rune s) s))"
  by pat_completeness auto
termination by (relation "measure length") auto

declare valid_utf8.simps [simp del]

lemma valid_rune_ascii: "code c < 128 \<Longrightarrow> valid_rune (c # s) = 1"
  by (simp add: valid_rune_def Let_def)

lemma valid_utf8_Nil [simp]: "valid_utf8 []"
  by (simp add: valid_utf8.simps)

lemma valid_utf8_Cons: "code c < 128 \<Longrightarrow> valid_utf8 (c # s) = valid_utf8 s"
  by (subst valid_utf8.simps) (simp add: valid_rune_ascii)

lemma valid_utf8_ascii: "list_all (\<lambda>c. code c < 128) s \<Longrightarrow> valid_utf8 s"
  by (induction s) (simp_all add: valid_utf8_Cons)

lemma valid_rune_le: "valid_rune s \<le> length s"
  by (auto simp: valid_rune_def Let_def split: list.split)

lemma valid_rune_prefix:
  assumes "valid_rune s \<noteq> 0"
  shows "valid_rune (take (valid_rune s) s @ r) = valid_rune s"
proof -
  obtain a t where s: "s = a # t" using assms by (cases s) (auto simp: valid_rune_def)
  have one: "1 \<le> length t \<Longrightarrow> \<exists>b u. t = b # u" by (cases t) auto
  have two: "2 \<le> length t \<Longrightarrow> \<exists>b c u. t = b # c # u" by (cases t rule: list.exhaust) (auto simp: Suc_le_length_iff numeral_eq_Suc)
  have three: "3 \<le> length t \<Longrightarrow> \<exists>b c d u. t = b # c # d # u" by (auto simp: Suc_le_length_iff numeral_eq_Suc)
  from assms consider (c1) "code a < 128"
    | (c2) "\<not> code a < 128" "194 \<le> code a \<and> code a < 224 \<and> 1 \<le> length t \<and> list_all is_cont (take 1 t)"
    | (c3) "\<not> code a < 128" "\<not> (194 \<le> code a \<and> code a < 224)" "224 \<le> code a \<and> code a < 240 \<and> 2 \<le> length t \<and> list_all is_cont (take 2 t)
         \<and> (code a = 224 \<longrightarrow> 160 \<le> code (hd t)) \<and> (code a = 237 \<longrightarrow> code (hd t) < 160)"
    | (c4) "\<not> code a < 128" "\<not> code a < 224" "\<not> code a < 240" "240 \<le> code a \<and> code a < 245 \<and> 3 \<le> length t \<and> list_all is_cont (take 3 t)
         \<and> (code a = 240 \<longrightarrow> 144 \<le> code (hd t)) \<and> (code a = 244 \<longrightarrow> code (hd t) < 144)"
    unfolding s by (auto simp: valid_rune_def Let_def split: if_splits)
  then show ?thesis
  proof cases
    case c1
    then show ?thesis by (simp add: s valid_rune_def)
  next
    case c2
    with one obtain b u where "t = b # u" by auto
    with c2 show ?thesis by (simp add: s valid_rune_def)
  next
    case c3
    with two obtain b c u where "t = b # c # u" by auto
    with c3 show ?thesis by (simp add: s valid_rune_def)
  next
    case c4
    with three obtain b c d u where "t = b # c # d # u" by auto
    with c4 show ?thesis by (simp add: s valid_rune_def)
  qed
qed

lemma unquote_dquote [simp]: "unquote (dquote_char # s) = Some ([], s)"
  by (simp add: unquote.simps)

lemma hex_val_digit: "d < 16 \<Longrightarrow> hex_val (hex_digit d) = Some d"
  by (auto simp: hex_val_def hex_digit_def is_digit_def code_def)

lemma hex4_digits:
  assumes "x < 65536"
  shows "4096 * (x div 4096 mod 16) + 256 * (x div 256 mod 16) + 16 * (x div 16 mod 16) + x mod 16 = (x :: nat)"
proof -
  define a b c where "a = x div 16" and "b = a div 16" and "c = b div 16"
  have "x div 256 = b" "x div 4096 = c" by (simp_all add: a_def b_def c_def div_mult2_eq [symmetric])
  moreover have "c < 16" using assms by (simp add: a_def b_def c_def div_mult2_eq [symmetric] less_mult_imp_div_less)
  moreover have "x = 16 * a + x mod 16" "a = 16 * b + a mod 16" "b = 16 * c + b mod 16"
    by (simp_all add: a_def b_def c_def)
  ultimately show ?thesis unfolding a_def [symmetric] by simp
qed

lemma unquote_escape:
  assumes "x < 65536" "\<not> (55296 \<le> x \<and> x < 57344)"
  shows "unquote (unicode_escape x @ s) = prepend (utf8 x) (unquote s)"
proof -
  have "hex4 (tl (tl (unicode_escape x @ s))) = Some x"
    unfolding unicode_escape_def hex4_def append_Cons list.sel list.case
    by (subst hex_val_digit, simp)+ (simp only: prod.case option.case hex4_digits [OF assms(1)])
  then show ?thesis using assms(2)
    by (auto simp add: unquote.simps(2) unicode_escape_def)
qed

lemma char_of_code: "char_of (code c) = c"
  by (simp add: code_def)

lemma unquote_quote_ascii:
  assumes "code c < 128"
  shows "unquote (quote_ascii c @ s) = prepend [c] (unquote s)"
proof -
  have e: "unquote (unicode_escape (code c) @ s) = prepend [c] (unquote s)"
    using unquote_escape [of "code c" s] assms by (simp add: utf8_def char_of_code)
  have b: "code c = 8 \<Longrightarrow> c = char_of (8 :: nat)" "code c = 12 \<Longrightarrow> c = char_of (12 :: nat)"
    by (metis char_of_code)+
  show ?thesis
    using assms e b
    by (auto simp: quote_ascii_def unquote.simps(2) escape_char_def)
qed

lemma unquote_rune:
  assumes "valid_rune s \<noteq> 0" "\<not> code (hd s) < 128"
  shows "unquote (take (valid_rune s) s @ r) = prepend (take (valid_rune s) s) (unquote r)"
proof -
  let ?u = "take (valid_rune s) s"
  from assms(1) obtain c t where s: "s = c # t" by (cases s) (auto simp: valid_rune_def)
  from assms(1) obtain n where n: "valid_rune s = Suc n" by (cases "valid_rune s") auto
  have v: "valid_rune (?u @ r) = Suc n" using valid_rune_prefix [OF assms(1)] n by simp
  have l: "length ?u = Suc n" using valid_rune_le [of s] n by simp
  have nd: "c \<noteq> dquote_char" "c \<noteq> backslash_char" "\<not> code c < 32" "\<not> code c < 128"
    using assms(2) s by (auto simp: code_def)
  have cons: "?u @ r = c # take n t @ r" using s n by simp
  have ra: "rune_at (?u @ r) = ?u" using v l by (simp add: rune_at_def n)
  have rl: "rune_len (?u @ r) = Suc n" using v unfolding cons by (simp add: rune_len_def)
  have dr: "drop n (take n t @ r) = r" using l s n by simp
  have "unquote (c # take n t @ r) = prepend (rune_at (c # take n t @ r))
      (unquote (drop (rune_len (c # take n t @ r) - 1) (take n t @ r)))"
    using nd by (simp add: unquote.simps(2))
  also have "\<dots> = prepend ?u (unquote r)"
    using ra rl dr unfolding cons by simp
  finally show ?thesis unfolding cons .
qed

lemma prepend_Some [simp]: "prepend p (Some (s, t)) = Some (p @ s, t)"
  by (simp add: prepend_def)

lemma unquote_quote_body:
  "valid_utf8 s \<Longrightarrow> unquote (quote_body s @ dquote_char # r) = Some (s, r)"
proof (induction s rule: quote_body.induct)
  case (1 s)
  show ?case
  proof (cases "s = []")
    case True
    then show ?thesis by (simp add: quote_body.simps)
  next
    case ne: False
    let ?n = "valid_rune s"
    from ne "1.prems" have n: "?n \<noteq> 0" and v: "valid_utf8 (drop ?n s)"
      by (simp_all add: valid_utf8.simps [of s] split: if_splits)
    show ?thesis
    proof (cases "code (hd s) < 128")
      case True
      then obtain c t where s: "s = c # t" "code c < 128" using ne by (cases s) auto
      with "1.prems" have "valid_utf8 t" by (simp add: valid_utf8_Cons)
      with "1.IH"(1) [OF ne True] s True show ?thesis
        by (simp add: quote_body.simps [of "c # t"] unquote_quote_ascii)
    next
      case False
      have e: "unquote (unicode_escape x @ quote_body (drop ?n s) @ dquote_char # r) = Some (s, r)"
        if "take ?n s = utf8 x" "unquote (quote_body (drop ?n s) @ dquote_char # r) = Some (drop ?n s, r)"
          "x < 65536" "\<not> (55296 \<le> x \<and> x < 57344)" for x
        using that unquote_escape [of x] append_take_drop_id [of ?n s] by simp
      show ?thesis
      proof (cases "take ?n s = utf8 8232 \<or> take ?n s = utf8 8233")
        case True
        then show ?thesis
          using "1.IH"(3,4) [OF ne False refl n] v n ne False
          by (auto simp: quote_body.simps [of s] Let_def intro!: e)
      next
        case F: False
        then have "unquote (quote_body (drop ?n s) @ dquote_char # r) = Some (drop ?n s, r)"
          using "1.IH"(5) [OF ne False refl n] v by simp
        with F n ne False show ?thesis
          by (simp add: quote_body.simps [of s] Let_def unquote_rune)
      qed
    qed
  qed
qed

section \<open>Facts: values\<close>

text \<open>The number literals that gitd prints: decimal integers.\<close>

definition int_literal :: "string \<Rightarrow> bool" where
  "int_literal x \<longleftrightarrow> (\<exists>i. x = show_int i)"

definition ends_value :: "string \<Rightarrow> bool" where
  "ends_value r \<longleftrightarrow> r = [] \<or> hd r \<in> {CHR '','', CHR '']'', CHR ''}'', newline_char}"

fun json_ok :: "json \<Rightarrow> bool"
  and elems_ok :: "json list \<Rightarrow> bool"
  and members_ok :: "(string \<times> json) list \<Rightarrow> bool" where
  "json_ok JNull = True"
| "json_ok (JBool b) = True"
| "json_ok (JNum x) = int_literal x"
| "json_ok (JStr s) = valid_utf8 s"
| "json_ok (JArr js) = elems_ok js"
| "json_ok (JObj ms) = members_ok ms"
| "elems_ok [] = True"
| "elems_ok (j # js) = (json_ok j \<and> elems_ok js)"
| "members_ok [] = True"
| "members_ok (m # ms) = (valid_utf8 (fst m) \<and> json_ok (snd m) \<and> members_ok ms)"

lemma show_nat_zero: "hd (show_nat n) = CHR ''0'' \<Longrightarrow> show_nat n = ''0''"
proof (induction n rule: show_nat.induct)
  case (1 n)
  show ?case
  proof (cases "n < 10")
    case True
    with "1.prems" show ?thesis by (simp add: show_nat.simps [of n])
  next
    case False
    with "1.prems" have "hd (show_nat (n div 10)) = CHR ''0''"
      using show_nat_digits [of "n div 10"] by (simp add: show_nat.simps [of n])
    with "1.IH" False have "show_nat (n div 10) = ''0''" by simp
    with dec_value_show_nat [of "n div 10"] have "n div 10 = 0" by (simp add: dec_value_def code_def)
    with False show ?thesis by simp
  qed
qed

lemma ends_value_digit: "ends_value r \<Longrightarrow> r \<noteq> [] \<Longrightarrow> \<not> is_digit (hd r) \<and> hd r \<noteq> CHR ''.'' \<and> hd r \<noteq> CHR ''e'' \<and> hd r \<noteq> CHR ''E''"
  by (auto simp: ends_value_def is_digit_def code_def)

lemma digits_of_append:
  assumes "list_all is_digit ds" "r = [] \<or> \<not> is_digit (hd r)"
  shows "digits_of (ds @ r) = (ds, r)"
  using assms by (cases r) (auto simp: digits_of_def list_all_iff takeWhile_append dropWhile_append)

lemma scan_num_show_nat:
  assumes "ends_value r"
  shows "scan_num (show_nat n @ r) = Some (show_nat n, r) \<and> scan_num (CHR ''-'' # show_nat n @ r) = Some (CHR ''-'' # show_nat n, r)"
proof -
  have r: "scan_frac r = Some ([], r)" "scan_exp r = Some ([], r)" "r = [] \<or> \<not> is_digit (hd r)"
    using ends_value_digit [OF assms] by (auto simp: scan_frac_def scan_exp_def split: list.split)
  have d: "digits_of (show_nat n @ r) = (show_nat n, r)"
    using digits_of_append r(3) show_nat_digits by blast
  have h: "show_nat n \<noteq> []" "hd (show_nat n) \<noteq> CHR ''-''"
    using show_nat_digits [of n] digit_not_sign by (cases "show_nat n", auto)+
  have z: "hd (show_nat n) = CHR ''0'' \<Longrightarrow> tl (show_nat n @ r) = r \<and> show_nat n = ''0''"
    using show_nat_zero [of n] by simp
  show ?thesis
    using d h r z by (auto simp: scan_num_def Let_def hd_append)
qed

lemma scan_num_int: "int_literal x \<Longrightarrow> ends_value r \<Longrightarrow> scan_num (x @ r) = Some (x, r)"
  using scan_num_show_nat by (auto simp: int_literal_def show_int_def)

lemma first_char:
  "json_ok j \<Longrightarrow> \<exists>c t. print_json j = c # t \<and> \<not> json_space c \<and> c \<noteq> CHR '']''"
proof (cases j)
  case (JNum x)
  assume "json_ok j"
  with JNum obtain i where x: "x = show_int i" by (auto simp: int_literal_def)
  have "is_digit c \<Longrightarrow> \<not> json_space c \<and> c \<noteq> CHR '']''" for c by (auto simp: is_digit_def json_space_def code_def)
  then show ?thesis
    using show_nat_digits [of "nat i"] JNum x
    by (cases "show_nat (nat i)") (auto simp: show_int_def json_space_def)
qed (auto simp: json_space_def quote_string_def)

lemma skip_ws_Cons [simp]: "\<not> json_space c \<Longrightarrow> skip_ws (c # s) = c # s"
  by (simp add: skip_ws_def)

lemma json_space_punct [simp]:
  "\<not> json_space (CHR '','')" "\<not> json_space (CHR '':'')" "\<not> json_space (CHR '']'')" "\<not> json_space (CHR ''}'')"
  "\<not> json_space (CHR ''['')" "\<not> json_space (CHR ''{'')" "\<not> json_space dquote_char"
  by (simp_all add: json_space_def)

lemma int_first:
  assumes "int_literal x"
  shows "\<exists>c t. x = c # t \<and> (is_digit c \<or> c = CHR ''-'')"
  using assms show_nat_digits by (auto simp: int_literal_def show_int_def) (metis list.exhaust list.pred_inject(2))

lemma json_value_num:
  assumes "int_literal x" "ends_value r"
  shows "json_value (Suc n) (x @ r) = Some (JNum x, r)"
proof -
  obtain c t where x: "x = c # t" "is_digit c \<or> c = CHR ''-''" using int_first [OF assms(1)] by blast
  then have "\<not> json_space c" "c \<noteq> CHR ''{''" "c \<noteq> CHR ''[''" "c \<noteq> dquote_char" "c \<noteq> CHR ''n''" "c \<noteq> CHR ''t''" "c \<noteq> CHR ''f''"
    by (auto simp: is_digit_def json_space_def code_def)
  then show ?thesis using scan_num_int [OF assms] unfolding x(1) by simp
qed

text \<open>One step of the parser over a printed array, object, element or member.\<close>

lemma parse_array:
  assumes "elems_ok js" "js \<noteq> [] \<Longrightarrow> json_elems m (print_elems js @ CHR '']'' # r) = Some (js, r)"
  shows "json_value (Suc m) (print_json (JArr js) @ r) = Some (JArr js, r)"
proof (cases js)
  case (Cons j js')
  with assms(1) obtain c t where "print_json j = c # t" "\<not> json_space c" "c \<noteq> CHR '']''" using first_char [of j] by auto
  then have "\<not> HasPrefix (skip_ws (print_elems js @ CHR '']'' # r)) '']''" using Cons by simp
  with assms(2) Cons show ?thesis by simp
qed simp

lemma parse_object:
  assumes "ms \<noteq> [] \<Longrightarrow> json_members m (print_members ms @ CHR ''}'' # r) = Some (ms, r)"
  shows "json_value (Suc m) (print_json (JObj ms) @ r) = Some (JObj ms, r)"
proof (cases ms)
  case (Cons k ms')
  then have "\<not> HasPrefix (skip_ws (print_members ms @ CHR ''}'' # r)) ''}''" by (simp add: quote_string_def)
  with assms Cons show ?thesis by simp
qed simp

lemma parse_elem:
  assumes "\<And>r'. ends_value r' \<Longrightarrow> json_value m (print_json j @ r') = Some (j, r')"
    and "js \<noteq> [] \<Longrightarrow> json_elems m (print_elems js @ CHR '']'' # r) = Some (js, r)"
  shows "json_elems (Suc m) (print_elems (j # js) @ CHR '']'' # r) = Some (j # js, r)"
  using assms(1) [of "CHR '']'' # r"] assms(1) [of "CHR '','' # print_elems js @ CHR '']'' # r"] assms(2)
  by (cases "js = []") (simp_all add: ends_value_def)

lemma parse_member:
  assumes "valid_utf8 (fst k)" "\<And>r'. ends_value r' \<Longrightarrow> json_value m (print_json (snd k) @ r') = Some (snd k, r')"
    and "ms \<noteq> [] \<Longrightarrow> json_members m (print_members ms @ CHR ''}'' # r) = Some (ms, r)"
  shows "json_members (Suc m) (print_members (k # ms) @ CHR ''}'' # r) = Some (k # ms, r)"
  using assms(2) [of "CHR ''}'' # r"] assms(2) [of "CHR '','' # print_members ms @ CHR ''}'' # r"] assms(3) unquote_quote_body [OF assms(1)]
  by (cases "ms = []") (simp_all add: ends_value_def quote_string_def)

lemma json_value_print:
  "json_ok j \<Longrightarrow> length (print_json j) \<le> n \<Longrightarrow> ends_value r \<Longrightarrow> json_value n (print_json j @ r) = Some (j, r)"
  "elems_ok js \<Longrightarrow> length (print_elems js) < n \<Longrightarrow> js \<noteq> [] \<Longrightarrow>
     json_elems n (print_elems js @ CHR '']'' # r) = Some (js, r)"
  "members_ok ms \<Longrightarrow> length (print_members ms) < n \<Longrightarrow> ms \<noteq> [] \<Longrightarrow>
     json_members n (print_members ms @ CHR ''}'' # r) = Some (ms, r)"
proof (induction j and js and ms arbitrary: n r and n r and n r rule: print_json_print_elems_print_members.induct)
  case 1
  then show ?case by (cases n) (auto simp: json_space_def)
next
  case (2 b)
  then show ?case by (cases n; cases b) (auto simp: json_space_def)
next
  case (3 x)
  then show ?case using int_first [of x] json_value_num [of x r "n - 1"] by (cases n) auto
next
  case (4 s)
  then show ?case by (cases n) (auto simp: quote_string_def unquote_quote_body)
next
  case (5 js)
  then obtain m where n: "n = Suc m" by (cases n) auto
  show ?case unfolding n by (rule parse_array) (use 5 n in auto)
next
  case (6 ms)
  then obtain m where n: "n = Suc m" by (cases n) auto
  show ?case unfolding n by (rule parse_object) (use 6 n in auto)
next
  case (8 j js)
  then obtain m where n: "n = Suc m" by (cases n) auto
  have "0 < length (print_json j)" using first_char [of j] 8 by auto
  then show ?case unfolding n by (intro parse_elem) (use 8 n in auto)
next
  case (10 k ms)
  then obtain m where n: "n = Suc m" by (cases n) auto
  show ?case unfolding n by (rule parse_member) (use 10 n in auto)
qed simp_all

section \<open>Facts: the bound on the recursion\<close>

lemma skip_ws_shorter: "skip_ws s = c # t \<Longrightarrow> length t < length s"
  by (metis Suc_le_lessD length_Cons length_dropWhile_le skip_ws_def)

lemma prepend_SomeD: "prepend p q = Some (s, t) \<Longrightarrow> \<exists>s'. q = Some (s', t)"
  by (auto simp: prepend_def split: option.splits)

lemma unquote_step:
  "unquote (c # s) = Some (x, r) \<Longrightarrow> r = s \<or> (\<exists>k x'. unquote (drop k s) = Some (x', r))"
proof -
  have "\<exists>k x'. unquote (drop k s) = Some (x', r)"
    if "unquote s = Some (x'', r) \<or> unquote (tl s) = Some (x'', r)" for x''
    using that by (auto intro: exI [of _ 0] exI [of _ "Suc 0"] simp: drop_Suc)
  then show "unquote (c # s) = Some (x, r) \<Longrightarrow> ?thesis"
    by (auto simp: unquote.simps(2) split: if_splits option.splits dest!: prepend_SomeD)
qed

lemma unquote_shorter: "unquote s = Some (x, r) \<Longrightarrow> length r < length s"
proof (induction s arbitrary: x rule: length_induct)
  case (1 s)
  then obtain c t where s: "s = c # t" by (cases s) auto
  with "1.prems" consider "r = t" | k x' where "unquote (drop k t) = Some (x', r)"
    using unquote_step by blast
  then show ?case
  proof cases
    case (2 k x')
    have "length (drop k t) < length s" by (simp add: s)
    with "1.IH" 2 have "length r < length (drop k t)" by blast
    with s show ?thesis by simp
  qed (simp add: s)
qed

lemma digits_of_le: "digits_of s = (ds, r) \<Longrightarrow> length ds + length r = length s"
  by (auto simp: digits_of_def) (metis length_append takeWhile_dropWhile_id)

lemma scan_tail_le:
  "scan_frac s = Some (f, r) \<Longrightarrow> length r \<le> length s"
  "scan_exp s = Some (f, r) \<Longrightarrow> length r \<le> length s"
  by (auto simp: scan_frac_def scan_exp_def Let_def split: list.splits if_splits prod.splits dest!: digits_of_le)

lemma scan_num_shorter:
  assumes "scan_num s = Some (x, r)"
  shows "length r < length s"
proof -
  define t where "t = (if s \<noteq> [] \<and> hd s = CHR ''-'' then tl s else s)"
  have ts: "length t \<le> length s" by (simp add: t_def)
  obtain ds r0 where d: "digits_of t = (ds, r0)" by force
  with assms have "ds \<noteq> []" by (auto simp: scan_num_def Let_def t_def split: if_splits)
  with digits_of_le [OF d] have l: "length r0 < length t" "length (tl t) < length t" by (cases t; cases ds; auto)+
  show ?thesis
  proof (cases "hd ds = CHR ''0''")
    case True
    then show ?thesis using assms d l ts
      unfolding scan_num_def Let_def t_def [symmetric] d prod.case
      by (auto split: option.splits if_splits prod.splits dest!: scan_tail_le)
  next
    case False
    then show ?thesis using assms d l ts
      unfolding scan_num_def Let_def t_def [symmetric] d prod.case
      by (auto split: option.splits if_splits prod.splits dest!: scan_tail_le)
  qed
qed

lemma json_value_shorter:
  "json_value n s = Some (j, r) \<Longrightarrow> length r < length s"
  "json_elems n s = Some (js, r) \<Longrightarrow> length r < length s"
  "json_members n s = Some (ms, r) \<Longrightarrow> length r < length s"
proof (induction n arbitrary: s j js ms r)
  case (Suc n)
  {
    case 1
    then obtain c t where t: "skip_ws s = c # t" by (auto split: list.splits)
    have "length (tl (skip_ws t)) \<le> length t" by (simp add: skip_ws_def) (metis length_dropWhile_le diff_le_self le_trans)
    then show ?case using 1 t skip_ws_shorter [OF t]
      by (auto split: if_splits option.splits dest: unquote_shorter scan_num_shorter Suc.IH)
  next
    case 2
    then show ?case
      by (auto split: if_splits option.splits list.splits dest!: Suc.IH skip_ws_shorter)
  next
    case 3
    then show ?case
      by (auto split: if_splits option.splits list.splits dest!: Suc.IH skip_ws_shorter unquote_shorter)
  }
qed simp_all

lemma json_fuel_step:
  "2 * length s < n \<Longrightarrow> json_value n s = json_value (Suc n) s"
  "Suc (2 * length s) < n \<Longrightarrow> json_elems n s = json_elems (Suc n) s"
  "Suc (2 * length s) < n \<Longrightarrow> json_members n s = json_members (Suc n) s"
proof (induction n arbitrary: s)
  case (Suc n)
  {
    case 1
    show ?case
    proof (cases "skip_ws s")
      case (Cons c t)
      with skip_ws_shorter [OF Cons] 1 have "Suc (2 * length t) < n" by simp
      then show ?thesis using Cons Suc.IH(2,3) [of t] unfolding json_value.simps(2) by simp
    qed simp
  next
    case 2
    then have "2 * length s < n" by simp
    note v = Suc.IH(1) [OF this]
    have "json_elems n t = json_elems (Suc n) t" if "json_value n s = Some (j, r)" "skip_ws r = c # t" for j r c t
      using json_value_shorter(1) [OF that(1)] skip_ws_shorter [OF that(2)] 2 by (intro Suc.IH(2)) simp
    then show ?case unfolding json_elems.simps(2) v [symmetric] by (auto split: option.split list.split)
  next
    case 3
    have v: "json_value n u = json_value (Suc n) u" if "skip_ws s = q # t" "unquote t = Some (k, r)" "skip_ws r = c # u" for q t k r c u
      using skip_ws_shorter [OF that(1)] unquote_shorter [OF that(2)] skip_ws_shorter [OF that(3)] 3 by (intro Suc.IH(1)) simp
    have "json_members n y = json_members (Suc n) y" 
      if "skip_ws s = q # t" "unquote t = Some (k, r)" "skip_ws r = c # u" "json_value (Suc n) u = Some (w, x)" "skip_ws x = d # y" for q t k r c u w x d y
      using skip_ws_shorter [OF that(1)] unquote_shorter [OF that(2)] skip_ws_shorter [OF that(3)]
        json_value_shorter(1) [OF that(4)] skip_ws_shorter [OF that(5)] 3 by (intro Suc.IH(3)) simp
    with v show ?case unfolding json_members.simps(2)
      by (auto simp del: json_value.simps json_members.simps split: option.split list.split)
  }
qed simp_all

lemma json_value_fuel: "2 * length s < n \<Longrightarrow> json_value (n + k) s = json_value n s"
proof (induction k)
  case (Suc k)
  then show ?case using json_fuel_step(1) [of s "n + k"] by simp
qed simp

lemma json_first_print: "json_ok j \<Longrightarrow> ends_value r \<Longrightarrow> json_first (print_json j @ r) = Some j"
  using json_value_print(1) [of j _ r] by (simp add: json_first_def del: json_value.simps)

lemma json_only_print: "json_ok j \<Longrightarrow> json_only (print_json j) = Some j"
  using json_value_print(1) [of j _ "[]"] by (simp add: json_only_def ends_value_def skip_ws_def del: json_value.simps)

section \<open>Facts: struct fields\<close>

lemma find_field_exact [simp]: "k \<in> set names \<Longrightarrow> find_field names k = Some k"
  by (simp add: find_field_def)

lemma assign_simps [simp]:
  "assign_string (JStr s) old = Some s" "assign_string JNull old = Some old"
  "assign_int (JNum x) o' = parse_int64 x" "assign_bool (JBool b) ob = Some b"
  by (simp_all add: assign_string_def assign_int_def assign_bool_def)

lemma json_ok_int [simp]: "int_literal (show_int i)"
  by (auto simp: int_literal_def)

lemma ends_value_simps [simp]: "ends_value []" "ends_value [newline_char]"
  by (simp_all add: ends_value_def)

declare json_value.simps [simp del] json_elems.simps [simp del] json_members.simps [simp del]

section \<open>Facts: lengths and lines\<close>

lemma length_quote_body: "length (quote_body s) \<le> 6 * length s"
proof (induction s rule: quote_body.induct)
  case (1 s)
  show ?case
  proof (cases "s = []")
    case False
    then obtain c t where s: "s = c # t" by (cases s) auto
    have q: "length (quote_ascii c) \<le> 6" "length (unicode_escape x) = 6" for x by (simp_all add: quote_ascii_def unicode_escape_def)
    show ?thesis
    proof (cases "code c < 128 \<or> valid_rune s = 0")
      case True
      with 1 s q show ?thesis by (subst quote_body.simps) (auto simp: Let_def)
    next
      case False
      then have v: "\<not> code c < 128" "valid_rune s \<noteq> 0" by auto
      have d: "length (drop (valid_rune s) s) + min (valid_rune s) (length s) = length s" by simp
      have m: "1 \<le> min (valid_rune s) (length s)" using v s by simp
      have "length (quote_body (drop (valid_rune s) s)) \<le> 6 * length (drop (valid_rune s) s)"
        using 1 s v
        by (cases "take (valid_rune s) s = utf8 8232"; cases "take (valid_rune s) s = utf8 8233") (simp_all add: Let_def)
      with d m q show ?thesis using v s by (subst quote_body.simps) (auto simp: Let_def simp del: length_drop)
    qed
  qed (subst quote_body.simps, simp)
qed

lemma length_quote_string: "length (quote_string s) \<le> 6 * length s + 2"
  using length_quote_body [of s] by (simp add: quote_string_def)

lemma json_only_print_line: "json_ok j \<Longrightarrow> json_only (print_json j @ [newline_char]) = Some j"
  using json_value_print(1) [of j _ "[newline_char]"]
  by (simp add: json_only_def ends_value_def skip_ws_def json_space_def del: json_value.simps)

end
