(* ===== verification/Agent.thy ===== *)
theory Agent
  imports Mirror Go_Json
begin

text \<open>
  \<open>internal/mirror/agent.go\<close>: the mirror agent that performs the restore and delete jobs which serve stages
  in the job spool. The job files and their strict decoders, their durable writing, the handling of one job
  on every branch, the start-up scan and the watch loop. The fsnotify watcher is not part of the
  repository: what it delivers is a sequence of signals passed to the loop.
\<close>

section \<open>Job files\<close>

abbreviation JobBundleExt :: string where "JobBundleExt \<equiv> ''.bundle''"
abbreviation JobRequestExt :: string where "JobRequestExt \<equiv> ''.request''"
abbreviation JobResultExt :: string where "JobResultExt \<equiv> ''.result''"

record JobRequest =
  job_Type :: string
  job_Repo :: string
  job_Bundle :: string

record JobResult =
  res_OK :: bool
  res_Message :: string

abbreviation request_fields :: "string list" where "request_fields \<equiv> [''type'', ''repo'', ''bundle'']"
abbreviation result_fields :: "string list" where "result_fields \<equiv> [''ok'', ''message'']"

definition assign_request_field :: "string \<Rightarrow> json \<Rightarrow> JobRequest \<Rightarrow> JobRequest option" where
  "assign_request_field f j r =
     (if f = ''type'' then map_option (\<lambda>s. r\<lparr>job_Type := s\<rparr>) (assign_string j (job_Type r))
      else if f = ''repo'' then map_option (\<lambda>s. r\<lparr>job_Repo := s\<rparr>) (assign_string j (job_Repo r))
      else map_option (\<lambda>s. r\<lparr>job_Bundle := s\<rparr>) (assign_string j (job_Bundle r)))"

definition assign_result_field :: "string \<Rightarrow> json \<Rightarrow> JobResult \<Rightarrow> JobResult option" where
  "assign_result_field f j r =
     (if f = ''ok'' then map_option (\<lambda>b. r\<lparr>res_OK := b\<rparr>) (assign_bool j (res_OK r))
      else map_option (\<lambda>s. r\<lparr>res_Message := s\<rparr>) (assign_string j (res_Message r)))"

definition encode_request :: "JobRequest \<Rightarrow> bytes" where
  "encode_request r = print_json (JObj [(''type'', JStr (job_Type r)), (''repo'', JStr (job_Repo r)), (''bundle'', JStr (job_Bundle r))])"

definition encode_result :: "JobResult \<Rightarrow> bytes" where
  "encode_result r = print_json (JObj [(''ok'', JBool (res_OK r)), (''message'', JStr (res_Message r))])"

definition DecodeJobRequest :: "bytes \<Rightarrow> JobRequest result" where
  "DecodeJobRequest data =
     (case Option.bind (json_first data) (\<lambda>j. decode_struct request_fields True assign_request_field j
         \<lparr>job_Type = [], job_Repo = [], job_Bundle = []\<rparr>) of
        None \<Rightarrow> Fail (Errf ''decode restore request: json'' [])
      | Some r \<Rightarrow> Ok r)"

definition DecodeJobResult :: "bytes \<Rightarrow> JobResult result" where
  "DecodeJobResult data =
     (case Option.bind (json_first data) (\<lambda>j. decode_struct result_fields True assign_result_field j
         \<lparr>res_OK = False, res_Message = []\<rparr>) of
        None \<Rightarrow> Fail (Errf ''decode restore result: json'' [])
      | Some r \<Rightarrow> Ok r)"

definition WriteJobFile :: "string \<Rightarrow> string \<Rightarrow> bytes \<Rightarrow> unit result io" where
  "WriteJobFile dir name data = replace_file dir (''.'' @ name @ ''.tmp-'') [] (Join [dir, name]) data (\<lambda>e. e)"

section \<open>One job\<close>

record Agent =
  ag_mirror :: Mirror
  ag_workdir :: string
  ag_reposRoot :: string

definition NewAgent :: "Mirror \<Rightarrow> string \<Rightarrow> string \<Rightarrow> Agent" where
  "NewAgent m workDir reposRoot = \<lparr>ag_mirror = m, ag_workdir = workDir, ag_reposRoot = reposRoot\<rparr>"

abbreviation job_path :: "Agent \<Rightarrow> string \<Rightarrow> string" where
  "job_path a name \<equiv> Join [ag_workdir a, name]"

text \<open>The failures of the removals and of the write are only logged.\<close>

definition finish :: "Agent \<Rightarrow> string \<Rightarrow> bool \<Rightarrow> string \<Rightarrow> unit io" where
  "finish a jid ok message = do {
     _ \<leftarrow> os_Remove (job_path a (jid @ JobRequestExt));
     _ \<leftarrow> os_Remove (job_path a (jid @ JobBundleExt));
     _ \<leftarrow> WriteJobFile (ag_workdir a) (jid @ JobResultExt) (encode_result \<lparr>res_OK = ok, res_Message = message\<rparr>);
     return ()
   }"

definition deleteRepo :: "Agent \<Rightarrow> string \<Rightarrow> JobRequest \<Rightarrow> unit io" where
  "deleteRepo a jid req =
     (if \<not> ValidName (job_Repo req) then finish a jid False (sprintf ''invalid repo name %q'' [job_Repo req] [])
      else let target = Join [ag_reposRoot a, job_Repo req @ ''.git''] in do {
        rr \<leftarrow> RealpathUnder (ag_reposRoot a) target;
        case rr of
          Inl e \<Rightarrow> finish a jid False (sprintf ''resolve %s: %v'' [target, err_text e] [])
        | Inr resolved \<Rightarrow> do {
            rb \<leftarrow> IsBareRepo resolved;
            case rb of
              Inl e \<Rightarrow> finish a jid False (sprintf ''inspect %s: %v'' [job_Repo req, err_text e] [])
            | Inr ok \<Rightarrow>
                if \<not> ok then finish a jid False (sprintf ''%s is not a bare git repository'' [job_Repo req] [])
                else do {
                  rm \<leftarrow> os_RemoveAll resolved;
                  case rm of
                    Inl e \<Rightarrow> finish a jid False (sprintf ''remove %s: %v'' [job_Repo req, err_text e] [])
                  | Inr _ \<Rightarrow> finish a jid True ''repo deleted'' } }
      })"

definition Agent_restore :: "git_prog \<Rightarrow> Agent \<Rightarrow> string \<Rightarrow> JobRequest \<Rightarrow> unit io" where
  "Agent_restore git a jid req =
     (if \<not> ValidName (job_Repo req) then finish a jid False (sprintf ''invalid repo name %q'' [job_Repo req] [])
      else if job_Bundle req \<noteq> jid @ JobBundleExt
      then finish a jid False (sprintf ''job bundle %q does not match job id %q'' [job_Bundle req, jid] [])
      else do {
        rv \<leftarrow> VerifyBundleFile git (ag_mirror a) (job_path a (job_Bundle req));
        case rv of
          Inl e \<Rightarrow> finish a jid False (sprintf ''bundle verify: %v'' [err_text e] [])
        | Inr _ \<Rightarrow> do {
            rr \<leftarrow> Restore git (ag_mirror a) (job_Repo req);
            case rr of
              Inl e \<Rightarrow> finish a jid False (err_text e)
            | Inr _ \<Rightarrow> finish a jid True ''restore complete'' }
      })"

definition processJob :: "git_prog \<Rightarrow> Agent \<Rightarrow> string \<Rightarrow> unit io" where
  "processJob git a jid = do {
     rd \<leftarrow> os_ReadFile (job_path a (jid @ JobRequestExt));
     case rd of
       Inl e \<Rightarrow>
         if errors_Is e ErrNotExist then return ()
         else finish a jid False (sprintf ''read request: %v'' [err_text e] [])
     | Inr data \<Rightarrow>
         (case DecodeJobRequest data of
            Inl e \<Rightarrow> finish a jid False (err_text e)
          | Inr req \<Rightarrow>
              if job_Type req = ''delete'' then deleteRepo a jid req else Agent_restore git a jid req)
   }"

section \<open>Scan and watch\<close>

datatype FsOp = FsCreate | FsWrite | FsRemove | FsRename | FsChmod

record FsEvent =
  fs_Name :: string
  fs_Op :: "FsOp list"

definition requestJobID :: "string \<Rightarrow> string option" where
  "requestJobID path = CutSuffix (Base path) JobRequestExt"

definition onEvent :: "git_prog \<Rightarrow> Agent \<Rightarrow> FsEvent \<Rightarrow> unit io" where
  "onEvent git a ev =
     (if FsCreate \<notin> set (fs_Op ev) \<and> FsWrite \<notin> set (fs_Op ev) then return ()
      else case requestJobID (fs_Name ev) of
        None \<Rightarrow> return ()
      | Some jid \<Rightarrow> processJob git a jid)"

fun scan_jobs :: "git_prog \<Rightarrow> Agent \<Rightarrow> (string \<times> bool) list \<Rightarrow> unit io" where
  "scan_jobs git a [] = return ()"
| "scan_jobs git a ((name, isdir) # es) =
     (if isdir \<or> \<not> HasSuffix name JobRequestExt then scan_jobs git a es
      else do { _ \<leftarrow> processJob git a (TrimSuffix name JobRequestExt); scan_jobs git a es })"

definition processExistingJobs :: "git_prog \<Rightarrow> Agent \<Rightarrow> unit result io" where
  "processExistingJobs git a = do {
     r \<leftarrow> os_ReadDir (ag_workdir a);
     case r of
       Inl e \<Rightarrow> return (Fail (Wrapf ''mirror-agent: scan %s: %w'' [ag_workdir a] e))
     | Inr entries \<Rightarrow> do { _ \<leftarrow> scan_jobs git a entries; return (Ok ()) }
   }"

text \<open>
  What the \<open>select\<close> of the watch loop receives, in the order it receives it. A sequence that ends
  without a final signal leaves the loop waiting: the value \<open>None\<close>.
\<close>

datatype AgentSignal = CtxDone | EventsClosed | ErrorsClosed | GotEvent FsEvent | GotError gerror

fun watch_loop :: "git_prog \<Rightarrow> Agent \<Rightarrow> AgentSignal list \<Rightarrow> unit result option io" where
  "watch_loop git a [] = return None"
| "watch_loop git a (s # ss) =
     (case s of
        CtxDone \<Rightarrow> return (Some (Ok ()))
      | EventsClosed \<Rightarrow> return (Some (Ok ()))
      | ErrorsClosed \<Rightarrow> return (Some (Ok ()))
      | GotEvent ev \<Rightarrow> do { _ \<leftarrow> onEvent git a ev; watch_loop git a ss }
      | GotError e \<Rightarrow> watch_loop git a ss)"

text \<open>\<open>Run\<close>, with the results of \<open>fsnotify.NewWatcher\<close> and of its \<open>Add\<close>.\<close>

definition Agent_Run :: "git_prog \<Rightarrow> Agent \<Rightarrow> unit result \<Rightarrow> unit result \<Rightarrow> AgentSignal list \<Rightarrow> unit result option io" where
  "Agent_Run git a newWatcher addWatch signals = do {
     rm \<leftarrow> os_MkdirAll (ag_workdir a);
     case rm of
       Inl e \<Rightarrow> return (Some (Fail (Wrapf ''mirror-agent: mkdir %s: %w'' [ag_workdir a] e)))
     | Inr _ \<Rightarrow>
         (case newWatcher of
            Inl e \<Rightarrow> return (Some (Fail (Wrapf ''mirror-agent: fsnotify: %w'' [] e)))
          | Inr _ \<Rightarrow>
              (case addWatch of
                 Inl e \<Rightarrow> return (Some (Fail (Wrapf ''mirror-agent: watch %s: %w'' [ag_workdir a] e)))
               | Inr _ \<Rightarrow> do {
                   rs \<leftarrow> processExistingJobs git a;
                   case rs of Inl e \<Rightarrow> return (Some (Fail e)) | Inr _ \<Rightarrow> watch_loop git a signals }))
   }"

section \<open>Facts: job files\<close>

definition request_text :: "JobRequest \<Rightarrow> bool" where
  "request_text r \<longleftrightarrow> valid_utf8 (job_Type r) \<and> valid_utf8 (job_Repo r) \<and> valid_utf8 (job_Bundle r)"

definition result_text :: "JobResult \<Rightarrow> bool" where
  "result_text r \<longleftrightarrow> valid_utf8 (res_Message r)"

lemma job_field_utf8 [simp]: "list_all valid_utf8 request_fields" "list_all valid_utf8 result_fields"
  by (simp_all add: valid_utf8_ascii code_def)

lemma decode_encode_request: "request_text r \<Longrightarrow> DecodeJobRequest (encode_request r) = Inr r"
proof -
  assume r: "request_text r"
  have "json_first (encode_request r @ []) = Some (JObj [(''type'', JStr (job_Type r)), (''repo'', JStr (job_Repo r)), (''bundle'', JStr (job_Bundle r))])"
    unfolding encode_request_def using r job_field_utf8(1)
    by (intro json_first_print) (simp_all add: request_text_def)
  then show ?thesis
    by (simp add: DecodeJobRequest_def decode_struct_def assign_request_field_def)
qed

lemma decode_encode_result: "result_text r \<Longrightarrow> DecodeJobResult (encode_result r) = Inr r"
proof -
  assume r: "result_text r"
  have "json_first (encode_result r @ []) = Some (JObj [(''ok'', JBool (res_OK r)), (''message'', JStr (res_Message r))])"
    unfolding encode_result_def using r job_field_utf8(2)
    by (intro json_first_print) (simp_all add: result_text_def)
  then show ?thesis
    by (simp add: DecodeJobResult_def decode_struct_def assign_result_field_def)
qed

definition job_key :: "string \<times> string \<Rightarrow> bool" where
  "job_key k \<longleftrightarrow> clean_root (fst k) \<and> slash \<notin> set (snd k) \<and> snd k \<noteq> [] \<and> snd k \<noteq> ''.'' \<and> snd k \<noteq> ''..''"

lemma job_key_path: "job_key (d, n) \<Longrightarrow> Join [d, n] = d @ slash # n"
  by (simp add: job_key_def Join_clean_root)

lemma job_key_ext: "clean_root d \<Longrightarrow> slash \<notin> set jid \<Longrightarrow> job_key (d, jid @ JobRequestExt)"
  "clean_root d \<Longrightarrow> slash \<notin> set jid \<Longrightarrow> job_key (d, jid @ JobBundleExt)"
  "clean_root d \<Longrightarrow> slash \<notin> set jid \<Longrightarrow> job_key (d, jid @ JobResultExt)"
  by (auto simp: job_key_def append_eq_Cons_conv)

lemma job_temp_differs: "n \<noteq> (''.'' @ n @ ''.tmp-'') @ r @ []"
  by (rule notI) (drule arg_cong [where f = length], simp)

lemma WriteJobFile_atomic:
  assumes "job_key (d, n)" "lookup (tree w) (Join [d, n]) \<in> old" "lookup (durable w) (Join [d, n]) \<in> old"
  shows "wp (WriteJobFile d n data) (atomic_write (Join [d, n]) old (File data True) w) w"
  unfolding WriteJobFile_def
  using assms job_temp_differs [of n] job_key_path [OF assms(1)]
  by (intro replace_file_atomic [where n = n]) (auto simp: job_key_def)

text \<open>Without faults a job file is written, and nothing else changes.\<close>

lemma WriteJobFile_succeeds:
  assumes "faults w = []" "lookup (tree w) d = Some Directory"
    and "free_temp (tree w) d (''.'' @ n @ ''.tmp-'') [] (entropy w) = Some (tmp, rs)"
    and "job_key (d, n)" "lookup (tree w) (Join [d, n]) \<noteq> Some Directory"
  shows "\<exists>w'. run_state (WriteJobFile d n data) w = (Inr (), w') \<and> faults w' = [] \<and> entropy w' = rs
     \<and> (\<forall>q. lookup (tree w') q = (if q = Join [d, n] then Some (File data True) else lookup (tree w) q))"
proof -
  have d: "d \<noteq> []" "Join [d, n] = d @ slash # n" using assms(4) by (auto simp: job_key_def job_key_path [OF assms(4)])
  have "\<exists>w'. run_state (WriteJobFile d n data) w = (Inr (), w') \<and> faults w' = [] \<and> entropy w' = rs"
    unfolding WriteJobFile_def
    by (rule replace_file_succeeds [OF assms(1-3) d job_temp_differs assms(5)])
  then obtain w' where w': "run_state (WriteJobFile d n data) w = (Inr (), w')" "faults w' = []" "entropy w' = rs" by blast
  with wp_run [OF WriteJobFile_atomic [OF assms(4), of w UNIV] w'(1)] show ?thesis by (auto simp: atomic_write_def)
qed

definition read_result :: "string \<times> string \<Rightarrow> JobResult result io" where
  "read_result k = do {
     r \<leftarrow> os_ReadFile (Join [fst k, snd k]);
     return (case r of Inl e \<Rightarrow> Fail e | Inr data \<Rightarrow> DecodeJobResult data)
   }"

definition result_stored :: "string \<times> string \<Rightarrow> JobResult \<Rightarrow> world \<Rightarrow> bool" where
  "result_stored k r w \<longleftrightarrow> lookup (tree w) (Join [fst k, snd k]) = Some (File (encode_result r) True)"

interpretation jobs: durable_cells job_key read_result "\<lambda>k r. WriteJobFile (fst k) (snd k) (encode_result r)"
  result_stored result_text
proof unfold_locales
  show "wp (read_result k) (\<lambda>x w'. same_files w w' \<and> (\<forall>y. x = Inr y \<longrightarrow> y = r)) w"
    if "result_text r" "result_stored k r w" for r k w
    unfolding read_result_def wp_bind
  proof (rule wp_os_ReadFile, goal_cases)
    case (1 x w1)
    with that show ?case
      by (cases x) (simp_all add: result_stored_def decode_encode_result)
  qed
  show "run_state (read_result k) w = (Inr r, w)"
    if "result_text r" "result_stored k r w" "faults w = []" for r k w
    using that by (simp add: read_result_def os_ReadFile_def result_stored_def decode_encode_result)
  show "wp (WriteJobFile (fst k) (snd k) (encode_result r)) (\<lambda>x w'. x = Inr () \<longrightarrow> result_stored k r w') w"
    if "job_key k" for k r w
  proof (rule wp_mono [OF WriteJobFile_atomic [where old = UNIV]])
    show "job_key (fst k, snd k)" using that by simp
  qed (simp_all add: result_stored_def atomic_write_def)
qed

section \<open>Facts: the outcome of a job\<close>

text \<open>The names a job may use in the job spool: its three files and the temporary file of its result.\<close>

definition job_file :: "Agent \<Rightarrow> string \<Rightarrow> string \<Rightarrow> bool" where
  "job_file a jid q \<longleftrightarrow> q \<in> {job_path a (jid @ JobRequestExt), job_path a (jid @ JobBundleExt), job_path a (jid @ JobResultExt)}
     \<or> (\<exists>r. q = ag_workdir a @ slash # ''.'' @ jid @ JobResultExt @ ''.tmp-'' @ r)"

lemma untouched_finish [frame]: "\<not> job_file a jid q \<Longrightarrow> untouched q (finish a jid ok msg)"
  unfolding finish_def WriteJobFile_def job_file_def by (intro frame) auto

lemma free_temp_mono:
  assumes "\<And>q. lookup t q = None \<Longrightarrow> lookup t' q = None" "free_temp t d pre suf rs \<noteq> None"
  shows "free_temp t' d pre suf rs \<noteq> None"
  using assms(2) by (induction rs) (auto simp: Let_def dest: assms(1) split: if_splits)

lemma run_Remove_nil:
  assumes "faults w = []" "lookup (tree w) p \<noteq> Some Directory" "p \<noteq> ''/''"
  shows "\<exists>r w'. run_state (os_Remove p) w = (r, w') \<and> faults w' = [] \<and> entropy w' = entropy w \<and> durable w' = durable w
     \<and> (\<forall>q. lookup (tree w') q = (if q = p then None else lookup (tree w) q))"
  using assms by (auto simp: os_Remove_def split: option.split)

lemma finish_run:
  assumes "faults w = []" "clean_root (ag_workdir a)" "slash \<notin> set jid"
    and "lookup (tree w) (ag_workdir a) = Some Directory"
    and "list_all (\<lambda>x. lookup (tree w) (job_path a (jid @ x)) \<noteq> Some Directory) [JobRequestExt, JobBundleExt, JobResultExt]"
    and "free_temp (tree w) (ag_workdir a) (''.'' @ jid @ JobResultExt @ ''.tmp-'') [] (entropy w) \<noteq> None"
  shows "\<exists>w'. run_state (finish a jid ok msg) w = ((), w') \<and> faults w' = []
    \<and> (\<forall>q. lookup (tree w') q =
         (if q = job_path a (jid @ JobResultExt) then Some (File (encode_result \<lparr>res_OK = ok, res_Message = msg\<rparr>) True)
          else if q \<in> {job_path a (jid @ JobRequestExt), job_path a (jid @ JobBundleExt)} then None else lookup (tree w) q))"
proof -
  define res where "res = \<lparr>res_OK = ok, res_Message = msg\<rparr>"
  let ?req = "job_path a (jid @ JobRequestExt)" and ?bun = "job_path a (jid @ JobBundleExt)" and ?res = "job_path a (jid @ JobResultExt)"
  note key = job_key_ext [OF assms(2,3)]
  note path = key [THEN job_key_path]
  have ne: "?req \<noteq> ''/''" "?bun \<noteq> ''/''" "?req \<noteq> ?res" "?bun \<noteq> ?res" "ag_workdir a \<noteq> ?req" "ag_workdir a \<noteq> ?bun" "?req \<noteq> ?bun"
    "ag_workdir a \<noteq> []" using assms(2) by (auto simp: path append_eq_Cons_conv)
  obtain r1 w1 where 1: "run_state (os_Remove ?req) w = (r1, w1)" "faults w1 = []" "entropy w1 = entropy w"
    "\<And>q. lookup (tree w1) q = (if q = ?req then None else lookup (tree w) q)"
    using run_Remove_nil [OF assms(1) _ ne(1)] assms(5) by auto
  have "lookup (tree w1) ?bun \<noteq> Some Directory" using 1(4) [of ?bun] assms(5) by simp
  then obtain r2 w2 where 2: "run_state (os_Remove ?bun) w1 = (r2, w2)" "faults w2 = []" "entropy w2 = entropy w1"
    "\<And>q. lookup (tree w2) q = (if q = ?bun then None else lookup (tree w1) q)"
    using run_Remove_nil [OF 1(2) _ ne(2)] by meson
  have "free_temp (tree w2) (ag_workdir a) (''.'' @ (jid @ JobResultExt) @ ''.tmp-'') [] (entropy w2) \<noteq> None"
  proof (rule free_temp_mono [of "tree w"])
    show "lookup (tree w2) q = None" if "lookup (tree w) q = None" for q using that by (simp add: 1(4) 2(4))
  qed (use assms(6) 1(3) 2(3) in simp)
  then obtain tmp rs where f: "free_temp (tree w2) (ag_workdir a) (''.'' @ (jid @ JobResultExt) @ ''.tmp-'') [] (entropy w2) = Some (tmp, rs)"
    by auto
  have d: "lookup (tree w2) (ag_workdir a) = Some Directory" "lookup (tree w2) ?res \<noteq> Some Directory"
    using assms(4,5) ne by (simp_all add: 1(4) 2(4))
  obtain w3 where 3: "run_state (WriteJobFile (ag_workdir a) (jid @ JobResultExt) (encode_result res)) w2 = (Inr (), w3)" "faults w3 = []"
    and q: "\<And>q. lookup (tree w3) q = (if q = ?res then Some (File (encode_result res) True) else lookup (tree w2) q)"
    using WriteJobFile_succeeds [OF 2(2) d(1) f key(3) d(2)] by blast
  have "run_state (finish a jid ok msg) w = ((), w3)" using 1(1) 2(1) 3(1) by (simp add: finish_def res_def)
  with 3(2) q show ?thesis by (auto simp: 2(4) 1(4) res_def)
qed

text \<open>
  C30. Handing over a finished job, without faults: the request and the staged bundle are consumed, the
  result file holds, durably, exactly the outcome, and running the same job again (a queued event, a
  restart) does nothing at all.
\<close>

theorem finish_hands_over:
  assumes "faults w = []" "clean_root (ag_workdir a)" "slash \<notin> set jid" "valid_utf8 msg"
    and "lookup (tree w) (ag_workdir a) = Some Directory"
    and "list_all (\<lambda>x. lookup (tree w) (job_path a (jid @ x)) \<noteq> Some Directory) [JobRequestExt, JobBundleExt, JobResultExt]"
    and "free_temp (tree w) (ag_workdir a) (''.'' @ jid @ JobResultExt @ ''.tmp-'') [] (entropy w) \<noteq> None"
    and "run_state (finish a jid ok msg) w = (u, w')"
  shows "lookup (tree w') (job_path a (jid @ JobRequestExt)) = None \<and> lookup (tree w') (job_path a (jid @ JobBundleExt)) = None
    \<and> run_state (read_result (ag_workdir a, jid @ JobResultExt)) w' = (Inr \<lparr>res_OK = ok, res_Message = msg\<rparr>, w')
    \<and> run_state (processJob git a jid) w' = ((), w')"
proof -
  define res where "res = \<lparr>res_OK = ok, res_Message = msg\<rparr>"
  note key = job_key_ext [OF assms(2,3)]
  from finish_run [OF assms(1,2,3,5,6,7), of ok msg] assms(8) have f: "faults w' = []"
    and q: "\<And>q. lookup (tree w') q = (if q = job_path a (jid @ JobResultExt) then Some (File (encode_result res) True)
      else if q \<in> {job_path a (jid @ JobRequestExt), job_path a (jid @ JobBundleExt)} then None else lookup (tree w) q)"
    by (auto simp: res_def)
  have t: "result_text res" using assms(4) by (simp add: result_text_def res_def)
  have "run_state (read_result (ag_workdir a, jid @ JobResultExt)) w' = (Inr res, w')"
    by (rule jobs.load_quiet [OF t _ f]) (simp add: result_stored_def q)
  moreover have gone: "lookup (tree w') (job_path a (jid @ JobRequestExt)) = None" "lookup (tree w') (job_path a (jid @ JobBundleExt)) = None"
    by (simp_all add: q key [THEN job_key_path])
  moreover from gone(1) have "run_state (processJob git a jid) w' = ((), w')"
    using f by (simp add: processJob_def os_ReadFile_def)
  ultimately show ?thesis unfolding res_def by blast
qed

section \<open>Facts: deletion\<close>

lemma wp_RealpathUnder:
  assumes "\<And>x w'. same_files w w' \<Longrightarrow> (\<forall>p. x = Inr p \<longrightarrow> (\<exists>p0. resolve (tree w) dir = Inr p0 \<and> p = Clean p0 \<and>
      (is_rooted root \<longrightarrow> below (Clean root) p))) \<Longrightarrow> Q x w'"
  shows "wp (RealpathUnder root dir) Q w"
proof -
  have s: "same_files w w2" if "same_files w w1" "same_files w1 w2" for w1 w2 using that same_files_trans by blast
  have e: "wp (EvalSymlinks dir \<bind> (\<lambda>rr. case rr of
           Inl e \<Rightarrow> return (Fail (Wrapf ''resolve %s: %w'' [dir] e))
         | Inr resolved \<Rightarrow>
             (let clean = Clean resolved in
              if clean \<noteq> absRoot \<and> \<not> HasPrefix clean (absRoot @ ''/'')
              then return (Fail (Errf ''%s escapes %s'' [clean, absRoot]))
              else return (Ok clean)))) Q w1" if "same_files w w1" "is_rooted root \<longrightarrow> absRoot = Clean root" for absRoot w1
    unfolding wp_bind
    by (rule wp_EvalSymlinks) (use that in \<open>auto simp: Let_def below_def same_files_fields split: sum.split intro!: assms elim: s\<close>)
  show ?thesis
    unfolding RealpathUnder_def wp_bind [of "filepath_Abs _"] filepath_Abs_def
    by (auto simp: wp_simps intro!: e [simplified] wp_syscall assms)
qed

text \<open>If the name \<open>q\<close> changed since \<open>w\<close>, it was inside the bare repository that the job's valid name resolves to.\<close>

definition delete_confined :: "Agent \<Rightarrow> JobRequest \<Rightarrow> string \<Rightarrow> world \<Rightarrow> world \<Rightarrow> bool" where
  "delete_confined a req q w w' \<longleftrightarrow> (lookup (tree w') q \<noteq> lookup (tree w) q \<longrightarrow> ValidName (job_Repo req)
     \<and> (\<exists>p. resolve (tree w) (Join [ag_reposRoot a, job_Repo req @ ''.git'']) = Inr p
          \<and> below (Clean (ag_reposRoot a)) (Clean p) \<and> bare_layout (tree w) (Clean p) \<and> below (Clean p) q))"

lemma delete_confined_same: "tree w1 = tree w \<Longrightarrow> delete_confined a req q w w1"
  by (simp add: delete_confined_def)

lemma delete_confined_finish:
  assumes "\<not> job_file a jid q" "delete_confined a req q w w1"
  shows "wp (finish a jid b m) (\<lambda>_. delete_confined a req q w) w1"
proof (rule wpI)
  fix r w2
  assume "run_state (finish a jid b m) w1 = (r, w2)"
  from untouched_tree [OF untouched_finish [OF assms(1)] this] assms(2) show "delete_confined a req q w w2"
    by (simp add: delete_confined_def)
qed

lemma delete_confined_remove:
  assumes "\<not> job_file a jid q" "tree w1 = tree w" "ValidName (job_Repo req)"
    and "resolve (tree w) (Join [ag_reposRoot a, job_Repo req @ ''.git'']) = Inr p0" "p = Clean p0"
    and "below (Clean (ag_reposRoot a)) p" "bare_layout (tree w) p"
  shows "wp (os_RemoveAll p \<bind> (\<lambda>rm. case rm of Inl e \<Rightarrow> finish a jid False (f e) | Inr _ \<Rightarrow> finish a jid True g))
    (\<lambda>_. delete_confined a req q w) w1"
  unfolding wp_bind
proof (rule wpI)
  fix x w2
  assume r: "run_state (os_RemoveAll p) w1 = (x, w2)"
  have "delete_confined a req q w w2"
    using untouched_tree [OF untouched_RemoveAll r, of q] assms unfolding delete_confined_def by (cases "below p q") auto
  then show "wp (case x of Inl e \<Rightarrow> finish a jid False (f e) | Inr _ \<Rightarrow> finish a jid True g) (\<lambda>_. delete_confined a req q w) w2"
    by (cases x) (simp_all add: delete_confined_finish assms(1))
qed

lemma delete_confined_bare:
  assumes "\<not> job_file a jid q" "tree w1 = tree w" "ValidName (job_Repo req)"
    and "resolve (tree w) (Join [ag_reposRoot a, job_Repo req @ ''.git'']) = Inr p0" "p = Clean p0"
    and "below (Clean (ag_reposRoot a)) p"
  shows "wp (IsBareRepo p \<bind> (\<lambda>rb. case rb of Inl e \<Rightarrow> finish a jid False (f e) | Inr b \<Rightarrow> if \<not> b then finish a jid False g else
      os_RemoveAll p \<bind> (\<lambda>rm. case rm of Inl e \<Rightarrow> finish a jid False (h e) | Inr _ \<Rightarrow> finish a jid True k)))
    (\<lambda>_. delete_confined a req q w) w1"
  unfolding wp_bind [of "IsBareRepo _"]
proof (rule wp_mono [OF IsBareRepo_sound], goal_cases)
  case (1 x w2)
  then have "tree w2 = tree w" using assms(2) same_files_fields [of w1 w2] by simp
  with 1 assms show ?case
    by (cases x) (auto simp: delete_confined_finish delete_confined_same intro!: delete_confined_remove)
qed

text \<open>
  C13. What a delete job may destroy, whatever fails: any name outside the job's own spool files that changes
  lies inside the directory that \<open>root/<repo>.git\<close> resolves to, for an allowlisted name; that directory is
  at or below the repository root and had the layout of a bare repository.
\<close>

theorem deleteRepo_confined:
  assumes "is_rooted (ag_reposRoot a)" "run_state (deleteRepo a jid req) w = (u, w')"
    and "\<not> job_file a jid q" "lookup (tree w') q \<noteq> lookup (tree w) q"
  shows "ValidName (job_Repo req) \<and> (\<exists>p. resolve (tree w) (Join [ag_reposRoot a, job_Repo req @ ''.git'']) = Inr p
    \<and> below (Clean (ag_reposRoot a)) (Clean p) \<and> bare_layout (tree w) (Clean p) \<and> below (Clean p) q)"
proof -
  have "wp (deleteRepo a jid req) (\<lambda>_. delete_confined a req q w) w"
  proof (cases "ValidName (job_Repo req)")
    case True
    show ?thesis
      unfolding deleteRepo_def Let_def if_not_P [of "\<not> ValidName (job_Repo req)", OF not_not [THEN iffD2, OF True]] wp_bind [of "RealpathUnder _ _"]
    proof (rule wp_RealpathUnder, goal_cases)
      case (1 x w1)
      then have "tree w1 = tree w" by (simp add: same_files_fields)
      with 1 True assms(1,3) show ?case
        by (cases x) (auto simp: delete_confined_finish delete_confined_same intro!: delete_confined_bare)
    qed
  qed (simp add: deleteRepo_def delete_confined_finish delete_confined_same assms(3))
  from wp_run [OF this assms(2)] assms(4) show ?thesis by (simp add: delete_confined_def)
qed

lemma deleteRepo_run:
  assumes "faults w = []" "ValidName (job_Repo req)" "is_rooted (ag_reposRoot a)"
    and "resolve (tree w) (Join [ag_reposRoot a, job_Repo req @ ''.git'']) = Inr p"
    and "below (Clean (ag_reposRoot a)) (Clean p)" "bare_layout (tree w) (Clean p)"
  shows "\<exists>w'. run_state (deleteRepo a jid req) w = run_state (finish a jid True ''repo deleted'') w' \<and> faults w' = [] \<and> entropy w' = entropy w
    \<and> (\<forall>q. lookup (tree w') q = (if q \<noteq> ''/'' \<and> below (Clean p) q then None else lookup (tree w) q))"
proof -
  obtain w1 where w1: "run_state (os_RemoveAll (Clean p)) w = (Inr (), w1)" "faults w1 = []" "entropy w1 = entropy w"
    "\<And>q. lookup (tree w1) q = (if q \<noteq> ''/'' \<and> below (Clean p) q then None else lookup (tree w) q)"
    using assms(1) by (auto simp: os_RemoveAll_def lookup_def map_of_filter_key)
  show ?thesis
    using w1 assms(2) run_RealpathUnder_nil [OF assms(1,3,4,5)] run_IsBareRepo_nil [OF assms(1,6)]
    by (intro exI [of _ w1]) (simp add: deleteRepo_def Let_def)
qed

text \<open>The job \<open>jid\<close> as the agent finds it: its request is there, the rest of its names are free.\<close>

lemma processJob_delete:
  assumes "faults w = []" "clean_root (ag_workdir a)" "slash \<notin> set jid" "lookup (tree w) (ag_workdir a) = Some Directory"
    and "lookup (tree w) (job_path a (jid @ JobRequestExt)) = Some (File (encode_request req) b)" "request_text req" "job_Type req = ''delete''"
    and "list_all (\<lambda>x. lookup (tree w) (job_path a (jid @ x)) = None) [JobBundleExt, JobResultExt]"
    and "free_temp (tree w) (ag_workdir a) (''.'' @ jid @ JobResultExt @ ''.tmp-'') [] (entropy w) \<noteq> None"
    and "ValidName (job_Repo req)" "is_rooted (ag_reposRoot a)"
    and "resolve (tree w) (Join [ag_reposRoot a, job_Repo req @ ''.git'']) = Inr p"
    and "below (Clean (ag_reposRoot a)) (Clean p)" "bare_layout (tree w) (Clean p)" "\<not> below (Clean p) (ag_workdir a)"
  shows "\<exists>w'. run_state (processJob git a jid) w = ((), w') \<and> faults w' = []
    \<and> (\<forall>q. lookup (tree w') q =
         (if q = job_path a (jid @ JobResultExt) then Some (File (encode_result \<lparr>res_OK = True, res_Message = ''repo deleted''\<rparr>) True)
          else if q \<in> {job_path a (jid @ JobRequestExt), job_path a (jid @ JobBundleExt)} then None
          else if q \<noteq> ''/'' \<and> below (Clean p) q then None else lookup (tree w) q))"
proof -
  obtain w1 where 1: "run_state (deleteRepo a jid req) w = run_state (finish a jid True ''repo deleted'') w1" "faults w1 = []" "entropy w1 = entropy w"
    "\<And>q. lookup (tree w1) q = (if q \<noteq> ''/'' \<and> below (Clean p) q then None else lookup (tree w) q)"
    using deleteRepo_run [OF assms(1,10-14)] by blast
  have free: "free_temp (tree w1) (ag_workdir a) (''.'' @ jid @ JobResultExt @ ''.tmp-'') [] (entropy w1) \<noteq> None"
    unfolding 1(3) by (rule free_temp_mono [OF _ assms(9)]) (simp add: 1(4))
  have d: "lookup (tree w1) (ag_workdir a) = Some Directory" using assms(4,15) by (simp add: 1(4))
  have l: "list_all (\<lambda>x. lookup (tree w1) (job_path a (jid @ x)) \<noteq> Some Directory) [JobRequestExt, JobBundleExt, JobResultExt]"
    using assms(5,8) by (simp add: 1(4))
  from finish_run [OF 1(2) assms(2,3) d l free, of True "''repo deleted''"] obtain w' where w':
    "run_state (finish a jid True ''repo deleted'') w1 = ((), w')" "faults w' = []"
    "\<forall>q. lookup (tree w') q = (if q = job_path a (jid @ JobResultExt) then Some (File (encode_result \<lparr>res_OK = True, res_Message = ''repo deleted''\<rparr>) True)
       else if q \<in> {job_path a (jid @ JobRequestExt), job_path a (jid @ JobBundleExt)} then None else lookup (tree w1) q)" by blast
  have "run_state (processJob git a jid) w = ((), w')"
    using assms(1,5,7) decode_encode_request [OF assms(6)] 1(1) w'(1) by (simp add: processJob_def os_ReadFile_def)
  with w'(2,3) show ?thesis by (auto simp: 1(4))
qed

section \<open>Concrete jobs\<close>

definition sample_agent :: Agent where "sample_agent = NewAgent sample_mirror ''/w'' ''/srv''"

definition bare_at :: "string \<Rightarrow> names" where
  "bare_at d = [(d, Directory), (d @ ''/HEAD'', File [] True), (d @ ''/objects'', Directory), (d @ ''/refs'', Directory)]"

definition agent_world :: "names \<Rightarrow> world" where
  "agent_world t = (mirror_world [])\<lparr>tree := [(''/w'', Directory), (''/srv'', Directory)] @ t\<rparr>"

theorem finish_hands_over_witness:
  "\<exists>w'. run_state (finish sample_agent ''j'' True ''done'') (agent_world [(''/w/j.request'', File [] True)]) = ((), w')
     \<and> lookup (tree w') ''/w/j.request'' = None
     \<and> run_state (read_result (''/w'', ''j.result'')) w' = (Inr \<lparr>res_OK = True, res_Message = ''done''\<rparr>, w')"
proof -
  let ?w = "agent_world [(''/w/j.request'', File [] True)]"
  have c: "faults ?w = []" "clean_root (ag_workdir sample_agent)" "slash \<notin> set ''j''"
    "lookup (tree ?w) (ag_workdir sample_agent) = Some Directory"
    "list_all (\<lambda>x. lookup (tree ?w) (job_path sample_agent (''j'' @ x)) \<noteq> Some Directory) [JobRequestExt, JobBundleExt, JobResultExt]"
    "free_temp (tree ?w) (ag_workdir sample_agent) (''.'' @ ''j'' @ JobResultExt @ ''.tmp-'') [] (entropy ?w) \<noteq> None"
    "job_path sample_agent (''j'' @ JobRequestExt) = ''/w/j.request''" "(ag_workdir sample_agent, ''j'' @ JobResultExt) = (''/w'', ''j.result'')"
    by code_simp+
  have u: "valid_utf8 ''done''" by (simp add: valid_utf8_ascii code_def)
  let ?run = "run_state (finish sample_agent ''j'' True ''done'') ?w"
  have "?run = ((), snd ?run)" by (rule prod_eqI) simp_all
  with finish_hands_over [OF c(1,2,3) u c(4,5,6) run_result [OF refl], unfolded c(7,8)]
  show ?thesis by blast
qed

lemma sample_delete:
  "lookup (tree (snd (run_state (deleteRepo sample_agent ''j'' \<lparr>job_Type = ''delete'', job_Repo = ''a'', job_Bundle = []\<rparr>) (agent_world (bare_at ''/srv/a.git''))))) ''/srv/a.git/HEAD'' = None"
  by code_simp

theorem deleteRepo_confined_witness:
  "\<exists>w'. run_state (deleteRepo sample_agent ''j'' \<lparr>job_Type = ''delete'', job_Repo = ''a'', job_Bundle = []\<rparr>) (agent_world (bare_at ''/srv/a.git'')) = ((), w')
     \<and> lookup (tree w') ''/srv/a.git/HEAD'' = None \<and> bare_layout (tree (agent_world (bare_at ''/srv/a.git''))) ''/srv/a.git''"
proof -
  let ?w = "agent_world (bare_at ''/srv/a.git'')"
  let ?run = "run_state (deleteRepo sample_agent ''j'' \<lparr>job_Type = ''delete'', job_Repo = ''a'', job_Bundle = []\<rparr>) ?w"
  have c: "is_rooted (ag_reposRoot sample_agent)" "job_path sample_agent (''j'' @ JobRequestExt) = ''/w/j.request''"
    "job_path sample_agent (''j'' @ JobBundleExt) = ''/w/j.bundle''" "job_path sample_agent (''j'' @ JobResultExt) = ''/w/j.result''"
    "ag_workdir sample_agent = ''/w''" "lookup (tree ?w) ''/srv/a.git/HEAD'' = Some (File [] True)"
    "resolve (tree ?w) (Join [ag_reposRoot sample_agent, ''a'' @ ''.git'']) = Inr ''/srv/a.git''" "Clean ''/srv/a.git'' = ''/srv/a.git''"
    by code_simp+
  have j: "\<not> job_file sample_agent ''j'' ''/srv/a.git/HEAD''" unfolding job_file_def c(2-4) using c(5) by simp
  have ne: "lookup (tree (snd ?run)) ''/srv/a.git/HEAD'' \<noteq> lookup (tree ?w) ''/srv/a.git/HEAD''"
    using sample_delete c(6) by simp
  have "bare_layout (tree ?w) ''/srv/a.git''"
    using deleteRepo_confined [OF c(1) run_result [OF refl] j ne] c(7,8) by auto
  moreover have "?run = ((), snd ?run)" by (rule prod_eqI) simp_all
  ultimately show ?thesis using sample_delete by blast
qed

text \<open>
  The removed directory is the resolved one: with \<open>/srv/a.git\<close> a symbolic link to \<open>b.git\<close>, deleting the
  repository \<open>a\<close> removes the repository \<open>b\<close> and leaves the link.
\<close>

theorem deleteRepo_follows_alias:
  "let w = agent_world ((''/srv/a.git'', Symlink ''b.git'') # bare_at ''/srv/b.git'');
       w' = snd (run_state (deleteRepo sample_agent ''j'' \<lparr>job_Type = ''delete'', job_Repo = ''a'', job_Bundle = []\<rparr>) w)
   in lookup (tree w') ''/srv/b.git'' = None \<and> lookup (tree w') ''/srv/a.git'' = Some (Symlink ''b.git'')"
  by code_simp

end
