(* ===== verification/Config.thy ===== *)
theory Config
  imports Go_Fs Go_Time Go_Json "HOL-Library.Monad_Syntax"
begin

text \<open>
  \<open>internal/config\<close>: the two configuration files, their defaults and fail-fast checks, the duration
  strings, and the runtime that swaps in a reloaded configuration. The YAML decoder is not part of the
  repository: decoding a document over a start value, and whether the document is the only one, are
  parameters.
\<close>

section \<open>Durations\<close>

text \<open>
  \<open>time.ParseDuration\<close>: a signed sequence of decimal numbers with units. The accumulator is a 64-bit
  unsigned integer that may not pass \<open>2^63\<close>. A fraction is taken exactly and cut to the nanosecond.
\<close>

definition two63 :: int where "two63 = 2 ^ 63"

definition duration_unit :: "string \<Rightarrow> int option" where
  "duration_unit u = map_of [(''ns'', 1), (''us'', 1000), ([CHR 0xC2, CHR 0xB5, CHR ''s''], 1000),
     ([CHR 0xCE, CHR 0xBC, CHR ''s''], 1000), (''ms'', 1000000), (''s'', nsec), (''m'', 60 * nsec), (''h'', 3600 * nsec)] u"

definition unit_char :: "char \<Rightarrow> bool" where
  "unit_char c \<longleftrightarrow> c \<noteq> CHR ''.'' \<and> \<not> is_digit c"

text \<open>One number with its unit: the nanoseconds and the rest of the string.\<close>

definition duration_item :: "string \<Rightarrow> (int \<times> string) option" where
  "duration_item s =
     (let ds = takeWhile is_digit s; s1 = dropWhile is_digit s;
          dot = (s1 \<noteq> [] \<and> hd s1 = CHR ''.'');
          s2 = (if dot then tl s1 else s1);
          fs = (if dot then takeWhile is_digit s2 else []);
          s3 = (if dot then dropWhile is_digit s2 else s2);
          u = takeWhile unit_char s3; v = int (dec_value ds) in
      if two63 < v \<or> (ds = [] \<and> fs = []) then None
      else case duration_unit u of
        None \<Rightarrow> None
      | Some unit \<Rightarrow>
          if two63 div unit < v then None
          else let n = v * unit + int (dec_value fs) * unit div 10 ^ length fs in
            if two63 < n then None else Some (n, dropWhile unit_char s3))"

lemma duration_item_shorter: "duration_item s = Some (n, r) \<Longrightarrow> length r < length s"
proof -
  assume d: "duration_item s = Some (n, r)"
  let ?s1 = "dropWhile is_digit s"
  let ?s3 = "if ?s1 \<noteq> [] \<and> hd ?s1 = CHR ''.'' then dropWhile is_digit (tl ?s1) else ?s1"
  have r: "r = dropWhile unit_char ?s3" and u: "takeWhile unit_char ?s3 \<noteq> []"
    using d by (auto simp: duration_item_def Let_def duration_unit_def split: if_splits option.splits)
  have "length ?s3 \<le> length s"
    by (auto intro!: le_trans [OF length_dropWhile_le] simp: le_diff_conv le_SucI length_dropWhile_le)
  moreover have "length r < length ?s3"
    using u r by (metis length_append length_greater_0_conv less_add_same_cancel2 takeWhile_dropWhile_id)
  ultimately show ?thesis by simp
qed

function duration_items :: "int \<Rightarrow> string \<Rightarrow> int option" where
  "duration_items d s =
     (if s = [] then Some d
      else if hd s \<noteq> CHR ''.'' \<and> \<not> is_digit (hd s) then None
      else case duration_item s of
        None \<Rightarrow> None
      | Some (v, r) \<Rightarrow> if two63 < d + v then None else duration_items (d + v) r)"
  by pat_completeness auto
termination
  by (relation "measure (length \<circ> snd)") (auto dest: duration_item_shorter)

declare duration_items.simps [simp del]

definition time_ParseDuration :: "string \<Rightarrow> duration option" where
  "time_ParseDuration s =
     (let neg = (s \<noteq> [] \<and> hd s = CHR ''-''); body = (if s \<noteq> [] \<and> hd s \<in> {CHR ''-'', CHR ''+''} then tl s else s) in
      if body = ''0'' then Some 0
      else if body = [] then None
      else case duration_items 0 body of
        None \<Rightarrow> None
      | Some d \<Rightarrow> if neg then Some (- d) else if two63 - 1 < d then None else Some d)"

text \<open>\<open>strconv.ParseInt(s, 10, 64)\<close>: an optional sign and decimal digits, in the range of \<open>int64\<close>.\<close>

definition strconv_ParseInt :: "string \<Rightarrow> int option" where
  "strconv_ParseInt s =
     (if s \<noteq> [] \<and> hd s = CHR ''+'' then (if tl s \<noteq> [] \<and> hd (tl s) = CHR ''-'' then None else parse_int64 (tl s)) else parse_int64 s)"

definition ParseDuration :: "string \<Rightarrow> duration result" where
  "ParseDuration s =
     (case CutSuffix s ''d'' of
        Some rest \<Rightarrow>
          (case strconv_ParseInt rest of
             None \<Rightarrow> Fail (Errf ''parse day duration: %s'' [rest])
           | Some days \<Rightarrow>
               if days < 0 then Fail (Errf ''negative duration'' [])
               else Ok (wrap64 (wrap64 (days * 24) * (3600 * nsec))))
      | None \<Rightarrow>
          (case time_ParseDuration s of None \<Rightarrow> Fail (Errf ''time: invalid duration %q'' [s]) | Some d \<Rightarrow> Ok d))"

definition UnmarshalYAML :: "string \<Rightarrow> duration result" where
  "UnmarshalYAML v = (case ParseDuration v of Inl e \<Rightarrow> Fail (Wrapf ''invalid duration %q: %w'' [v] e) | Inr d \<Rightarrow> Ok d)"

section \<open>gitd.yaml\<close>

record LogConfig =
  Level :: string
  Format :: string

record StorageConfig =
  sto_Type :: string
  Bucket :: string
  Region :: string
  Prefix :: string

record TLSConfig =
  Cert :: string
  Key :: string
  ClientCA :: string
  RevocationList :: string

record DDNSConfig =
  ddns_Host :: string
  ddns_Domain :: string
  PasswordFile :: string
  Interval :: duration

record SpoolConfig =
  Retention :: duration

text \<open>A \<open>uint8\<close>: 0 to 255.\<close>

record ServeConfig =
  ActionsBufferSize :: nat

record MirrorConfig =
  VerifyInterval :: duration
  RestoreOnStart :: bool

text \<open>The free-form values of the policy settings.\<close>

datatype yaml_any = YNull | YBool bool | YInt int | YStr string | YList "yaml_any list" | YMap "(string \<times> yaml_any) list"

record PoliciesConfig =
  Enabled :: "string list"
  pol_Config :: "(string \<times> yaml_any) list"

record GitdConfig =
  cfg_Log :: LogConfig
  Storage :: StorageConfig
  cfg_TLS :: TLSConfig
  GitBinary :: string
  ObjectFormat :: string
  Render :: string
  DDNS :: DDNSConfig
  DiskMinFreeBytes :: nat
  cfg_Spool :: SpoolConfig
  cfg_Serve :: ServeConfig
  HostAllowlist :: "string list"
  cfg_Mirror :: MirrorConfig
  Policies :: PoliciesConfig
  cfg_path :: string

definition DefaultConfig :: GitdConfig where
  "DefaultConfig = \<lparr>
     cfg_Log = \<lparr>Level = ''info'', Format = ''text''\<rparr>,
     Storage = \<lparr>sto_Type = ''s3'', Bucket = ''git.cmposer.cc'', Region = ''us-east-2'', Prefix = ''repos''\<rparr>,
     cfg_TLS = \<lparr>Cert = ''/etc/gitd/tls/server.crt'', Key = ''/etc/gitd/tls/server.key'',
       ClientCA = ''/etc/gitd/tls/client-ca.crt'', RevocationList = ''/etc/gitd/tls/revoked.crl''\<rparr>,
     GitBinary = ''/usr/local/bin/git'', ObjectFormat = ''sha1'', Render = ''server'',
     DDNS = \<lparr>ddns_Host = ''git'', ddns_Domain = ''cmposer.cc'', PasswordFile = ''/etc/gitd/ddns-password'', Interval = 6 * 3600 * nsec\<rparr>,
     DiskMinFreeBytes = 512 * 1024 * 1024,
     cfg_Spool = \<lparr>Retention = 90 * 24 * 3600 * nsec\<rparr>,
     cfg_Serve = \<lparr>ActionsBufferSize = 64\<rparr>,
     HostAllowlist = [''git.cmposer.cc'', ''localhost'', ''127.0.0.1''],
     cfg_Mirror = \<lparr>VerifyInterval = 7 * 24 * 3600 * nsec, RestoreOnStart = True\<rparr>,
     Policies = \<lparr>Enabled = [], pol_Config = []\<rparr>, cfg_path = []\<rparr>"

text \<open>The closure \<open>errf\<close>: one error naming the file, when the check fails.\<close>

definition check_that :: "string \<Rightarrow> bool \<Rightarrow> string \<Rightarrow> gerror list" where
  "check_that path ok msg = (if ok then [] else [Errf ''%s: %s'' [path, msg]])"

definition GitdConfig_validate :: "GitdConfig \<Rightarrow> gerror option" where
  "GitdConfig_validate c =
     (let errf = check_that (cfg_path c); q = (\<lambda>s. [dquote_char] @ s @ [dquote_char]) in errors_Join (
        errf (Level (cfg_Log c) \<in> {''debug'', ''info'', ''warn'', ''error''}) (''log.level: must be debug|info|warn|error, got '' @ q (Level (cfg_Log c)))
      @ errf (Format (cfg_Log c) \<in> {''text'', ''json''}) (''log.format: must be text|json, got '' @ q (Format (cfg_Log c)))
      @ errf (sto_Type (Storage c) = ''s3'') (''storage.type: only s3 is supported in v1, got '' @ q (sto_Type (Storage c)))
      @ errf (Bucket (Storage c) \<noteq> []) ''storage.bucket: must not be empty''
      @ errf (Region (Storage c) \<noteq> []) ''storage.region: must not be empty''
      @ errf (GitBinary c \<noteq> []) ''git_binary: must not be empty''
      @ errf (ObjectFormat c \<in> {''sha1'', ''sha256''}) (''object_format: must be sha1|sha256, got '' @ q (ObjectFormat c))
      @ errf (Render c \<in> {''server'', ''client'', ''none''}) (''render: must be server|client|none, got '' @ q (Render c))
      @ errf (0 < Interval (DDNS c)) ''ddns.interval: must be positive''
      @ errf (0 < Retention (cfg_Spool c)) ''spool.retention: must be positive''
      @ errf (0 < VerifyInterval (cfg_Mirror c)) ''mirror.verify_interval: must be positive''
      @ errf (HostAllowlist c \<noteq> []) ''host_allowlist: must not be empty''))"

text \<open>The YAML decoder: decode the first document over a start value; is there no second one?\<close>

record 'a yaml_decoder =
  yaml_Decode :: "bytes \<Rightarrow> 'a \<Rightarrow> 'a result"
  yaml_at_EOF :: "bytes \<Rightarrow> bool"

definition unmarshalStrict :: "'a yaml_decoder \<Rightarrow> bytes \<Rightarrow> 'a \<Rightarrow> 'a result" where
  "unmarshalStrict y data dst =
     (case yaml_Decode y data dst of
        Inl e \<Rightarrow> Fail e
      | Inr v \<Rightarrow> if \<not> yaml_at_EOF y data then Fail (Errf ''unexpected content after document'' []) else Ok v)"

definition LoadGitd :: "GitdConfig yaml_decoder \<Rightarrow> string \<Rightarrow> GitdConfig result io" where
  "LoadGitd y path = do {
     r \<leftarrow> os_ReadFile path;
     return (case r of
        Inl e \<Rightarrow> Fail (Wrapf ''%s: %w'' [path] e)
      | Inr data \<Rightarrow>
          (case unmarshalStrict y data DefaultConfig of
             Inl e \<Rightarrow> Fail (Wrapf ''%s: %w'' [path] e)
           | Inr cfg0 \<Rightarrow>
               (let cfg = cfg0\<lparr>cfg_path := path\<rparr> in
                case GitdConfig_validate cfg of Some e \<Rightarrow> Fail e | None \<Rightarrow> Ok cfg)))
   }"

section \<open>The log level\<close>

datatype LogLevel = LevelDebug | LevelInfo | LevelWarn | LevelError

text \<open>slog's numbers of the levels.\<close>

definition level_num :: "LogLevel \<Rightarrow> int" where
  "level_num l = (case l of LevelDebug \<Rightarrow> -4 | LevelInfo \<Rightarrow> 0 | LevelWarn \<Rightarrow> 4 | LevelError \<Rightarrow> 8)"

instantiation LogLevel :: linorder
begin

definition less_eq_LogLevel :: "LogLevel \<Rightarrow> LogLevel \<Rightarrow> bool" where
  "less_eq_LogLevel a b \<longleftrightarrow> level_num a \<le> level_num b"

definition less_LogLevel :: "LogLevel \<Rightarrow> LogLevel \<Rightarrow> bool" where
  "less_LogLevel a b \<longleftrightarrow> level_num a < level_num b"

instance
  by intro_classes
    (auto simp: less_eq_LogLevel_def less_LogLevel_def level_num_def split: LogLevel.splits)

end

text \<open>\<open>NewLogger\<close>: the least level the handler emits, and whether it prints JSON.\<close>

definition NewLogger :: "GitdConfig \<Rightarrow> (LogLevel \<times> bool) result" where
  "NewLogger c =
     (let json = (Format (cfg_Log c) = ''json''); l = Level (cfg_Log c) in
      if l = ''debug'' then Ok (LevelDebug, json)
      else if l = ''info'' then Ok (LevelInfo, json)
      else if l = ''warn'' then Ok (LevelWarn, json)
      else if l = ''error'' then Ok (LevelError, json)
      else Fail (Errf ''%s: log.level: invalid %q'' [cfg_path c, l]))"

section \<open>webhooks.yaml\<close>

record PluginConfig =
  plugin_ID :: string
  plugin_Type :: string
  URLTemplate :: string
  SecretFile :: string
  Sync :: bool
  Repos :: "string list"
  Timeout :: duration
  Retries :: int
  InsecureSkipVerify :: bool

record WebhooksConfig =
  Plugins :: "PluginConfig list"
  wh_path :: string

definition plugin_defaults :: "PluginConfig \<Rightarrow> PluginConfig" where
  "plugin_defaults p = p\<lparr>Timeout := (if Timeout p = 0 then 30 * nsec else Timeout p),
     Retries := (if Retries p = 0 then 3 else Retries p), Repos := (if Repos p = [] then [''*''] else Repos p)\<rparr>"

text \<open>The checks on plugin number \<open>i\<close>, with its defaults filled in and the identifiers seen before it.\<close>

definition plugin_errors :: "string \<Rightarrow> nat \<Rightarrow> string list \<Rightarrow> PluginConfig \<Rightarrow> gerror list" where
  "plugin_errors path i seen p =
     (let errf = check_that path; at = ''plugins['' @ show_nat i @ '']''; at_id = ''plugins['' @ plugin_ID p @ '']'';
          q = (\<lambda>s. [dquote_char] @ s @ [dquote_char]) in
        errf (0 \<le> Timeout p) (at @ ''.timeout: must be positive'')
      @ errf (0 \<le> Retries p) (at @ ''.retries: must not be negative'')
      @ errf (plugin_ID p \<noteq> []) (at @ '': id must not be empty'')
      @ errf (plugin_ID p \<notin> set seen) (''plugins: duplicate plugin id '' @ q (plugin_ID p))
      @ (if plugin_Type p = ''http'' then errf (URLTemplate p \<noteq> []) (at_id @ ''.url_template: required for type http'')
         else if plugin_Type p = ''logger'' then []
         else errf False (at_id @ ''.type: must be http|logger, got '' @ q (plugin_Type p))))"

text \<open>The loop of \<open>validate\<close>: the plugins with their defaults, and all errors.\<close>

fun validate_plugins :: "string \<Rightarrow> nat \<Rightarrow> string list \<Rightarrow> PluginConfig list \<Rightarrow> PluginConfig list \<times> gerror list" where
  "validate_plugins path i seen [] = ([], [])"
| "validate_plugins path i seen (p0 # ps) =
     (let p = plugin_defaults p0 in
      case validate_plugins path (Suc i) (plugin_ID p # seen) ps of
        (qs, es) \<Rightarrow> (p # qs, plugin_errors path i seen p @ es))"

definition WebhooksConfig_validate :: "WebhooksConfig \<Rightarrow> WebhooksConfig \<times> gerror option" where
  "WebhooksConfig_validate c =
     (case validate_plugins (wh_path c) 0 [] (Plugins c) of (ps, es) \<Rightarrow> (c\<lparr>Plugins := ps\<rparr>, errors_Join es))"

definition LoadWebhooks :: "WebhooksConfig yaml_decoder \<Rightarrow> string \<Rightarrow> WebhooksConfig result io" where
  "LoadWebhooks y path = do {
     r \<leftarrow> os_ReadFile path;
     return (case r of
        Inl e \<Rightarrow> Fail (Wrapf ''%s: %w'' [path] e)
      | Inr data \<Rightarrow>
          (case unmarshalStrict y data \<lparr>Plugins = [], wh_path = []\<rparr> of
             Inl e \<Rightarrow> Fail (Wrapf ''%s: %w'' [path] e)
           | Inr cfg0 \<Rightarrow>
               (case WebhooksConfig_validate (cfg0\<lparr>wh_path := path\<rparr>) of
                  (cfg, Some e) \<Rightarrow> Fail e
                | (cfg, None) \<Rightarrow> Ok cfg)))
   }"

section \<open>The runtime\<close>

record Runtime =
  gitdPath :: string
  webhooksPath :: string
  rt_gitd :: GitdConfig
  rt_webhooks :: WebhooksConfig

definition Load :: "GitdConfig yaml_decoder \<Rightarrow> WebhooksConfig yaml_decoder \<Rightarrow> string \<Rightarrow> string \<Rightarrow> Runtime result io" where
  "Load yg yw gp hp = do {
     rg \<leftarrow> LoadGitd yg gp;
     case rg of
       Inl e \<Rightarrow> return (Fail e)
     | Inr g \<Rightarrow> do {
         rw \<leftarrow> LoadWebhooks yw hp;
         return (case rw of
            Inl e \<Rightarrow> Fail e
          | Inr h \<Rightarrow> Ok \<lparr>gitdPath = gp, webhooksPath = hp, rt_gitd = g, rt_webhooks = h\<rparr>) }
   }"

text \<open>\<open>Reload\<close> returns its error together with the runtime as readers see it afterwards.\<close>

definition Reload :: "GitdConfig yaml_decoder \<Rightarrow> WebhooksConfig yaml_decoder \<Rightarrow> Runtime \<Rightarrow> (unit result \<times> Runtime) io" where
  "Reload yg yw r = do {
     rw \<leftarrow> LoadWebhooks yw (webhooksPath r);
     case rw of
       Inl e \<Rightarrow> return (Fail e, r)
     | Inr h \<Rightarrow> do {
         rg \<leftarrow> LoadGitd yg (gitdPath r);
         return (case rg of
            Inl e \<Rightarrow> (Fail e, r)
          | Inr g \<Rightarrow> (Ok (), r\<lparr>rt_webhooks := h, rt_gitd := g\<rparr>)) }
   }"

section \<open>Facts: durations\<close>

lemma wrap64_eq: "\<exists>k. wrap64 i = i - k * 2 ^ 64"
proof -
  have "(i + 2 ^ 63) mod 2 ^ 64 = i + 2 ^ 63 - (i + 2 ^ 63) div 2 ^ 64 * 2 ^ 64" by (rule minus_div_mult_eq_mod [symmetric])
  then show ?thesis unfolding wrap64_def by (intro exI [of _ "(i + 2 ^ 63) div 2 ^ 64"]) simp
qed

lemma wrap64_cong: "wrap64 (i + k * 2 ^ 64) = wrap64 i"
proof -
  have "(i + k * 2 ^ 64 + 2 ^ 63) mod 2 ^ 64 = (i + 2 ^ 63) mod (2 ^ 64 :: int)"
    using mod_mult_self1 [of "i + 2 ^ 63" k "2 ^ 64 :: int"] by (simp add: algebra_simps)
  then show ?thesis by (simp add: wrap64_def)
qed

lemma wrap64_mult: "wrap64 (wrap64 a * b) = wrap64 (a * b)"
proof -
  obtain k where k: "wrap64 a = a - k * 2 ^ 64" using wrap64_eq by blast
  have "wrap64 a * b = a * b + (- (k * b)) * 2 ^ 64" unfolding k by (simp add: algebra_simps)
  then show ?thesis using wrap64_cong by metis
qed

lemma ParseInt_show_nat: "n < 2 ^ 63 \<Longrightarrow> strconv_ParseInt (show_nat n) = Some (int n)"
proof -
  assume n: "n < 2 ^ 63"
  have "show_nat n \<noteq> [] \<and> hd (show_nat n) \<noteq> CHR ''+''"
    using show_nat_digits [of n] by (cases "show_nat n") (auto simp: is_digit_def code_def)
  moreover have "parse_int64 (show_int (int n)) = Some (int n)" using n by (intro parse_show_int) simp_all
  ultimately show ?thesis by (simp add: strconv_ParseInt_def show_int_def)
qed

text \<open>
  C32. Day durations: a decimal number of days up to the range of \<open>int64\<close> parses to the 64-bit product with
  the nanoseconds of a day. The product is the real duration exactly up to 106751 days; beyond that it
  wraps around, so that for example \<open>213504d\<close> is accepted as a duration of less than half an hour.
\<close>

theorem ParseDuration_days:
  assumes "n < 2 ^ 63"
  shows "ParseDuration (show_nat n @ ''d'') = Inr (wrap64 (int n * 86400 * nsec))
    \<and> (n \<le> 106751 \<longleftrightarrow> int n * 86400 * nsec < 2 ^ 63)
    \<and> (n \<le> 106751 \<longrightarrow> ParseDuration (show_nat n @ ''d'') = Inr (int n * 86400 * nsec))
    \<and> ParseDuration ''213504d'' = Inr 1526290448384"
proof -
  have p: "ParseDuration (show_nat n @ ''d'') = Inr (wrap64 (int n * 86400 * nsec))"
    using wrap64_mult [of "int n * 24" "3600 * nsec"] ParseInt_show_nat [OF assms]
    by (simp add: ParseDuration_def)
  have "wrap64 (int n * 86400 * nsec) = int n * 86400 * nsec" if "n \<le> 106751" using that by (intro wrap64_id) auto
  moreover have "n \<le> 106751 \<longleftrightarrow> int n * 86400 * nsec < 2 ^ 63" by auto
  moreover have "ParseDuration ''213504d'' = Inr 1526290448384"
  proof -
    have "show_nat 213504 = ''213504''" by (simp add: show_nat.simps digit_char_def) code_simp
    then have "strconv_ParseInt ''213504'' = Some 213504" using ParseInt_show_nat [of 213504] by simp
    then show ?thesis by (simp add: ParseDuration_def CutSuffix_def HasSuffix_def wrap64_def)
  qed
  ultimately show ?thesis using p by auto
qed

theorem ParseDuration_days_witness:
  "(90 :: nat) < 2 ^ 63 \<and> ParseDuration (show_nat 90 @ ''d'') = Inr (90 * 86400 * nsec)"
  using ParseDuration_days [of 90] by simp

section \<open>Facts: validation\<close>

text \<open>What the checks establish.\<close>

definition gitd_ok :: "GitdConfig \<Rightarrow> bool" where
  "gitd_ok c \<longleftrightarrow> Level (cfg_Log c) \<in> {''debug'', ''info'', ''warn'', ''error''} \<and> Format (cfg_Log c) \<in> {''text'', ''json''}
     \<and> sto_Type (Storage c) = ''s3'' \<and> Bucket (Storage c) \<noteq> [] \<and> Region (Storage c) \<noteq> [] \<and> GitBinary c \<noteq> []
     \<and> ObjectFormat c \<in> {''sha1'', ''sha256''} \<and> Render c \<in> {''server'', ''client'', ''none''}
     \<and> 0 < Interval (DDNS c) \<and> 0 < Retention (cfg_Spool c) \<and> 0 < VerifyInterval (cfg_Mirror c) \<and> HostAllowlist c \<noteq> []"

definition plugin_ok :: "PluginConfig \<Rightarrow> bool" where
  "plugin_ok p \<longleftrightarrow> 0 < Timeout p \<and> 0 < Retries p \<and> Repos p \<noteq> [] \<and> plugin_ID p \<noteq> []
     \<and> (plugin_Type p = ''logger'' \<or> plugin_Type p = ''http'' \<and> URLTemplate p \<noteq> [])"

definition plugins_ok :: "PluginConfig list \<Rightarrow> bool" where
  "plugins_ok ps \<longleftrightarrow> list_all plugin_ok ps \<and> distinct (map plugin_ID ps)"

lemma check_that_Nil [simp]: "check_that p b m = [] \<longleftrightarrow> b"
  by (simp add: check_that_def)

lemma errors_Join_None [simp]: "errors_Join es = None \<longleftrightarrow> es = []"
  by (simp add: errors_Join_def)

lemma GitdConfig_validate_iff: "GitdConfig_validate c = None \<longleftrightarrow> gitd_ok c"
  unfolding GitdConfig_validate_def Let_def errors_Join_None append_is_Nil_conv check_that_Nil gitd_ok_def ..

lemma plugin_errors_Nil:
  "plugin_errors path i seen (plugin_defaults p) = [] \<longleftrightarrow> plugin_ok (plugin_defaults p) \<and> plugin_ID p \<notin> set seen"
  by (auto simp: plugin_errors_def plugin_ok_def plugin_defaults_def Let_def)

lemma validate_plugins_spec:
  "validate_plugins path i seen ps = (qs, []) \<Longrightarrow>
     qs = map plugin_defaults ps \<and> list_all plugin_ok qs \<and> distinct (map plugin_ID qs) \<and> (\<forall>q \<in> set qs. plugin_ID q \<notin> set seen)"
proof (induction ps arbitrary: i seen qs)
  case (Cons p ps)
  obtain rs es where v: "validate_plugins path (Suc i) (plugin_ID (plugin_defaults p) # seen) ps = (rs, es)" by fastforce
  with Cons.prems have q: "qs = plugin_defaults p # rs" "plugin_errors path i seen (plugin_defaults p) = []" "es = []"
    by (auto simp: Let_def)
  moreover have "plugin_ID (plugin_defaults p) = plugin_ID p" by (simp add: plugin_defaults_def)
  ultimately show ?case using Cons.IH [of "Suc i" "plugin_ID (plugin_defaults p) # seen" rs] v by (auto simp: plugin_errors_Nil)
qed simp

lemma WebhooksConfig_validate_ok: "WebhooksConfig_validate c = (c', None) \<Longrightarrow> plugins_ok (Plugins c')"
  by (auto simp: WebhooksConfig_validate_def plugins_ok_def split: prod.splits dest!: validate_plugins_spec)

lemma wp_LoadGitd: "wp (LoadGitd y p) (\<lambda>r w'. same_files w w' \<and> (\<forall>c. r = Inr c \<longrightarrow> gitd_ok c \<and> cfg_path c = p)) w"
  unfolding LoadGitd_def wp_bind
  by (rule wp_os_ReadFile) (auto simp: Let_def GitdConfig_validate_iff split: sum.split option.split)

lemma wp_LoadWebhooks: "wp (LoadWebhooks y p) (\<lambda>r w'. same_files w w' \<and> (\<forall>c. r = Inr c \<longrightarrow> plugins_ok (Plugins c))) w"
  unfolding LoadWebhooks_def wp_bind
  by (rule wp_os_ReadFile) (auto split: sum.split option.split prod.split dest!: WebhooksConfig_validate_ok)

definition runtime_ok :: "Runtime \<Rightarrow> bool" where
  "runtime_ok r \<longleftrightarrow> gitd_ok (rt_gitd r) \<and> plugins_ok (Plugins (rt_webhooks r))"

lemma wp_Load: "wp (Load yg yw gp hp) (\<lambda>r w'. same_files w w' \<and> (\<forall>rt. r = Inr rt \<longrightarrow> runtime_ok rt)) w"
  unfolding Load_def wp_bind
proof (rule wp_mono [OF wp_LoadGitd], goal_cases)
  case (1 r w1)
  then show ?case
    by (cases r) (auto simp: wp_bind runtime_ok_def split: sum.split intro!: wp_mono [OF wp_LoadWebhooks] dest: same_files_trans)
qed

lemma wp_Reload:
  "runtime_ok r \<Longrightarrow> wp (Reload yg yw r) (\<lambda>(e, r') w'. same_files w w' \<and> runtime_ok r' \<and> (e \<noteq> Inr () \<longrightarrow> r' = r)
     \<and> gitdPath r' = gitdPath r \<and> webhooksPath r' = webhooksPath r) w"
  unfolding Reload_def wp_bind
proof (rule wp_mono [OF wp_LoadWebhooks], goal_cases)
  case (1 x w1)
  then show ?case
    by (cases x) (auto simp: wp_bind runtime_ok_def split: sum.split intro!: wp_mono [OF wp_LoadGitd] dest: same_files_trans)
qed

text \<open>The configuration a process runs with: loaded at the start, then reloaded any number of times.\<close>

inductive live_config :: "GitdConfig yaml_decoder \<Rightarrow> WebhooksConfig yaml_decoder \<Rightarrow> Runtime \<Rightarrow> bool" for yg yw where
  started: "run_state (Load yg yw gp hp) w = (Inr r, w') \<Longrightarrow> live_config yg yw r"
| reloaded: "live_config yg yw r \<Longrightarrow> run_state (Reload yg yw r) w = ((e, r'), w') \<Longrightarrow> live_config yg yw r'"

text \<open>
  C18. The live configuration is always a validated one: at any moment after start-up, after any sequence of
  successful and failed reloads of whatever the files contain, the level, format, storage, render mode,
  intervals and host list pass every check, and the plugins have distinct non-empty identifiers, positive
  timeouts and retry counts, a repository filter and, for http, a URL; a failed reload changes nothing.
\<close>

theorem live_config_valid:
  assumes "live_config yg yw r"
  shows "gitd_ok (rt_gitd r) \<and> list_all plugin_ok (Plugins (rt_webhooks r)) \<and> distinct (map plugin_ID (Plugins (rt_webhooks r)))
    \<and> (\<forall>w e r' w'. run_state (Reload yg yw r) w = ((Inl e, r'), w') \<longrightarrow> r' = r)"
proof -
  from assms have ok: "runtime_ok r"
  proof induction
    case (started gp hp w r w')
    with wp_run [OF wp_Load started] show ?case by blast
  next
    case (reloaded r w e r' w')
    with wp_run [OF wp_Reload [OF reloaded.IH] reloaded.hyps(2)] show ?case by auto
  qed
  moreover have "r' = r" if "run_state (Reload yg yw r) w = ((Inl e, r'), w')" for w e r' w'
    using wp_run [OF wp_Reload [OF ok] that] by simp
  ultimately show ?thesis by (auto simp: runtime_ok_def plugins_ok_def)
qed

text \<open>A decoder that leaves the start value as it is: the defaults alone form a valid configuration.\<close>

definition keep_yaml :: "'a yaml_decoder" where
  "keep_yaml = \<lparr>yaml_Decode = (\<lambda>d v. Ok v), yaml_at_EOF = (\<lambda>d. True)\<rparr>"

definition config_world :: world where
  "config_world = \<lparr>tree = [(''/g'', File [] True), (''/h'', File [] True)], durable = [], faults = [], entropy = [], cwd = ''/'',
     execs = [], journal = [], written = [], objects = []\<rparr>"

theorem live_config_valid_witness: "\<exists>r. live_config keep_yaml keep_yaml r \<and> gitd_ok (rt_gitd r)"
proof -
  have "GitdConfig_validate (DefaultConfig\<lparr>cfg_path := ''/g''\<rparr>) = None"
    unfolding GitdConfig_validate_iff by (simp add: gitd_ok_def DefaultConfig_def)
  then have "\<exists>r. run_state (Load keep_yaml keep_yaml ''/g'' ''/h'') config_world = (Inr r, config_world)"
    by (simp add: Load_def LoadGitd_def LoadWebhooks_def os_ReadFile_def config_world_def lookup_def unmarshalStrict_def
        keep_yaml_def WebhooksConfig_validate_def errors_Join_def Let_def)
  then obtain r where "live_config keep_yaml keep_yaml r" using live_config.started by blast
  with live_config_valid [OF this] show ?thesis by blast
qed

lemma logger_for_valid: "gitd_ok c \<Longrightarrow> \<exists>l. NewLogger c = Inr (l, Format (cfg_Log c) = ''json'') \<and> LevelDebug \<le> l \<and> l \<le> LevelError"
  by (auto simp: gitd_ok_def NewLogger_def Let_def less_eq_LogLevel_def level_num_def)

end
