(* ===== verification/Event.thy ===== *)
theory Event
  imports Go_Json Go_Time Go_Errors
begin

text \<open>
  \<open>internal/event/event.go\<close>: the event envelope shared by spool files and webhook payloads, its strict
  decoder and its JSON encoding.
\<close>

abbreviation SchemaVersion :: int where "SchemaVersion \<equiv> 1"

abbreviation TypePush :: string where "TypePush \<equiv> ''push''"
abbreviation TypeRefCreated :: string where "TypeRefCreated \<equiv> ''ref-created''"
abbreviation TypeRefDeleted :: string where "TypeRefDeleted \<equiv> ''ref-deleted''"

record Commit =
  SHA :: string
  Subject :: string
  Author :: string

text \<open>\<open>Commits\<close> is a slice: \<open>None\<close> is the nil slice, printed as \<open>null\<close>.\<close>

record Event =
  ev_SchemaVersion :: int
  EventID :: string
  CreatedAt :: string
  ev_Repo :: string
  Ref :: string
  ev_Type :: string
  Commits :: "Commit list option"

definition zero_Commit :: Commit where
  "zero_Commit = \<lparr>SHA = [], Subject = [], Author = []\<rparr>"

definition zero_Event :: Event where
  "zero_Event = \<lparr>ev_SchemaVersion = 0, EventID = [], CreatedAt = [], ev_Repo = [], Ref = [], ev_Type = [], Commits = None\<rparr>"

abbreviation ErrNewerSchema :: string where "ErrNewerSchema \<equiv> ''event.ErrNewerSchema''"

section \<open>Struct fields\<close>

abbreviation commit_fields :: "string list" where "commit_fields \<equiv> [''sha'', ''subject'', ''author'']"

definition assign_commit_field :: "string \<Rightarrow> json \<Rightarrow> Commit \<Rightarrow> Commit option" where
  "assign_commit_field f j c =
     (if f = ''sha'' then map_option (\<lambda>s. c\<lparr>SHA := s\<rparr>) (assign_string j (SHA c))
      else if f = ''subject'' then map_option (\<lambda>s. c\<lparr>Subject := s\<rparr>) (assign_string j (Subject c))
      else map_option (\<lambda>s. c\<lparr>Author := s\<rparr>) (assign_string j (Author c)))"

text \<open>
  The elements of an array, decoded into a slice: an element the slice already has (from an earlier
  member of the same name) is the start value of its successor.
\<close>

fun assign_commits :: "json list \<Rightarrow> Commit list \<Rightarrow> Commit list option" where
  "assign_commits [] old = Some []"
| "assign_commits (j # js) old =
     (case decode_struct commit_fields True assign_commit_field j (case old of [] \<Rightarrow> zero_Commit | c # _ \<Rightarrow> c) of
        None \<Rightarrow> None
      | Some c \<Rightarrow> map_option ((#) c) (assign_commits js (tl old)))"

definition assign_commit_slice :: "json \<Rightarrow> Commit list option \<Rightarrow> Commit list option option" where
  "assign_commit_slice j old =
     (case j of
        JNull \<Rightarrow> Some None
      | JArr js \<Rightarrow> map_option Some (assign_commits js (case old of None \<Rightarrow> [] | Some cs \<Rightarrow> cs))
      | _ \<Rightarrow> None)"

abbreviation event_fields :: "string list" where
  "event_fields \<equiv> [''schema-version'', ''event-id'', ''created-at'', ''repo'', ''ref'', ''type'', ''commits'']"

definition assign_event_field :: "string \<Rightarrow> json \<Rightarrow> 'a Event_scheme \<Rightarrow> 'a Event_scheme option" where
  "assign_event_field f j e =
     (if f = ''schema-version'' then map_option (\<lambda>v. e\<lparr>ev_SchemaVersion := v\<rparr>) (assign_int j (ev_SchemaVersion e))
      else if f = ''event-id'' then map_option (\<lambda>s. e\<lparr>EventID := s\<rparr>) (assign_string j (EventID e))
      else if f = ''created-at'' then map_option (\<lambda>s. e\<lparr>CreatedAt := s\<rparr>) (assign_string j (CreatedAt e))
      else if f = ''repo'' then map_option (\<lambda>s. e\<lparr>ev_Repo := s\<rparr>) (assign_string j (ev_Repo e))
      else if f = ''ref'' then map_option (\<lambda>s. e\<lparr>Ref := s\<rparr>) (assign_string j (Ref e))
      else if f = ''type'' then map_option (\<lambda>s. e\<lparr>ev_Type := s\<rparr>) (assign_string j (ev_Type e))
      else map_option (\<lambda>cs. e\<lparr>Commits := cs\<rparr>) (assign_commit_slice j (Commits e)))"

definition commit_json :: "Commit \<Rightarrow> json" where
  "commit_json c = JObj [(''sha'', JStr (SHA c)), (''subject'', JStr (Subject c)), (''author'', JStr (Author c))]"

definition commits_json :: "Commit list option \<Rightarrow> json" where
  "commits_json cs = (case cs of None \<Rightarrow> JNull | Some l \<Rightarrow> JArr (map commit_json l))"

definition event_members :: "'a Event_scheme \<Rightarrow> (string \<times> json) list" where
  "event_members e =
     [(''schema-version'', JNum (show_int (ev_SchemaVersion e))), (''event-id'', JStr (EventID e)),
      (''created-at'', JStr (CreatedAt e)), (''repo'', JStr (ev_Repo e)), (''ref'', JStr (Ref e)),
      (''type'', JStr (ev_Type e)), (''commits'', commits_json (Commits e))]"

section \<open>Decode and Encode\<close>

definition known_type :: "string \<Rightarrow> bool" where
  "known_type t \<longleftrightarrow> t = TypePush \<or> t = TypeRefCreated \<or> t = TypeRefDeleted"

definition Decode :: "bytes \<Rightarrow> Event result" where
  "Decode data =
     (case Option.bind (json_first data) (\<lambda>j. decode_struct event_fields True assign_event_field j zero_Event) of
        None \<Rightarrow> Fail (Errf ''decode event: json'' [])
      | Some ev \<Rightarrow>
          if ev_SchemaVersion ev = 0 then Fail (Errf ''decode event: missing schema-version'' [])
          else if ev_SchemaVersion ev > SchemaVersion
          then Fail (Wrapf ''%w: got %d'' [show_int (ev_SchemaVersion ev)] (Sentinel ErrNewerSchema))
          else if \<not> known_type (ev_Type ev) then Fail (Errf ''decode event: unknown type %q'' [ev_Type ev])
          else if parse_RFC3339 (CreatedAt ev) = None then Fail (Errf ''decode event: created-at'' [])
          else Ok ev)"

definition Encode :: "Event \<Rightarrow> bytes" where
  "Encode e = print_json (JObj (event_members e))"

section \<open>Facts\<close>

text \<open>An event whose fields survive JSON: strings in UTF-8, the version in the range of \<open>int\<close>.\<close>

definition commit_ok :: "Commit \<Rightarrow> bool" where
  "commit_ok c \<longleftrightarrow> valid_utf8 (SHA c) \<and> valid_utf8 (Subject c) \<and> valid_utf8 (Author c)"

definition event_ok :: "'a Event_scheme \<Rightarrow> bool" where
  "event_ok e \<longleftrightarrow> - (2 ^ 63) \<le> ev_SchemaVersion e \<and> ev_SchemaVersion e < 2 ^ 63
     \<and> list_all valid_utf8 [EventID e, CreatedAt e, ev_Repo e, Ref e, ev_Type e]
     \<and> (case Commits e of None \<Rightarrow> True | Some cs \<Rightarrow> list_all commit_ok cs)"

lemma field_name_utf8 [simp]: "list_all valid_utf8 commit_fields" "list_all valid_utf8 event_fields"
  by (simp_all add: valid_utf8_ascii code_def)

lemma decode_commit_json:
  "decode_struct commit_fields True assign_commit_field (commit_json c) c0 = Some c"
  by (simp add: decode_struct_def commit_json_def assign_commit_field_def)

lemma assign_commits_json: "assign_commits (map commit_json cs) [] = Some cs"
  by (induction cs) (simp_all add: decode_commit_json)

lemma commit_slice_json: "assign_commit_slice (commits_json cs) None = Some cs"
  by (cases cs) (simp_all add: assign_commit_slice_def commits_json_def assign_commits_json)

text \<open>Copy the envelope of one record into another, keeping the rest.\<close>

definition set_envelope :: "'a Event_scheme \<Rightarrow> 'b Event_scheme \<Rightarrow> 'b Event_scheme" where
  "set_envelope e r = r\<lparr>ev_SchemaVersion := ev_SchemaVersion e, EventID := EventID e, CreatedAt := CreatedAt e,
     ev_Repo := ev_Repo e, Ref := Ref e, ev_Type := ev_Type e, Commits := Commits e\<rparr>"

lemma assign_event_members:
  assumes "event_ok e" "Commits e0 = None"
  shows "decode_members event_fields True assign_event_field (event_members e) e0 = Some (set_envelope e e0)"
  using assms
  by (simp add: event_members_def assign_event_field_def event_ok_def parse_show_int commit_slice_json set_envelope_def)

lemma decode_event_members:
  assumes "event_ok e"
  shows "decode_members event_fields True assign_event_field (event_members e) zero_Event = Some (e :: Event)"
  using assign_event_members [OF assms, of zero_Event] by (simp add: zero_Event_def set_envelope_def)

lemma elems_ok_commits: "list_all commit_ok cs \<Longrightarrow> elems_ok (map commit_json cs)"
  by (induction cs) (simp_all add: commit_json_def commit_ok_def valid_utf8_ascii code_def)

lemma members_ok_event: "event_ok e \<Longrightarrow> members_ok (event_members e)"
  by (auto simp: event_members_def event_ok_def commits_json_def valid_utf8_ascii code_def elems_ok_commits
      split: option.split)

lemma Decode_valid:
  assumes "Decode data = Inr ev"
  shows "ev_SchemaVersion ev \<noteq> 0 \<and> ev_SchemaVersion ev \<le> SchemaVersion \<and> known_type (ev_Type ev) \<and> parse_RFC3339 (CreatedAt ev) \<noteq> None"
  using assms by (auto simp: Decode_def split: option.splits if_splits)

text \<open>
  C25. Round trip of the event envelope: an event that is valid (current schema version, known type,
  RFC 3339 creation time) and whose text is well-formed UTF-8 is decoded from its own encoding
  unchanged; a missing or newer version, an unknown type and a malformed time are each refused on the
  way back with their own error.
\<close>

theorem Decode_Encode:
  assumes "event_ok e"
  shows "Decode (Encode e) =
    (if ev_SchemaVersion e = 0 then Fail (Errf ''decode event: missing schema-version'' [])
     else if SchemaVersion < ev_SchemaVersion e
     then Fail (Wrapf ''%w: got %d'' [show_int (ev_SchemaVersion e)] (Sentinel ErrNewerSchema))
     else if \<not> known_type (ev_Type e) then Fail (Errf ''decode event: unknown type %q'' [ev_Type e])
     else if parse_RFC3339 (CreatedAt e) = None then Fail (Errf ''decode event: created-at'' [])
     else Ok e)"
proof -
  have "json_first (Encode e @ []) = Some (JObj (event_members e))"
    unfolding Encode_def by (rule json_first_print) (simp_all add: members_ok_event assms)
  then show ?thesis
    using decode_event_members [OF assms] by (simp add: Decode_def decode_struct_def)
qed

definition sample_event :: Event where
  "sample_event = \<lparr>ev_SchemaVersion = 1, EventID = ''e1'', CreatedAt = ''2026-01-31T09:05:00Z'', ev_Repo = ''alpha'',
     Ref = ''refs/heads/main'', ev_Type = TypePush, Commits = Some [\<lparr>SHA = ''ab'', Subject = ''<fix>'', Author = ''x''\<rparr>]\<rparr>"

theorem Decode_Encode_witness: "event_ok sample_event \<and> Decode (Encode sample_event) = Inr sample_event"
proof -
  have ok: "event_ok sample_event"
    by (simp add: event_ok_def sample_event_def commit_ok_def valid_utf8_ascii code_def)
  have "parse_RFC3339 (CreatedAt sample_event) \<noteq> None" by code_simp
  then show ?thesis
    using ok Decode_Encode [OF ok] by (simp add: sample_event_def known_type_def)
qed

end
