(* ===== verification/Spool.thy ===== *)
theory Spool
  imports Event Atomic_Write
begin

text \<open>
  \<open>internal/spool\<close>: the durable event store. One file \<open><event-id>.json\<close> per event, written through a
  synced temporary file, a rename and a sync of the directory; the strict decoder; the purge of
  delivered records; the retry schedule; and the identifiers of \<open>uuid.go\<close>. A reading of the clock is
  an argument of the operations that take one.
\<close>

section \<open>Records\<close>

abbreviation StatePending :: string where "StatePending \<equiv> ''pending''"
abbreviation StateDelivered :: string where "StateDelivered \<equiv> ''delivered''"
abbreviation StateDead :: string where "StateDead \<equiv> ''dead''"

abbreviation fileExt :: string where "fileExt \<equiv> ''.json''"

record Record = Event +
  rec_State :: string
  Attempts :: int
  NextRetryAt :: string

record Store =
  st_dir :: string
  retention :: duration

definition NewStore :: "string \<Rightarrow> duration \<Rightarrow> Store" where
  "NewStore dir ret = \<lparr>st_dir = dir, retention = ret\<rparr>"

definition SetRetention :: "duration \<Rightarrow> Store \<Rightarrow> Store" where
  "SetRetention d s = s\<lparr>retention := d\<rparr>"

definition new_record :: "Event \<Rightarrow> Record" where
  "new_record ev = Event.extend ev (Record.fields StatePending 0 [])"

definition zero_Record :: Record where
  "zero_Record = Event.extend zero_Event (Record.fields [] 0 [])"

abbreviation record_fields :: "string list" where
  "record_fields \<equiv> event_fields @ [''state'', ''attempts'', ''next-retry-at'']"

definition assign_record_field :: "string \<Rightarrow> json \<Rightarrow> Record \<Rightarrow> Record option" where
  "assign_record_field f j r =
     (if f = ''state'' then map_option (\<lambda>s. r\<lparr>rec_State := s\<rparr>) (assign_string j (rec_State r))
      else if f = ''attempts'' then map_option (\<lambda>n. r\<lparr>Attempts := n\<rparr>) (assign_int j (Attempts r))
      else if f = ''next-retry-at'' then map_option (\<lambda>s. r\<lparr>NextRetryAt := s\<rparr>) (assign_string j (NextRetryAt r))
      else assign_event_field f j r)"

definition record_json :: "Record \<Rightarrow> json" where
  "record_json r = JObj (event_members r @
     [(''state'', JStr (rec_State r)), (''attempts'', JNum (show_int (Attempts r))), (''next-retry-at'', JStr (NextRetryAt r))])"

definition encode_record :: "Record \<Rightarrow> bytes" where
  "encode_record r = print_json (record_json r)"

definition decodeRecord :: "bytes \<Rightarrow> Record result" where
  "decodeRecord data =
     (case Option.bind (json_first data) (\<lambda>j. decode_struct record_fields True assign_record_field j zero_Record) of
        None \<Rightarrow> Fail (Errf ''decode spool record: json'' [])
      | Some r \<Rightarrow>
          if ev_SchemaVersion r = 0 then Fail (Errf ''decode spool record: missing schema-version'' [])
          else if ev_SchemaVersion r > SchemaVersion
          then Fail (Errf ''event schema-version %d unsupported (running %d)'' [show_int (ev_SchemaVersion r), show_int SchemaVersion])
          else Ok r)"

section \<open>Identifiers\<close>

definition formatUUID :: "bytes \<Rightarrow> string" where
  "formatUUID b = (let h = hex_EncodeToString b in
     take 8 h @ ''-'' @ take 4 (drop 8 h) @ ''-'' @ take 4 (drop 12 h) @ ''-'' @ take 4 (drop 16 h) @ ''-'' @ take 12 (drop 20 h))"

text \<open>The version and variant bits: \<open>(b[6] & 0x0f) | 0x40\<close> and \<open>(b[8] & 0x3f) | 0x80\<close>.\<close>

definition stamp_v4 :: "bytes \<Rightarrow> bytes" where
  "stamp_v4 b = b[6 := char_of (code (b ! 6) mod 16 + 64), 8 := char_of (code (b ! 8) mod 64 + 128)]"

text \<open>\<open>rand.Read\<close> of 16 bytes: the next random string, cut or padded to that length.\<close>

definition NewID :: "string result io" where
  "NewID = do {
     r \<leftarrow> next_random;
     return (case r of
        None \<Rightarrow> Fail (Errf ''uuid'' [])
      | Some s \<Rightarrow> Ok (formatUUID (stamp_v4 (take 16 (s @ replicate 16 nul_char)))))
   }"

section \<open>The store\<close>

definition spool_path :: "Store \<Rightarrow> string \<Rightarrow> string" where
  "spool_path s eid = Join [st_dir s, eid @ fileExt]"

definition writeAtomic :: "Store \<Rightarrow> string \<Rightarrow> Record \<Rightarrow> unit result io" where
  "writeAtomic s path rec =
     replace_file (st_dir s) ''.spool-'' fileExt path (encode_record rec) (Wrapf ''fsync dir: %w'' [])"

definition readFile :: "string \<Rightarrow> Record result io" where
  "readFile path = do {
     r \<leftarrow> os_ReadFile path;
     return (case r of Inl e \<Rightarrow> Fail e | Inr data \<Rightarrow> decodeRecord data)
   }"

text \<open>\<open>Write\<close> fills in a missing identifier and version of its argument; the event is returned with them.\<close>

definition Write :: "Store \<Rightarrow> Event \<Rightarrow> (string result \<times> Event) io" where
  "Write s ev = do {
     rid \<leftarrow> (if EventID ev = [] then NewID else return (Ok (EventID ev)));
     case rid of
       Inl e \<Rightarrow> return (Fail (Wrapf ''spool write: generate id: %w'' [] e), ev)
     | Inr eid \<Rightarrow>
         let ev' = ev\<lparr>EventID := eid, ev_SchemaVersion := (if ev_SchemaVersion ev = 0 then SchemaVersion else ev_SchemaVersion ev)\<rparr> in do {
           r \<leftarrow> writeAtomic s (spool_path s eid) (new_record ev');
           return (case r of
              Inl e \<Rightarrow> (Fail (Wrapf ''spool write %s: %w'' [eid] e), ev')
            | Inr _ \<Rightarrow> (Ok eid, ev')) }
   }"

definition Read :: "Store \<Rightarrow> string \<Rightarrow> Record result io" where
  "Read s eid = do {
     r \<leftarrow> readFile (spool_path s eid);
     return (case r of Inl e \<Rightarrow> Fail (Wrapf ''spool read %s: %w'' [eid] e) | Inr rec \<Rightarrow> Ok rec)
   }"

fun list_loop :: "Store \<Rightarrow> (string \<times> bool) list \<Rightarrow> Record list \<Rightarrow> Record list result io" where
  "list_loop s [] recs = return (Ok recs)"
| "list_loop s ((name, isdir) # es) recs =
     (if isdir \<or> Ext name \<noteq> fileExt then list_loop s es recs
      else do {
        r \<leftarrow> readFile (Join [st_dir s, name]);
        case r of
          Inl e \<Rightarrow> return (Fail (Wrapf ''spool list %s: %w'' [name] e))
        | Inr rec \<Rightarrow> list_loop s es (recs @ [rec]) })"

definition List_records :: "Store \<Rightarrow> Record list result io" where
  "List_records s = do {
     r \<leftarrow> os_ReadDir (st_dir s);
     case r of
       Inl e \<Rightarrow> return (Fail (Wrapf ''spool list: %w'' [] e))
     | Inr entries \<Rightarrow> do {
         rs \<leftarrow> list_loop s entries [];
         return (case rs of Inl e \<Rightarrow> Fail e | Inr recs \<Rightarrow> Ok (sort_key EventID recs)) }
   }"

definition Delete :: "Store \<Rightarrow> string \<Rightarrow> unit result io" where
  "Delete s eid = do {
     r \<leftarrow> os_Remove (spool_path s eid);
     return (case r of
        Inl e \<Rightarrow> if errors_Is e ErrNotExist then Ok () else Fail (Wrapf ''spool delete %s: %w'' [eid] e)
      | Inr _ \<Rightarrow> Ok ())
   }"

definition expired :: "Record \<Rightarrow> duration \<Rightarrow> time \<Rightarrow> bool" where
  "expired rec ret now =
     (if rec_State rec \<noteq> StateDelivered \<or> ret \<le> 0 then False
      else case parse_RFC3339 (CreatedAt rec) of
        None \<Rightarrow> False
      | Some created \<Rightarrow> ret \<le> time_Sub now created)"

fun purge_loop :: "Store \<Rightarrow> time \<Rightarrow> Record list \<Rightarrow> nat \<Rightarrow> (nat \<times> gerror option) io" where
  "purge_loop s now [] removed = return (removed, None)"
| "purge_loop s now (rec # recs) removed =
     (if \<not> expired rec (retention s) now then purge_loop s now recs removed
      else do {
        r \<leftarrow> Delete s (EventID rec);
        case r of
          Inl e \<Rightarrow> return (removed, Some e)
        | Inr _ \<Rightarrow> purge_loop s now recs (Suc removed) })"

definition Purge :: "Store \<Rightarrow> time \<Rightarrow> (nat \<times> gerror option) io" where
  "Purge s now = do {
     r \<leftarrow> List_records s;
     case r of
       Inl e \<Rightarrow> return (0, Some e)
     | Inr recs \<Rightarrow> purge_loop s now recs 0
   }"

section \<open>Retries\<close>

definition backoffSchedule :: "duration list" where
  "backoffSchedule = [30 * nsec, 5 * 60 * nsec, 30 * 60 * nsec]"

definition next_retry_at :: "int \<Rightarrow> time \<Rightarrow> time option" where
  "next_retry_at attempts now =
     (if attempts \<le> 0 \<or> int (length backoffSchedule) < attempts then None
      else Some (time_Add now (backoffSchedule ! nat (attempts - 1))))"

definition due :: "Record \<Rightarrow> time \<Rightarrow> bool" where
  "due rec now =
     (if rec_State rec \<noteq> StatePending then False
      else if NextRetryAt rec = [] then True
      else case parse_RFC3339 (NextRetryAt rec) of
        None \<Rightarrow> False
      | Some next \<Rightarrow> \<not> time_After next now)"

definition update_record :: "Store \<Rightarrow> string \<Rightarrow> (Record \<Rightarrow> Record) \<Rightarrow> Record result io" where
  "update_record s eid mutate = do {
     r \<leftarrow> readFile (spool_path s eid);
     case r of
       Inl e \<Rightarrow> return (Fail (Wrapf ''spool update %s: %w'' [eid] e))
     | Inr rec \<Rightarrow> do {
         rw \<leftarrow> writeAtomic s (spool_path s eid) (mutate rec);
         return (case rw of
            Inl e \<Rightarrow> Fail (Wrapf ''spool update %s: %w'' [eid] e)
          | Inr _ \<Rightarrow> Ok (mutate rec)) }
   }"

definition SetState :: "Store \<Rightarrow> string \<Rightarrow> string \<Rightarrow> Record result io" where
  "SetState s eid st = update_record s eid (\<lambda>rec. rec\<lparr>rec_State := st\<rparr>)"

text \<open>The closure of \<open>RecordFailure\<close>.\<close>

definition fail_attempt :: "time \<Rightarrow> Record \<Rightarrow> Record" where
  "fail_attempt now rec =
     (let n = wrap64 (Attempts rec + 1) in
      case next_retry_at n now of
        None \<Rightarrow> rec\<lparr>Attempts := n, rec_State := StateDead, NextRetryAt := []\<rparr>
      | Some next \<Rightarrow> rec\<lparr>Attempts := n, NextRetryAt := format_RFC3339 next\<rparr>)"

abbreviation ErrDead :: string where "ErrDead \<equiv> ''spool.ErrDead''"

text \<open>\<open>RecordFailure\<close> returns the record together with \<open>ErrDead\<close> when it is dead: \<open>(rec, dead)\<close>.\<close>

definition RecordFailure :: "Store \<Rightarrow> time \<Rightarrow> string \<Rightarrow> (Record \<times> gerror option) result io" where
  "RecordFailure s now eid = do {
     r \<leftarrow> update_record s eid (fail_attempt now);
     return (case r of
        Inl e \<Rightarrow> Fail e
      | Inr rec \<Rightarrow> Ok (rec, if rec_State rec = StateDead then Some (Sentinel ErrDead) else None))
   }"

definition CatchUp :: "Store \<Rightarrow> time \<Rightarrow> string list result io" where
  "CatchUp s now = do {
     r \<leftarrow> List_records s;
     return (case r of
        Inl e \<Rightarrow> Fail e
      | Inr recs \<Rightarrow> Ok (map EventID (filter (\<lambda>rec. due rec now) recs)))
   }"

section \<open>Facts: records\<close>

definition record_text :: "Record \<Rightarrow> bool" where
  "record_text r \<longleftrightarrow> event_ok r \<and> valid_utf8 (rec_State r) \<and> valid_utf8 (NextRetryAt r)
     \<and> - (2 ^ 63) \<le> Attempts r \<and> Attempts r < 2 ^ 63"

definition record_ok :: "Record \<Rightarrow> bool" where
  "record_ok r \<longleftrightarrow> record_text r \<and> ev_SchemaVersion r \<noteq> 0 \<and> ev_SchemaVersion r \<le> SchemaVersion"

lemma decode_record_json:
  "record_text r \<Longrightarrow> decode_struct record_fields True assign_record_field (record_json r) zero_Record = Some r"
  by (simp add: decode_struct_def record_json_def event_members_def assign_record_field_def assign_event_field_def
      record_text_def event_ok_def parse_show_int commit_slice_json zero_Record_def zero_Event_def Event.extend_def Record.fields_def)

lemma members_ok_append: "members_ok (xs @ ys) \<longleftrightarrow> members_ok xs \<and> members_ok ys"
  by (induction xs) auto

lemma decode_encoded:
  assumes "record_text r"
  shows "decodeRecord (encode_record r) =
    (if ev_SchemaVersion r = 0 then Fail (Errf ''decode spool record: missing schema-version'' [])
     else if ev_SchemaVersion r > SchemaVersion
     then Fail (Errf ''event schema-version %d unsupported (running %d)'' [show_int (ev_SchemaVersion r), show_int SchemaVersion])
     else Ok r)"
proof -
  have "json_ok (record_json r)"
    using assms by (simp add: record_json_def members_ok_append members_ok_event record_text_def valid_utf8_ascii code_def)
  then have "json_first (encode_record r @ []) = Some (record_json r)"
    unfolding encode_record_def by (rule json_first_print) simp
  then show ?thesis using decode_record_json [OF assms] by (simp add: decodeRecord_def)
qed

lemma decode_encode_record: "record_ok r \<Longrightarrow> decodeRecord (encode_record r) = Inr r"
  by (simp add: decode_encoded record_ok_def)

text \<open>The names under which the store keeps its records.\<close>

definition spool_key :: "Store \<times> string \<Rightarrow> bool" where
  "spool_key k \<longleftrightarrow> clean_root (st_dir (fst k)) \<and> slash \<notin> set (snd k) \<and> \<not> HasPrefix (snd k @ fileExt) ''.spool-''"

lemma spool_path_child:
  assumes "spool_key (s, eid)"
  shows "spool_path s eid = st_dir s @ slash # eid @ fileExt" "spool_path s eid \<noteq> ''/''"
proof -
  have "st_dir s \<noteq> []" using assms by (auto simp: spool_key_def clean_root_def)
  moreover show "spool_path s eid = st_dir s @ slash # eid @ fileExt"
    using assms by (simp add: spool_path_def spool_key_def Join_clean_root append_eq_Cons_conv)
  ultimately show "spool_path s eid \<noteq> ''/''" by (cases "st_dir s") auto
qed

lemma writeAtomic_spool:
  assumes "spool_key (s, eid)" "lookup (tree w) (spool_path s eid) \<in> old" "lookup (durable w) (spool_path s eid) \<in> old"
  shows "wp (writeAtomic s (spool_path s eid) rec)
    (atomic_write (spool_path s eid) old (File (encode_record rec) True) w) w"
  unfolding writeAtomic_def
  using assms spool_path_child [OF assms(1)]
  by (intro replace_file_atomic [where n = "eid @ fileExt"]) (auto simp: spool_key_def clean_root_def HasPrefix_iff)

text \<open>
  C3. Atomicity of every spool write, for any schedule of faults: at each crash point of the write a
  power loss leaves under the record's name either what was there before or the complete new record,
  never a torn file; no other existing file changes; and when the write reports success the new record
  is already on disk, directory entry included, and no temporary file remains.
\<close>

theorem writeAtomic_crash_safe:
  assumes "spool_key (s, eid)" "p = spool_path s eid"
    and "settled (lookup (tree w) p)" "settled (lookup (durable w) p)"
    and "run_state (writeAtomic s p rec) w = (r, w')"
  shows "(\<forall>js sn x. journal w' = js @ journal w \<longrightarrow> sn \<in> set js \<longrightarrow> after_crash sn p x \<longrightarrow>
        x \<in> {lookup (tree w) p, lookup (durable w) p, Some (File (encode_record rec) True)})
    \<and> (\<forall>q. q \<noteq> p \<longrightarrow> lookup (tree w) q \<noteq> None \<longrightarrow> lookup (tree w') q = lookup (tree w) q)
    \<and> (r = Inr () \<longrightarrow> lookup (durable w') p = Some (File (encode_record rec) True)
         \<and> (\<forall>q. lookup (tree w') q = (if q = p then Some (File (encode_record rec) True) else lookup (tree w) q)))"
proof -
  let ?old = "{lookup (tree w) p, lookup (durable w) p}"
  have a: "atomic_write p ?old (File (encode_record rec) True) w r w'"
    using wp_run [OF writeAtomic_spool [OF assms(1)] assms(5) [unfolded assms(2)], of ?old] assms(2) by simp
  have "x \<in> insert (Some (File (encode_record rec) True)) ?old"
    if "journal w' = js @ journal w" "sn \<in> set js" "after_crash sn p x" for js sn x
  proof (rule crash_sound_after [OF _ _ that(3)])
    show "crash_sound p ?old (File (encode_record rec) True) sn"
      using a that(1,2) by (auto simp: atomic_write_def crash_points_def list_all_iff)
  qed (use assms(3,4) in simp)
  with a show ?thesis unfolding atomic_write_def by blast
qed

section \<open>The store as durable cells\<close>

definition spool_stored :: "Store \<times> string \<Rightarrow> Record \<Rightarrow> world \<Rightarrow> bool" where
  "spool_stored k r w \<longleftrightarrow> lookup (tree w) (spool_path (fst k) (snd k)) = Some (File (encode_record r) True)"

lemma wp_readFile:
  assumes "\<And>r w'. same_files w w' \<Longrightarrow>
      (\<forall>y. r = Inr y \<longrightarrow> (\<exists>data b. lookup (tree w) p = Some (File data b) \<and> decodeRecord data = Inr y)) \<Longrightarrow> Q r w'"
  shows "wp (readFile p) Q w"
  unfolding readFile_def wp_bind
  by (rule wp_os_ReadFile) (use assms in \<open>auto split: sum.split\<close>)

lemma run_readFile_nil:
  "faults w = [] \<Longrightarrow> lookup (tree w) p = Some (File data b) \<Longrightarrow> run_state (readFile p) w = (decodeRecord data, w)"
  by (simp add: readFile_def os_ReadFile_def)

interpretation spool: durable_cells spool_key "\<lambda>k. readFile (spool_path (fst k) (snd k))"
  "\<lambda>k. writeAtomic (fst k) (spool_path (fst k) (snd k))" spool_stored record_ok
proof unfold_locales
  show "wp (readFile (spool_path (fst k) (snd k))) (\<lambda>x w'. same_files w w' \<and> (\<forall>y. x = Inr y \<longrightarrow> y = r)) w"
    if "record_ok r" "spool_stored k r w" for r k w
    using that by (intro wp_readFile) (auto simp: spool_stored_def decode_encode_record)
  show "run_state (readFile (spool_path (fst k) (snd k))) w = (Inr r, w)"
    if "record_ok r" "spool_stored k r w" "faults w = []" for r k w
    using that by (simp add: run_readFile_nil spool_stored_def decode_encode_record)
  show "wp (writeAtomic (fst k) (spool_path (fst k) (snd k)) r) (\<lambda>x w'. x = Inr () \<longrightarrow> spool_stored k r w') w"
    if "spool_key k" for k r w
    using that by (cases k) (auto simp: spool_stored_def atomic_write_def intro!: wp_mono [OF writeAtomic_spool [where old = UNIV]])
qed

section \<open>Facts: write, read, update\<close>

lemma new_record_fields [simp]:
  "rec_State (new_record e) = StatePending" "Attempts (new_record e) = 0" "NextRetryAt (new_record e) = []"
  "set_envelope e (new_record e') = new_record e"
  "ev_SchemaVersion (new_record e) = ev_SchemaVersion e" "EventID (new_record e) = EventID e"
  by (simp_all add: new_record_def set_envelope_def Event.extend_def Record.fields_def)

lemma event_ok_new_record [simp]: "event_ok (new_record e) = event_ok e"
  by (simp add: event_ok_def new_record_def Event.extend_def Record.fields_def)

lemma record_ok_new: "event_ok e \<Longrightarrow> ev_SchemaVersion e = 1 \<Longrightarrow> record_ok (new_record e)"
  by (simp add: record_ok_def record_text_def valid_utf8_ascii code_def)

lemma wp_Write:
  assumes "EventID ev \<noteq> []" "spool_key (s, EventID ev)"
  shows "wp (Write s ev) (\<lambda>(r, ev') w'. ev' = ev\<lparr>ev_SchemaVersion := (if ev_SchemaVersion ev = 0 then 1 else ev_SchemaVersion ev)\<rparr>
     \<and> (\<forall>eid. r = Inr eid \<longrightarrow> eid = EventID ev \<and> spool_stored (s, eid) (new_record ev') w')) w"
proof -
  define v where "v = (if ev_SchemaVersion ev = 0 then 1 else ev_SchemaVersion ev)"
  have "Write s ev = writeAtomic s (spool_path s (EventID ev)) (new_record (ev\<lparr>ev_SchemaVersion := v\<rparr>)) \<bind> (\<lambda>r. return (case r of
      Inl e \<Rightarrow> (Fail (Wrapf ''spool write %s: %w'' [EventID ev] e), ev\<lparr>ev_SchemaVersion := v\<rparr>)
    | Inr _ \<Rightarrow> (Ok (EventID ev), ev\<lparr>ev_SchemaVersion := v\<rparr>)))"
    using assms(1) by (simp add: Write_def Let_def v_def [symmetric])
  then show ?thesis
    unfolding v_def [symmetric]
    using spool.save_stored [OF assms(2), where r = "new_record (ev\<lparr>ev_SchemaVersion := v\<rparr>)" and w = w]
    by (auto simp: wp_bind elim!: wp_mono split: sum.split)
qed


lemma update_record_cell:
  assumes "spool_key (s, eid)" "record_ok rec" "spool_stored (s, eid) rec w"
  shows "wp (update_record s eid g) (\<lambda>x w'. \<forall>y. x = Inr y \<longrightarrow> y = g rec \<and> spool_stored (s, eid) (g rec) w') w"
  unfolding update_record_def by (rule spool.read_modify_write [OF assms, unfolded fst_conv snd_conv])

text \<open>
  C15. The retry budget: a failed attempt on a stored record keeps its envelope, counts the attempt, and
  schedules the next one 30 seconds, 5 minutes and 30 minutes after the first, second and third failure;
  the fourth and every later failure makes the record dead, reported as \<open>ErrDead\<close>. What is returned is
  what is stored.
\<close>

theorem RecordFailure_schedule:
  assumes "spool_key (s, eid)" "record_ok rec" "spool_stored (s, eid) rec w" "0 \<le> Attempts rec" "Attempts rec < 2 ^ 63 - 1"
    and "run_state (RecordFailure s now eid) w = (Inr (rec', err), w')"
  shows "spool_stored (s, eid) rec' w' \<and> set_envelope rec rec' = rec' \<and> Attempts rec' = Attempts rec + 1
    \<and> (Attempts rec = 0 \<longrightarrow> NextRetryAt rec' = format_RFC3339 (time_Add now (30 * nsec)))
    \<and> (Attempts rec = 1 \<longrightarrow> NextRetryAt rec' = format_RFC3339 (time_Add now (300 * nsec)))
    \<and> (Attempts rec = 2 \<longrightarrow> NextRetryAt rec' = format_RFC3339 (time_Add now (1800 * nsec)))
    \<and> (Attempts rec < 3 \<longrightarrow> rec_State rec' = rec_State rec)
    \<and> (3 \<le> Attempts rec \<longrightarrow> rec_State rec' = StateDead \<and> NextRetryAt rec' = [] \<and> err = Some (Sentinel ErrDead))"
proof -
  have "wp (RecordFailure s now eid) (\<lambda>x w'. \<forall>y e. x = Inr (y, e) \<longrightarrow> y = fail_attempt now rec
      \<and> spool_stored (s, eid) y w' \<and> e = (if rec_State y = StateDead then Some (Sentinel ErrDead) else None)) w"
    unfolding RecordFailure_def wp_bind
    by (rule wp_mono [OF update_record_cell [OF assms(1,2,3)]]) (auto split: sum.split)
  from wp_run [OF this assms(6)] have r: "rec' = fail_attempt now rec" "spool_stored (s, eid) rec' w'"
    "err = (if rec_State rec' = StateDead then Some (Sentinel ErrDead) else None)" by auto
  have w: "wrap64 (Attempts rec + 1) = Attempts rec + 1" using assms(4,5) by (intro wrap64_id) auto
  have c: "Attempts rec = 0 \<or> Attempts rec = 1 \<or> Attempts rec = 2 \<or> 3 \<le> Attempts rec" using assms(4) by linarith
  show ?thesis
    using r c assms(4) by (auto simp: fail_attempt_def w next_retry_at_def backoffSchedule_def Let_def set_envelope_def)
qed

text \<open>
  When a scheduled retry becomes due: a pending record whose \<open>next-retry-at\<close> was written for an
  instant (in a whole-minute zone, in the years 0 to 9999) is due exactly from that instant on, cut to
  the second; a dead or delivered record is never due.
\<close>

theorem due_after_schedule:
  assumes "zone_ok (t_off next)" "0 \<le> year_of_day (local_secs next div 86400)" "year_of_day (local_secs next div 86400) \<le> 9999"
    and "NextRetryAt rec = format_RFC3339 next"
  shows "due rec now \<longleftrightarrow> rec_State rec = StatePending \<and> t_ns next div nsec * nsec \<le> t_ns now"
proof -
  have "format_RFC3339 next \<noteq> []" by (simp add: format_RFC3339_def Let_def)
  then show ?thesis
    using parse_format_RFC3339 [OF assms(1-3)] assms(4) by (auto simp: due_def time_After_def)
qed

section \<open>Facts: listing\<close>

text \<open>The name holds a record: it has the extension, is no directory, and decodes.\<close>

definition holds_record :: "names \<Rightarrow> string \<Rightarrow> string \<Rightarrow> Record \<Rightarrow> bool" where
  "holds_record t d name rec \<longleftrightarrow> (\<exists>data b. lookup t (d @ slash # name) = Some (File data b) \<and> decodeRecord data = Inr rec)"

definition record_entry :: "string \<times> bool \<Rightarrow> bool" where
  "record_entry x \<longleftrightarrow> \<not> snd x \<and> Ext (fst x) = fileExt"

lemma list_loop_spec:
  assumes "clean_root (st_dir s)" "list_all (\<lambda>x. fst x \<noteq> [] \<and> slash \<notin> set (fst x)) es"
  shows "wp (list_loop s es recs0) (\<lambda>r w'. same_files w w' \<and> (\<forall>recs. r = Inr recs \<longrightarrow>
     (\<exists>rs. recs = recs0 @ rs \<and> list_all2 (\<lambda>x. holds_record (tree w) (st_dir s) (fst x)) (filter record_entry es) rs))) w"
  using assms(2)
proof (induction es arbitrary: recs0 w)
  case (Cons x es)
  obtain name isdir where x: "x = (name, isdir)" by force
  show ?case
  proof (cases "record_entry x")
    case False
    then have "list_loop s (x # es) recs0 = list_loop s es recs0" by (simp add: x record_entry_def)
    with Cons False show ?thesis by simp
  next
    case True
    then have l: "list_loop s (x # es) recs0 = do {
        r \<leftarrow> readFile (Join [st_dir s, name]);
        case r of
          Inl e \<Rightarrow> return (Fail (Wrapf ''spool list %s: %w'' [name] e))
        | Inr rec \<Rightarrow> list_loop s es (recs0 @ [rec]) }"
      by (simp add: x record_entry_def)
    have "name \<noteq> ''.'' \<and> name \<noteq> ''..''" using True x by (auto simp: record_entry_def Ext_def after_last_slash_def)
    then have p: "Join [st_dir s, name] = st_dir s @ slash # name"
      using assms(1) Cons.prems x by (simp add: Join_clean_root)
    show ?thesis
      unfolding l wp_bind p
    proof (rule wp_readFile, goal_cases)
      case (1 r w1)
      from 1(1) have t: "tree w1 = tree w" by (simp add: same_files_fields)
      show ?case
      proof (cases r)
        case (Inl e)
        with 1 show ?thesis by simp
      next
        case (Inr rec)
        with 1(2) have h: "holds_record (tree w) (st_dir s) (fst x) rec" by (simp add: holds_record_def x)
        show ?thesis
          unfolding Inr sum.case
          by (rule wp_mono [OF Cons.IH]) (use Cons.prems True t h same_files_trans [OF 1(1)] in fastforce)+
      qed
    qed
  qed
qed simp

lemma dir_entries_names: "list_all (\<lambda>x. fst x \<noteq> [] \<and> slash \<notin> set (fst x)) (dir_entries t d)"
  by (auto simp: list_all_iff dir_entries_mem)

lemma List_records_spec:
  assumes "clean_root (st_dir s)"
  shows "wp (List_records s) (\<lambda>r w'. same_files w w' \<and> (\<forall>recs. r = Inr recs \<longrightarrow>
     (\<exists>rs. recs = sort_key EventID rs \<and> list_all2 (\<lambda>x. holds_record (tree w) (st_dir s) (fst x))
        (filter record_entry (dir_entries (tree w) (st_dir s))) rs))) w"
  unfolding List_records_def wp_bind
proof (rule wp_os_ReadDir, goal_cases)
  case (1 r w1)
  from 1(1) have t: "tree w1 = tree w" by (simp add: same_files_fields)
  show ?case
  proof (cases r)
    case (Inl e)
    with 1 show ?thesis by simp
  next
    case (Inr es)
    with 1(2) have es: "es = dir_entries (tree w) (st_dir s)" by simp
    show ?thesis
      unfolding Inr sum.case wp_bind es
      by (rule wp_mono [OF list_loop_spec [OF assms dir_entries_names]])
        (use t same_files_trans [OF 1(1)] in \<open>auto split: sum.split\<close>)
  qed
qed

text \<open>The records of a spool directory, by the names they are stored under.\<close>

definition spool_records :: "names \<Rightarrow> string \<Rightarrow> Record set" where
  "spool_records t d = {rec. \<exists>name. Ext name = fileExt \<and> name \<noteq> [] \<and> slash \<notin> set name \<and> holds_record t d name rec}"

lemma List_records_set:
  assumes "list_all2 (\<lambda>x. holds_record t d (fst x)) (filter record_entry (dir_entries t d)) rs"
  shows "set rs = spool_records t d"
  unfolding spool_records_def
proof (intro equalityI subsetI)
  fix rec assume "rec \<in> set rs"
  with assms obtain name b where "(name, b) \<in> set (filter record_entry (dir_entries t d))" "holds_record t d name rec"
    using list_all2_right [OF assms \<open>rec \<in> set rs\<close>] by auto
  then show "rec \<in> {rec. \<exists>name. Ext name = fileExt \<and> name \<noteq> [] \<and> slash \<notin> set name \<and> holds_record t d name rec}"
    by (auto simp: record_entry_def dir_entries_mem)
next
  fix rec assume "rec \<in> {rec. \<exists>name. Ext name = fileExt \<and> name \<noteq> [] \<and> slash \<notin> set name \<and> holds_record t d name rec}"
  then obtain name data b where n: "Ext name = fileExt" "name \<noteq> []" "slash \<notin> set name"
    "lookup t (d @ slash # name) = Some (File data b)" "decodeRecord data = Inr rec"
    by (auto simp: holds_record_def)
  then have "(d @ slash # name, File data b) \<in> set t" by (auto simp: lookup_def dest: map_of_SomeD split: if_splits)
  with n have "(name, False) \<in> set (filter record_entry (dir_entries t d))"
    by (auto simp: dir_entries_mem record_entry_def)
  from list_all2_left [OF assms this] obtain rec' where "rec' \<in> set rs" "holds_record t d name rec'" by auto
  with n show "rec \<in> set rs" by (auto simp: holds_record_def)
qed

lemma List_records_all:
  assumes "clean_root (st_dir s)"
  shows "wp (List_records s) (\<lambda>r w'. same_files w w' \<and>
     (\<forall>recs. r = Inr recs \<longrightarrow> set recs = spool_records (tree w) (st_dir s) \<and> sorted (map EventID recs))) w"
proof (rule wp_mono [OF List_records_spec [OF assms]], goal_cases)
  case (1 r w')
  then show ?case using List_records_set [of "tree w" "st_dir s"] by (metis set_sort sorted_sort_key)
qed

text \<open>
  C23. The catch-up scan changes nothing and, whenever it succeeds, returns in order of their identifiers
  exactly the events of the directory that are due: pending, with no retry time or one that has
  arrived.
\<close>

theorem CatchUp_spec:
  assumes "clean_root (st_dir s)" "run_state (CatchUp s now) w = (Inr ids, w')"
  shows "same_files w w' \<and> sorted ids \<and>
    set ids = EventID ` {rec \<in> spool_records (tree w) (st_dir s). due rec now}"
proof -
  have "wp (CatchUp s now) (\<lambda>r w'. same_files w w' \<and> (\<forall>ids. r = Inr ids \<longrightarrow> sorted ids \<and>
      set ids = EventID ` {rec \<in> spool_records (tree w) (st_dir s). due rec now})) w"
    unfolding CatchUp_def wp_bind
    by (rule wp_mono [OF List_records_all [OF assms(1)]]) (auto split: sum.split intro!: sorted_filter)
  from wp_run [OF this assms(2)] show ?thesis by blast
qed

section \<open>Facts: purging\<close>

lemma wp_Delete:
  assumes "spool_key (s, eid)"
    and "\<And>r w'. (\<forall>q. q \<noteq> spool_path s eid \<longrightarrow> lookup (tree w') q = lookup (tree w) q) \<Longrightarrow> Q r w'"
  shows "wp (Delete s eid) Q w"
  unfolding Delete_def wp_bind os_Remove_def
  by (rule wp_syscall)
    (use spool_path_child(2) [OF assms(1)] in \<open>auto simp: wp_simps split: option.split intro!: assms(2)\<close>)

definition purged_only :: "Store \<Rightarrow> time \<Rightarrow> Record set \<Rightarrow> names \<Rightarrow> names \<Rightarrow> bool" where
  "purged_only s now recs t t' \<longleftrightarrow> (\<forall>q. lookup t' q \<noteq> lookup t q \<longrightarrow>
     (\<exists>rec \<in> recs. q = spool_path s (EventID rec) \<and> expired rec (retention s) now))"

lemma purge_loop_only:
  assumes "\<forall>rec \<in> set recs. spool_key (s, EventID rec)"
  shows "wp (purge_loop s now recs k) (\<lambda>r w'. purged_only s now (set recs) (tree w) (tree w')) w"
  using assms
proof (induction recs arbitrary: k w)
  case (Cons rec recs)
  define post where "post = (\<lambda>(r :: nat \<times> gerror option) (w' :: world). purged_only s now (set (rec # recs)) (tree w) (tree w'))"
  have ih: "wp (purge_loop s now recs k') post w1"
    if "\<forall>q. lookup (tree w1) q \<noteq> lookup (tree w) q \<longrightarrow> q = spool_path s (EventID rec) \<and> expired rec (retention s) now" for k' w1
    by (rule wp_mono [OF Cons.IH]) (use Cons.prems that in \<open>auto simp: post_def purged_only_def, metis\<close>)
  have "wp (purge_loop s now (rec # recs) k) post w"
  proof (cases "expired rec (retention s) now")
    case False
    with ih show ?thesis by simp
  next
    case True
    have stop: "post r w1" if "\<forall>q. q \<noteq> spool_path s (EventID rec) \<longrightarrow> lookup (tree w1) q = lookup (tree w) q" for r w1
      using that True by (auto simp: post_def purged_only_def)
    have "wp (Delete s (EventID rec)) (\<lambda>r. wp (case r of Inl e \<Rightarrow> return (k, Some e)
        | Inr _ \<Rightarrow> purge_loop s now recs (Suc k)) post) w"
      by (rule wp_Delete) (use Cons.prems True in \<open>auto split: sum.split intro!: stop ih\<close>)
    with True show ?thesis by (simp add: wp_bind)
  qed
  then show ?case by (simp add: post_def)
qed (simp add: purged_only_def)

text \<open>A directory whose record files are named after the events in them, with plain identifiers.\<close>

definition well_named :: "Store \<Rightarrow> names \<Rightarrow> bool" where
  "well_named s t \<longleftrightarrow> (\<forall>name rec. Ext name = fileExt \<longrightarrow> holds_record t (st_dir s) name rec \<longrightarrow>
     name = EventID rec @ fileExt \<and> spool_key (s, EventID rec))"


section \<open>Facts: files that do not decode\<close>

text \<open>
  A record of a newer schema is refused and left alone: whatever the update and the faults, marking
  or failing an event whose file carries a version above the supported one returns an error and
  changes no file.
\<close>

theorem update_refuses_newer:
  assumes "record_text rec" "SchemaVersion < ev_SchemaVersion rec"
    and "lookup (tree w) (spool_path s eid) = Some (File (encode_record rec) b)"
    and "run_state (update_record s eid g) w = (r, w')"
  shows "(\<exists>e. r = Inl e) \<and> same_files w w'"
proof -
  have "decodeRecord (encode_record rec) \<noteq> Inr y" for y using assms(1,2) by (simp add: decode_encoded)
  then have "wp (update_record s eid g) (\<lambda>r w'. (\<exists>e. r = Inl e) \<and> same_files w w') w"
    unfolding update_record_def wp_bind
    by (intro wp_readFile) (auto simp: assms(3) split: sum.split)
  from wp_run [OF this assms(4)] show ?thesis .
qed

text \<open>
  C40. A leftover temporary file stops the store: the temporary files of an interrupted write carry the
  \<open>.json\<close> extension, and as soon as one of them does not decode (an empty one never does) every
  listing, and with it the catch-up scan and the purge, fails, whatever else the directory holds.
\<close>

theorem leftover_temp_blocks:
  assumes "clean_root (st_dir s)" "slash \<notin> set x"
    and "lookup (tree w) (st_dir s @ slash # ''.spool-'' @ x @ fileExt) = Some (File data b)" "\<And>rec. decodeRecord data \<noteq> Inr rec"
  shows "(\<exists>e w'. run_state (CatchUp s now) w = (Inl e, w') \<and> same_files w w')
    \<and> (\<exists>e w'. run_state (Purge s now) w = ((0, Some e), w') \<and> same_files w w')"
proof -
  let ?name = "''.spool-'' @ x @ fileExt"
  have ext: "Ext ?name = fileExt" using Ext_append [of "''.spool-'' @ x" "''json''"] assms(2) by simp
  have "(st_dir s @ slash # ?name, File data b) \<in> set (tree w)"
    using assms(3) by (auto simp: lookup_def dest: map_of_SomeD split: if_splits)
  then have e: "(?name, False) \<in> set (filter record_entry (dir_entries (tree w) (st_dir s)))"
    using assms(2,3) ext by (auto simp: record_entry_def dir_entries_mem)
  have no: "\<not> list_all2 (\<lambda>x. holds_record (tree w) (st_dir s) (fst x)) (filter record_entry (dir_entries (tree w) (st_dir s))) rs" for rs
    using list_all2_left [OF _ e] assms(3,4) by (fastforce simp: holds_record_def)
  have l: "wp (List_records s) (\<lambda>r w'. same_files w w' \<and> (\<exists>e. r = Inl e)) w"
  proof (rule wp_mono [OF List_records_spec [OF assms(1)]], goal_cases)
    case (1 r w')
    with no show ?case by (cases r) auto
  qed
  have "wp (CatchUp s now) (\<lambda>r w'. same_files w w' \<and> (\<exists>e. r = Inl e)) w"
    unfolding CatchUp_def wp_bind by (rule wp_mono [OF l]) auto
  moreover have "wp (Purge s now) (\<lambda>r w'. same_files w w' \<and> (\<exists>e. r = (0, Some e))) w"
    unfolding Purge_def wp_bind by (rule wp_mono [OF l]) auto
  ultimately show ?thesis by (auto simp: wp_def split: prod.splits)
qed

lemma decodeRecord_empty: "decodeRecord [] \<noteq> Inr rec"
  by (simp add: decodeRecord_def json_first_def json_value.simps skip_ws_def)

section \<open>Facts: identifiers\<close>

lemma list16:
  assumes "length b = 16"
  shows "\<exists>a0 a1 a2 a3 a4 a5 a6 a7 a8 a9 a10 a11 a12 a13 a14 a15. b = [a0, a1, a2, a3, a4, a5, a6, a7, a8, a9, a10, a11, a12, a13, a14, a15]"
  using assms by (auto simp: numeral_eq_Suc length_Suc_conv)

lemma hex_digits: "hex_digit 4 = CHR ''4''" "hex_digit 8 = CHR ''8''" "hex_digit 9 = CHR ''9''"
  "hex_digit 10 = CHR ''a''" "hex_digit 11 = CHR ''b''"
  by code_simp+

definition uuid_char :: "char \<Rightarrow> bool" where
  "uuid_char c \<longleftrightarrow> c = CHR ''-'' \<or> c \<in> hex_digit ` {..<16}"

lemma uuid_char_not: "\<not> uuid_char slash" "\<not> uuid_char (CHR ''.'')"
proof -
  have "48 \<le> code (hex_digit d)" if "d < 16" for d using that by (auto simp: hex_digit_def code_def)
  moreover have "code slash = 47" "code (CHR ''.'') = 46" by (simp_all add: code_def)
  ultimately have "hex_digit d \<noteq> slash \<and> hex_digit d \<noteq> CHR ''.''" if "d < 16" for d using that by force
  then show "\<not> uuid_char slash" "\<not> uuid_char (CHR ''.'')" by (force simp: uuid_char_def)+
qed

lemma NewID_shape:
  assumes "run_state NewID w = (Inr u, w')"
  shows "length u = 36 \<and> list_all uuid_char u \<and> u ! 14 = CHR ''4'' \<and> u ! 19 \<in> set ''89ab''
    \<and> (clean_root (st_dir s) \<longrightarrow> spool_key (s, u))"
proof -
  obtain r where u: "u = formatUUID (stamp_v4 (take 16 (r @ replicate 16 nul_char)))"
    using assms by (auto simp: NewID_def split: option.splits prod.splits)
  have "length (take 16 (r @ replicate 16 nul_char)) = 16" by simp
  from list16 [OF this] obtain a0 a1 a2 a3 a4 a5 a6 a7 a8 a9 a10 a11 a12 a13 a14 a15 where
    b: "take 16 (r @ replicate 16 nul_char) = [a0, a1, a2, a3, a4, a5, a6, a7, a8, a9, a10, a11, a12, a13, a14, a15]"
    by (elim exE)
  let ?h = "\<lambda>c. hex_digit (code c div 16)" and ?l = "\<lambda>c. hex_digit (code c mod 16)"
  define v where "v = char_of (code a6 mod 16 + 64)"
  define x where "x = char_of (code a8 mod 64 + 128)"
  have f: "u = [?h a0, ?l a0, ?h a1, ?l a1, ?h a2, ?l a2, ?h a3, ?l a3, CHR ''-'', ?h a4, ?l a4, ?h a5, ?l a5, CHR ''-'',
      ?h v, ?l v, ?h a7, ?l a7, CHR ''-'', ?h x, ?l x, ?h a9, ?l a9, CHR ''-'',
      ?h a10, ?l a10, ?h a11, ?l a11, ?h a12, ?l a12, ?h a13, ?l a13, ?h a14, ?l a14, ?h a15, ?l a15]"
    unfolding u b by (simp add: stamp_v4_def formatUUID_def hex_EncodeToString_def Let_def v_def x_def)
  have hx: "uuid_char (?h c)" "uuid_char (?l c)" for c
    using code_less_256 [of c] by (auto simp: uuid_char_def)
  have "code v div 16 = 4" by (simp add: v_def code_def)
  then have 14: "?h v = CHR ''4''" by (simp add: hex_digits)
  have cx: "code x = code a8 mod 64 + 128" by (simp add: x_def code_def)
  have "code a8 mod 64 div 16 < 4" by (simp add: div_less_iff_less_mult)
  moreover have "code x div 16 = code a8 mod 64 div 16 + 8" by (simp add: cx)
  ultimately have "code x div 16 = 8 \<or> code x div 16 = 9 \<or> code x div 16 = 10 \<or> code x div 16 = 11" by linarith
  then have 19: "?h x \<in> set ''89ab''" by (auto simp: hex_digits)
  have all: "list_all uuid_char u" unfolding f by (simp add: hx) (simp add: uuid_char_def)
  have ns: "slash \<notin> set u"
    using all uuid_char_not(1) by (auto simp: list_all_iff)
  have "?h a0 \<noteq> CHR ''.''" using hx(1) [of a0] uuid_char_not(2) by auto
  then have "\<not> HasPrefix (u @ fileExt) ''.spool-''" by (simp add: f)
  with ns all 14 19 show ?thesis unfolding spool_key_def fst_conv snd_conv
    by (simp add: f)
qed

text \<open>
  A generated identifier is a version 4 UUID in its usual form: 36 characters, lower-case
  hexadecimal digits and dashes, version digit 4 and variant digit 8, 9, a or b; so it names a file of
  the spool directory and never a temporary file.
\<close>

theorem NewID_v4:
  assumes "run_state NewID w = (Inr u, w')"
  shows "length u = 36 \<and> list_all uuid_char u \<and> u ! 14 = CHR ''4'' \<and> u ! 19 \<in> set ''89ab''
    \<and> (clean_root (st_dir s) \<longrightarrow> spool_key (s, u))"
  by (rule NewID_shape [OF assms])

text \<open>Without faults a write succeeds, as soon as a temporary name is free.\<close>

lemma writeAtomic_succeeds:
  assumes "faults w = []" "lookup (tree w) (st_dir s) = Some Directory"
    and "free_temp (tree w) (st_dir s) ''.spool-'' fileExt (entropy w) = Some (tmp, rs)"
    and "spool_key (s, eid)" "lookup (tree w) (spool_path s eid) \<noteq> Some Directory"
  shows "\<exists>w'. run_state (writeAtomic s (spool_path s eid) rec) w = (Inr (), w') \<and> faults w' = [] \<and> entropy w' = rs"
  unfolding writeAtomic_def
  using assms spool_path_child [OF assms(4)]
  by (intro replace_file_succeeds [where n = "eid @ fileExt"]) (auto simp: spool_key_def clean_root_def HasPrefix_iff)

section \<open>Records stay well formed\<close>

definition ascii :: "string \<Rightarrow> bool" where "ascii s \<longleftrightarrow> list_all (\<lambda>c. code c < 128) s"

lemma ascii_simps [simp]: "ascii []" "ascii (c # s) \<longleftrightarrow> code c < 128 \<and> ascii s" "ascii (s @ t) \<longleftrightarrow> ascii s \<and> ascii t"
  by (simp_all add: ascii_def)

lemma ascii_utf8: "ascii s \<Longrightarrow> valid_utf8 s"
  by (simp add: ascii_def valid_utf8_ascii)

lemma ascii_digits: "list_all is_digit s \<Longrightarrow> ascii s"
  by (auto simp: ascii_def is_digit_def list_all_iff)

lemma ascii_pad_dec: "ascii (pad_dec k n)"
proof (induction k arbitrary: n)
  case (Suc k)
  have "ascii [digit_char (n mod 10)]" by (rule ascii_digits) simp
  with Suc show ?case by simp
qed simp

lemma ascii_RFC3339: "ascii (format_RFC3339 t)"
proof -
  have y: "ascii (year_text y)" for y
    using show_nat_digits ascii_digits by (auto simp: year_text_def Let_def ascii_pad_dec code_def)
  have "ascii (date_text n)" "ascii (clock_text s)" "ascii (zone_text z)" for n s z
    using y by (auto simp: date_text_def clock_text_def zone_text_def Let_def ascii_pad_dec code_def split: prod.split)
  then show ?thesis by (simp add: format_RFC3339_def Let_def code_def)
qed

lemma fail_attempt_ok: "record_ok rec \<Longrightarrow> record_ok (fail_attempt now rec)"
  using wrap64_range [of "Attempts rec + 1"] ascii_utf8 [OF ascii_RFC3339]
  by (auto simp: record_ok_def record_text_def event_ok_def fail_attempt_def Let_def valid_utf8_ascii code_def split: option.split)

lemma set_state_ok: "record_ok rec \<Longrightarrow> valid_utf8 st \<Longrightarrow> record_ok (rec\<lparr>rec_State := st\<rparr>)"
  by (simp add: record_ok_def record_text_def event_ok_def)

section \<open>Generated identifiers\<close>

definition uuid_of :: "string \<Rightarrow> string" where
  "uuid_of r = formatUUID (stamp_v4 (take 16 (r @ replicate 16 nul_char)))"

lemma run_NewID: "entropy w = r # rs \<Longrightarrow> run_state NewID w = (Inr (uuid_of r), w\<lparr>entropy := rs\<rparr>)"
  by (simp add: NewID_def next_random_def uuid_of_def)

lemma uuid_of_shape: "length (uuid_of r) = 36" "slash \<notin> set (uuid_of r)" "ascii (uuid_of r)"
proof -
  obtain w :: world where w: "entropy w = [r]" by (metis world.select_convs(4))
  from NewID_shape [OF run_NewID [OF w]] have s: "length (uuid_of r) = 36" "list_all uuid_char (uuid_of r)" by auto
  show "length (uuid_of r) = 36" by (rule s)
  show "slash \<notin> set (uuid_of r)" using s(2) uuid_char_not(1) by (auto simp: list_all_iff)
  have "code c < 128" if "uuid_char c" for c
    using that by (auto simp: uuid_char_def hex_digit_def code_def)
  with s(2) show "ascii (uuid_of r)" by (auto simp: ascii_def list_all_iff)
qed

section \<open>A concrete spool\<close>

definition sample_store :: Store where "sample_store = NewStore ''/s'' (3600 * nsec)"

definition sample_now :: time where "sample_now = \<lparr>t_ns = 63950000000 * nsec, t_off = 0\<rparr>"

definition spool_world :: "names \<Rightarrow> world" where
  "spool_world t = \<lparr>tree = (''/s'', Directory) # t, durable = (''/s'', Directory) # t, faults = [], entropy = [''1''], cwd = ''/'',
     execs = [], journal = [], written = [], objects = []\<rparr>"

definition sample_record :: "string \<Rightarrow> Record" where
  "sample_record st = (new_record sample_event)\<lparr>rec_State := st\<rparr>"

definition sample_file :: "string \<Rightarrow> string \<times> node" where
  "sample_file st = (''/s/e1.json'', File (encode_record (sample_record st)) True)"

lemma sample_key: "spool_key (sample_store, ''e1'')" "spool_path sample_store ''e1'' = ''/s/e1.json''" "clean_root (st_dir sample_store)"
  by code_simp+

lemma sample_ok: "event_ok sample_event"
  by (simp add: event_ok_def sample_event_def commit_ok_def valid_utf8_ascii code_def)

lemma sample_record_ok: "valid_utf8 st \<Longrightarrow> record_ok (sample_record st)"
  using sample_ok
  by (simp add: record_ok_def record_text_def sample_record_def event_ok_def new_record_def Event.extend_def Record.fields_def
      sample_event_def valid_utf8_ascii code_def)

lemma sample_stored: "spool_stored (sample_store, ''e1'') (sample_record st) (spool_world [sample_file st])"
  by (simp add: spool_stored_def sample_key spool_world_def sample_file_def lookup_def)

lemma sample_read:
  "valid_utf8 st \<Longrightarrow> run_state (readFile ''/s/e1.json'') (spool_world [sample_file st]) = (Inr (sample_record st), spool_world [sample_file st])"
  using spool.load_quiet [OF sample_record_ok sample_stored] by (simp add: sample_key spool_world_def)

lemma sample_list:
  assumes "valid_utf8 st"
  shows "run_state (List_records sample_store) (spool_world [sample_file st]) = (Inr [sample_record st], spool_world [sample_file st])"
proof -
  have d: "dir_entries (tree (spool_world [sample_file st])) ''/s'' = [(''e1.json'', False)]"
    "lookup (tree (spool_world [sample_file st])) ''/s'' = Some Directory"
    by (simp_all add: dir_entries_def spool_world_def sample_file_def lookup_def child_name_def CutPrefix_def List.map_filter_simps)
  have e: "Ext ''e1.json'' = fileExt" "Join [''/s'', ''e1.json''] = ''/s/e1.json''" by code_simp+
  have s: "st_dir sample_store = ''/s''" "faults (spool_world t) = []" for t
    by (simp_all add: sample_store_def NewStore_def spool_world_def)
  show ?thesis by (simp add: List_records_def os_ReadDir_def d e s sample_read [OF assms])
qed

lemma ascii_state [simp]: "valid_utf8 StatePending" "valid_utf8 StateDelivered"
  by (simp_all add: valid_utf8_ascii code_def)

lemma sample_write:
  assumes "t = [] \<or> t = [sample_file st]"
  shows "\<exists>w1. run_state (writeAtomic sample_store ''/s/e1.json'' rec) (spool_world t) = (Inr (), w1) \<and> faults w1 = []"
proof -
  have "free_temp (tree (spool_world t)) (st_dir sample_store) ''.spool-'' fileExt (entropy (spool_world t)) = Some (''/s/.spool-1.json'', [])"
    "lookup (tree (spool_world t)) (st_dir sample_store) = Some Directory" "lookup (tree (spool_world t)) ''/s/e1.json'' \<noteq> Some Directory"
    using assms by (auto simp: spool_world_def sample_file_def sample_store_def NewStore_def lookup_def)
  from writeAtomic_succeeds [OF _ this(2,1) sample_key(1), of rec] this(3) show ?thesis unfolding sample_key(2) by (auto simp: spool_world_def)
qed

theorem writeAtomic_crash_safe_witness:
  "spool_key (sample_store, ''e1'') \<and> settled (lookup (tree (spool_world [])) ''/s/e1.json'')
   \<and> (let (r, w') = run_state (writeAtomic sample_store ''/s/e1.json'' (sample_record StatePending)) (spool_world [])
      in r = Inr () \<and> lookup (durable w') ''/s/e1.json'' = Some (File (encode_record (sample_record StatePending)) True))"
proof -
  let ?run = "run_state (writeAtomic sample_store ''/s/e1.json'' (sample_record StatePending)) (spool_world [])"
  have r: "fst ?run = Inr ()" using sample_write [of "[]" _ "sample_record StatePending"] by auto
  have s: "settled (lookup (tree (spool_world [])) ''/s/e1.json'')" "settled (lookup (durable (spool_world [])) ''/s/e1.json'')"
    by code_simp+
  from writeAtomic_crash_safe [OF sample_key(1) sample_key(2) [symmetric] s run_result [OF r]]
  have "lookup (durable (snd ?run)) ''/s/e1.json'' = Some (File (encode_record (sample_record StatePending)) True)" by blast
  with r s sample_key show ?thesis by (simp add: case_prod_beta)
qed


theorem RecordFailure_schedule_witness:
  "\<exists>rec' w'. run_state (RecordFailure sample_store sample_now ''e1'') (spool_world [sample_file StatePending]) = (Inr (rec', None), w')
     \<and> NextRetryAt rec' = format_RFC3339 (time_Add sample_now (30 * nsec)) \<and> spool_stored (sample_store, ''e1'') rec' w'"
proof -
  let ?rec = "sample_record StatePending" and ?w = "spool_world [sample_file StatePending]"
  obtain w1 where r: "run_state (writeAtomic sample_store ''/s/e1.json'' (fail_attempt sample_now ?rec)) ?w = (Inr (), w1)"
    using sample_write by blast
  have a: "Attempts ?rec = 0" "rec_State (fail_attempt sample_now ?rec) = StatePending"
    by (simp_all add: sample_record_def fail_attempt_def next_retry_at_def backoffSchedule_def)
  have "run_state (RecordFailure sample_store sample_now ''e1'') ?w
      = (Inr (fail_attempt sample_now ?rec, None), w1)"
    by (simp add: RecordFailure_def update_record_def sample_key sample_read r a)
  from RecordFailure_schedule [OF sample_key(1) sample_record_ok sample_stored _ _ this] this a show ?thesis by auto
qed

theorem due_after_schedule_witness:
  "zone_ok (t_off sample_now) \<and> 0 \<le> year_of_day (local_secs sample_now div 86400) \<and> year_of_day (local_secs sample_now div 86400) \<le> 9999
   \<and> due ((sample_record StatePending)\<lparr>NextRetryAt := format_RFC3339 sample_now\<rparr>) sample_now"
proof -
  have c: "zone_ok (t_off sample_now)" "0 \<le> year_of_day (local_secs sample_now div 86400)"
    "year_of_day (local_secs sample_now div 86400) \<le> 9999" by code_simp+
  have "t_ns sample_now div nsec * nsec \<le> t_ns sample_now" by code_simp
  with due_after_schedule [OF c, of "(sample_record StatePending)\<lparr>NextRetryAt := format_RFC3339 sample_now\<rparr>" sample_now] c
  show ?thesis by (simp add: sample_record_def)
qed

theorem CatchUp_spec_witness:
  "clean_root (st_dir sample_store) \<and> (\<exists>w'. run_state (CatchUp sample_store sample_now) (spool_world [sample_file StatePending]) = (Inr [''e1''], w'))
   \<and> (\<exists>rec \<in> spool_records (tree (spool_world [sample_file StatePending])) ''/s''. due rec sample_now)"
proof -
  have d: "due (sample_record StatePending) sample_now" "EventID (sample_record StatePending) = ''e1''" by code_simp+
  have r: "run_state (CatchUp sample_store sample_now) (spool_world [sample_file StatePending]) = (Inr [''e1''], spool_world [sample_file StatePending])"
    by (simp add: CatchUp_def sample_list d)
  from CatchUp_spec [OF sample_key(3) r] have "''e1'' \<in> EventID ` {rec \<in> spool_records (tree (spool_world [sample_file StatePending])) ''/s''. due rec sample_now}"
    unfolding sample_store_def NewStore_def by (metis Store.select_convs(1) list.set_intros(1))
  with r sample_key(3) show ?thesis by blast
qed


theorem update_refuses_newer_witness:
  "(let w = spool_world [(''/s/e1.json'', File (encode_record ((sample_record StatePending)\<lparr>ev_SchemaVersion := 2\<rparr>)) True)]
    in \<exists>e. fst (run_state (SetState sample_store ''e1'' StateDelivered) w) = Inl e)"
proof -
  let ?rec = "(sample_record StatePending)\<lparr>ev_SchemaVersion := 2\<rparr>"
  let ?w = "spool_world [(''/s/e1.json'', File (encode_record ?rec) True)]"
  have a: "record_text ?rec" "SchemaVersion < ev_SchemaVersion ?rec" using sample_record_ok [of StatePending]
    by (simp_all add: record_ok_def record_text_def event_ok_def)
  have l: "lookup (tree ?w) (spool_path sample_store ''e1'') = Some (File (encode_record ?rec) True)"
    by (simp add: sample_key spool_world_def lookup_def)
  from update_refuses_newer [OF a l run_result [OF refl]] show ?thesis by (simp add: SetState_def Let_def)
qed

theorem leftover_temp_blocks_witness:
  "\<exists>e w'. run_state (CatchUp sample_store sample_now) (spool_world [(''/s/.spool-1.json'', File [] False)]) = (Inl e, w')"
proof -
  have l: "lookup (tree (spool_world [(''/s/.spool-1.json'', File [] False)])) (st_dir sample_store @ slash # ''.spool-'' @ ''1'' @ fileExt) = Some (File [] False)"
    by code_simp
  from leftover_temp_blocks [OF sample_key(3) _ l decodeRecord_empty, of sample_now] show ?thesis by auto
qed

theorem NewID_v4_witness:
  "\<exists>u w'. run_state NewID (spool_world []) = (Inr u, w') \<and> length u = 36 \<and> spool_key (sample_store, u)"
proof -
  obtain u w' where r: "run_state NewID (spool_world []) = (Inr u, w')" by (simp add: NewID_def spool_world_def next_random_def)
  from NewID_v4 [OF r, of sample_store] r sample_key(3) show ?thesis by blast
qed

end
