(* ===== verification/Go_Http.thy ===== *)
theory Go_Http
  imports Go_Fs
begin

text \<open>
  Requests and responses of Go's \<open>net/http\<close> client, as the webhook plugin and the socket client use it. A
  response carries what a read of its body gives: the bytes, and the error the read ends with, if any.
  The transport that exchanges them is a parameter of its users.
\<close>

record HttpRequest =
  hr_URL :: string
  hr_Headers :: "(string \<times> string) list"
  hr_Body :: bytes

record HttpResponse =
  StatusCode :: int
  resp_Status :: string
  resp_Body :: bytes
  resp_ReadErr :: "gerror option"

text \<open>\<open>trim\<close>, the same function in \<open>internal/socket\<close> and in the http plugin: bounds a body in a message.\<close>

definition trim :: "string \<Rightarrow> string" where
  "trim s = (if 200 < length s then take 200 s @ ''...'' else s)"

text \<open>\<open>io.LimitReader\<close> of 1 MiB.\<close>

definition limit_body :: "bytes \<Rightarrow> bytes" where
  "limit_body b = take 1048576 b"

end
