(* ===== verification/Webhook.thy ===== *)
theory Webhook
  imports Config Spool Gitenv Go_Http
begin

text \<open>
  \<open>internal/webhook\<close> with its plugins and policies: the plugin registry, the deliverer and its spool
  bookkeeping, the fail-closed policy engine, the non-fast-forward policy, and the http and logger plugins.
  A plugin is a function from the event to its effect. The HTTP transport and the HMAC-SHA256 function are
  parameters; the reading of the clock is an argument.
\<close>

section \<open>The plugin registry\<close>

type_synonym Plugin = "Event \<Rightarrow> unit result io"
type_synonym Constructor = "PluginConfig \<Rightarrow> Plugin result"
type_synonym Registry = "(string \<times> Constructor) list"

definition NewRegistry :: Registry where "NewRegistry = []"

text \<open>\<open>Register\<close> panics on a duplicate name: \<open>None\<close>.\<close>

definition Register :: "string \<Rightarrow> 'c \<Rightarrow> (string \<times> 'c) list \<Rightarrow> (string \<times> 'c) list option" where
  "Register name c r = (if map_of r name \<noteq> None then None else Some (AList.update name c r))"

definition Registry_Build :: "Registry \<Rightarrow> PluginConfig \<Rightarrow> Plugin result" where
  "Registry_Build r cfg =
     (case map_of r (plugin_Type cfg) of
        None \<Rightarrow> Fail (Errf ''webhook: unknown plugin type %q'' [plugin_Type cfg])
      | Some c \<Rightarrow> c cfg)"

section \<open>The deliverer\<close>

abbreviation ErrPluginNotFound :: string where "ErrPluginNotFound \<equiv> ''webhook: plugin-id not configured''"

record Deliverer =
  del_plugins :: "PluginConfig list"
  del_spool :: Store
  del_registry :: Registry

definition NewDeliverer :: "PluginConfig list \<Rightarrow> Store \<Rightarrow> Registry \<Rightarrow> Deliverer" where
  "NewDeliverer webhooks s reg = \<lparr>del_plugins = webhooks, del_spool = s, del_registry = reg\<rparr>"

definition pluginConfig :: "Deliverer \<Rightarrow> string \<Rightarrow> PluginConfig option" where
  "pluginConfig d pid = List.find (\<lambda>p. plugin_ID p = pid) (del_plugins d)"

definition deadLetter :: "Deliverer \<Rightarrow> string \<Rightarrow> gerror \<Rightarrow> unit result io" where
  "deadLetter d eventID cause = do {
     r \<leftarrow> SetState (del_spool d) eventID StateDead;
     return (case r of
        Inl e \<Rightarrow> Fail (Wrapf ''deliver %s: dead-letter: %w'' [eventID] e)
      | Inr _ \<Rightarrow> Fail (Wrapf ''deliver %s: %w'' [eventID] cause))
   }"

definition recordFailure :: "Deliverer \<Rightarrow> time \<Rightarrow> string \<Rightarrow> gerror \<Rightarrow> unit result io" where
  "recordFailure d now eventID cause = do {
     r \<leftarrow> RecordFailure (del_spool d) now eventID;
     return (case r of
        Inl e \<Rightarrow> if errors_Is e ErrDead then Fail e else Fail (Wrapf ''deliver %s: record failure: %w'' [eventID] e)
      | Inr (rec, Some e) \<Rightarrow> if errors_Is e ErrDead then Fail e else Fail (Wrapf ''deliver %s: record failure: %w'' [eventID] e)
      | Inr (rec, None) \<Rightarrow> Fail (Wrapf ''deliver %s: %w (attempt %d, retry scheduled)'' [eventID, show_int (Attempts rec)] cause))
   }"

text \<open>The envelope of a record, \<open>&rec.Event\<close>.\<close>

definition record_event :: "Record \<Rightarrow> Event" where
  "record_event r = Event.truncate r"

definition Deliver :: "Deliverer \<Rightarrow> time \<Rightarrow> string \<Rightarrow> string \<Rightarrow> unit result io" where
  "Deliver d now pluginID eventID =
     (case pluginConfig d pluginID of
        None \<Rightarrow> deadLetter d eventID (Sentinel ErrPluginNotFound)
      | Some cfg \<Rightarrow>
          (case Registry_Build (del_registry d) cfg of
             Inl e \<Rightarrow> deadLetter d eventID (Wrapf ''build plugin: %w'' [] e)
           | Inr plugin \<Rightarrow> do {
               rr \<leftarrow> Read (del_spool d) eventID;
               case rr of
                 Inl e \<Rightarrow> return (Fail (Wrapf ''deliver %s/%s: read event: %w'' [pluginID, eventID] e))
               | Inr rec \<Rightarrow> do {
                   rp \<leftarrow> plugin (record_event rec);
                   case rp of
                     Inl e \<Rightarrow> recordFailure d now eventID e
                   | Inr _ \<Rightarrow> do {
                       rs \<leftarrow> SetState (del_spool d) eventID StateDelivered;
                       return (case rs of
                          Inl e \<Rightarrow> Fail (Wrapf ''deliver %s/%s: mark delivered: %w'' [pluginID, eventID] e)
                        | Inr _ \<Rightarrow> Ok ()) } } }))"

section \<open>Policies\<close>

record RefUpdate =
  Old :: string
  New :: string
  upd_Ref :: string

type_synonym Policy = "RefUpdate \<Rightarrow> gerror option io"

record PolicyDeps =
  pd_Git :: Runner
  pd_RepoDir :: string

type_synonym policy_config = "(string \<times> yaml_any) list option"
type_synonym PolicyConstructor = "policy_config \<Rightarrow> PolicyDeps \<Rightarrow> Policy result"

text \<open>The loop of \<open>PolicyEngine.Build\<close>, with the policies built so far.\<close>

fun build_policies :: "(string \<times> PolicyConstructor) list \<Rightarrow> PolicyDeps \<Rightarrow> (string \<times> yaml_any) list \<Rightarrow> string list \<Rightarrow> Policy list \<Rightarrow> Policy list result" where
  "build_policies reg deps cfg [] policies = Ok policies"
| "build_policies reg deps cfg (name # names) policies =
     (case map_of reg name of
        None \<Rightarrow> Fail (Errf ''webhook: unknown policy %q'' [name])
      | Some c \<Rightarrow>
          (let build = (\<lambda>raw. case c raw deps of
                 Inl e \<Rightarrow> Fail (Wrapf ''policy %s: %w'' [name] e)
               | Inr policy \<Rightarrow> build_policies reg deps cfg names (policies @ [policy])) in
           case map_of cfg name of
             None \<Rightarrow> build None
           | Some YNull \<Rightarrow> build None
           | Some (YMap m) \<Rightarrow> build (Some m)
           | Some _ \<Rightarrow> Fail (Errf ''policy %s: config must be a mapping'' [name])))"

definition PolicyEngine_Build :: "(string \<times> PolicyConstructor) list \<Rightarrow> PolicyDeps \<Rightarrow> PoliciesConfig \<Rightarrow> Policy list result" where
  "PolicyEngine_Build reg deps pc = build_policies reg deps (pol_Config pc) (Enabled pc) []"

text \<open>The two nested loops of \<open>PolicyEngine.Evaluate\<close>.\<close>

fun eval_line :: "Policy list \<Rightarrow> RefUpdate \<Rightarrow> gerror list \<Rightarrow> gerror list io" where
  "eval_line [] ln errs = return errs"
| "eval_line (p # ps) ln errs = do {
     r \<leftarrow> p ln;
     eval_line ps ln (case r of None \<Rightarrow> errs | Some e \<Rightarrow> errs @ [Wrapf ''ref %s: %w'' [upd_Ref ln] e])
   }"

fun eval_lines :: "Policy list \<Rightarrow> RefUpdate list \<Rightarrow> gerror list \<Rightarrow> gerror list io" where
  "eval_lines ps [] errs = return errs"
| "eval_lines ps (ln # lns) errs = do { errs' \<leftarrow> eval_line ps ln errs; eval_lines ps lns errs' }"

definition PolicyEngine_Evaluate :: "Policy list \<Rightarrow> RefUpdate list \<Rightarrow> gerror option io" where
  "PolicyEngine_Evaluate policies lines =
     (if policies = [] then return None
      else do { errs \<leftarrow> eval_lines policies lines []; return (errors_Join errs) })"

section \<open>The non-fast-forward policy\<close>

abbreviation ErrRejected :: string where
  "ErrRejected \<equiv> ''rejected: ref is not a fast-forward (fetch or pull before pushing)''"

abbreviation branchPrefix :: string where "branchPrefix \<equiv> ''refs/heads/''"

record NonFastForward =
  nff_git :: Runner
  nff_repoDir :: string
  branches :: "string list"

fun string_list :: "yaml_any list \<Rightarrow> string list option" where
  "string_list [] = Some []"
| "string_list (YStr s # ys) = map_option ((#) s) (string_list ys)"
| "string_list (y # ys) = None"

definition nff_New :: "policy_config \<Rightarrow> PolicyDeps \<Rightarrow> NonFastForward result" where
  "nff_New cfg deps =
     (let p = \<lparr>nff_git = pd_Git deps, nff_repoDir = pd_RepoDir deps, branches = [''*'']\<rparr> in
      case cfg of
        None \<Rightarrow> Ok p
      | Some m \<Rightarrow>
          (case map_of m ''branches'' of
             None \<Rightarrow> Ok p
           | Some (YList l) \<Rightarrow>
               (case string_list l of
                  None \<Rightarrow> Fail (Errf ''non-fast-forward: branches: entries must be strings'' [])
                | Some globs \<Rightarrow> Ok (p\<lparr>branches := globs\<rparr>))
           | Some _ \<Rightarrow> Fail (Errf ''non-fast-forward: branches: must be a list of globs'' [])))"

definition isZero :: "string \<Rightarrow> bool" where
  "isZero s \<longleftrightarrow> (length s = 40 \<or> length s = 64) \<and> list_all (\<lambda>c. c = CHR ''0'') s"

definition guards :: "NonFastForward \<Rightarrow> string \<Rightarrow> bool" where
  "guards p ref =
     (case CutPrefix ref branchPrefix of
        None \<Rightarrow> False
      | Some name \<Rightarrow> list_ex (\<lambda>g. path_Match g name) (branches p))"

definition isAncestor :: "git_prog \<Rightarrow> Runner \<Rightarrow> string \<Rightarrow> string \<Rightarrow> string \<Rightarrow> bool result io" where
  "isAncestor git r dir old new = do {
     rep \<leftarrow> exec_cmd git ((Git r [''merge-base'', ''--is-ancestor'', old, new])\<lparr>cmd_dir := dir\<rparr>);
     return (case cmd_error rep of
        None \<Rightarrow> Ok True
      | Some (ExitError n) \<Rightarrow> if n = 1 then Ok False else Fail (ExitError n)
      | Some e \<Rightarrow> Fail e)
   }"

definition nff_Evaluate :: "git_prog \<Rightarrow> NonFastForward \<Rightarrow> Policy" where
  "nff_Evaluate git p line =
     (if isZero (Old line) \<or> isZero (New line) then return None
      else if \<not> guards p (upd_Ref line) then return None
      else do {
        r \<leftarrow> isAncestor git (nff_git p) (nff_repoDir p) (Old line) (New line);
        return (case r of
           Inl e \<Rightarrow> Some (Wrapf ''non-fast-forward: check: %w'' [] e)
         | Inr ancestor \<Rightarrow> if \<not> ancestor then Some (Sentinel ErrRejected) else None) })"

text \<open>The registration of \<open>init\<close>: the process-wide policy registry.\<close>

definition nff_constructor :: "git_prog \<Rightarrow> PolicyConstructor" where
  "nff_constructor git cfg deps = (case nff_New cfg deps of Inl e \<Rightarrow> Fail e | Inr p \<Rightarrow> Ok (nff_Evaluate git p))"

definition DefaultPolicies :: "git_prog \<Rightarrow> (string \<times> PolicyConstructor) list option" where
  "DefaultPolicies git = Register ''non-fast-forward'' (nff_constructor git) []"

section \<open>The logger plugin\<close>

definition logger_New :: Constructor where
  "logger_New cfg = Ok (\<lambda>ev. return (Ok ()))"

section \<open>The http plugin\<close>

text \<open>The transport: whether a URL makes a request, the exchange itself, and the keyed hash.\<close>

record HttpEnv =
  he_NewRequest :: "string \<Rightarrow> gerror option"
  he_Do :: "HttpRequest \<Rightarrow> HttpResponse result io"
  he_HMAC :: "bytes \<Rightarrow> bytes \<Rightarrow> bytes"

record HttpPlugin =
  urlTemplate :: string
  secretFile :: string
  hp_repos :: "string list"

text \<open>\<open>url.PathEscape\<close>: the bytes that stand for themselves in a path segment, and \<open>%XX\<close> for the others.\<close>

definition segment_char :: "char \<Rightarrow> bool" where
  "segment_char c \<longleftrightarrow> (97 \<le> code c \<and> code c \<le> 122) \<or> (65 \<le> code c \<and> code c \<le> 90) \<or> is_digit c \<or> c \<in> set ''-_.~$&+:=@''"

definition upper_hex :: "nat \<Rightarrow> char" where
  "upper_hex d = (if d < 10 then char_of (48 + d) else char_of (55 + d))"

definition PathEscape :: "string \<Rightarrow> string" where
  "PathEscape s = concat (map (\<lambda>c. if segment_char c then [c] else [CHR ''%'', upper_hex (code c div 16), upper_hex (code c mod 16)]) s)"

text \<open>\<open>strings.NewReplacer\<close>: at each position the first of the old strings that matches is replaced.\<close>

fun first_match :: "(string \<times> string) list \<Rightarrow> string \<Rightarrow> (string \<times> string) option" where
  "first_match [] s = None"
| "first_match ((old, new) # ps) s = (if HasPrefix s old then Some (old, new) else first_match ps s)"

fun replace_from :: "(string \<times> string) list \<Rightarrow> nat \<Rightarrow> string \<Rightarrow> string" where
  "replace_from ps skip [] = []"
| "replace_from ps (Suc k) (c # cs) = replace_from ps k cs"
| "replace_from ps 0 (c # cs) =
     (case first_match ps (c # cs) of
        Some (old, new) \<Rightarrow> new @ replace_from ps (length old - 1) cs
      | None \<Rightarrow> c # replace_from ps 0 cs)"

definition buildURL :: "string \<Rightarrow> string \<Rightarrow> string \<Rightarrow> string \<Rightarrow> string" where
  "buildURL tmpl repo ref eventID =
     replace_from [(''{repo}'', PathEscape repo), (''{ref}'', PathEscape ref), (''{event-id}'', PathEscape eventID)] 0 tmpl"

definition matches :: "HttpPlugin \<Rightarrow> string \<Rightarrow> bool" where
  "matches p repo \<longleftrightarrow> hp_repos p = [] \<or> list_ex (\<lambda>g. path_Match g repo) (hp_repos p)"

definition signature_of :: "HttpEnv \<Rightarrow> HttpPlugin \<Rightarrow> bytes \<Rightarrow> string result io" where
  "signature_of he p payload = do {
     r \<leftarrow> os_ReadFile (secretFile p);
     return (case r of
        Inl e \<Rightarrow> Fail (Wrapf ''read secret_file: %w'' [] e)
      | Inr secret \<Rightarrow> Ok (hex_EncodeToString (he_HMAC he (TrimSpace secret) payload)))
   }"

text \<open>The exchange: \<open>client.Do\<close> and the check of the status; the body is cut to 1 MiB.\<close>

definition post_event :: "HttpEnv \<Rightarrow> string \<Rightarrow> (string \<times> string) list \<Rightarrow> bytes \<Rightarrow> unit result io" where
  "post_event he target headers payload = do {
     r \<leftarrow> he_Do he \<lparr>hr_URL = target, hr_Headers = headers, hr_Body = payload\<rparr>;
     return (case r of
        Inl e \<Rightarrow> Fail (Wrapf ''http deliver %s: %w'' [target] e)
      | Inr resp \<Rightarrow>
          if StatusCode resp < 200 \<or> 300 \<le> StatusCode resp
          then Fail (Errf ''http deliver %s: %s: %s'' [target, resp_Status resp, trim (limit_body (resp_Body resp))])
          else Ok ())
   }"

definition http_Deliver :: "HttpEnv \<Rightarrow> HttpPlugin \<Rightarrow> Plugin" where
  "http_Deliver he p ev =
     (if \<not> matches p (ev_Repo ev) then return (Ok ())
      else let payload = Encode ev; target = buildURL (urlTemplate p) (ev_Repo ev) (Ref ev) (EventID ev);
               ct = [(''Content-Type'', ''application/json'')] in
        case he_NewRequest he target of
          Some e \<Rightarrow> return (Fail (Wrapf ''http deliver: build request: %w'' [] e))
        | None \<Rightarrow>
            if secretFile p = [] then post_event he target ct payload
            else do {
              rs \<leftarrow> signature_of he p payload;
              case rs of
                Inl e \<Rightarrow> return (Fail (Wrapf ''http deliver: sign payload: %w'' [] e))
              | Inr sig \<Rightarrow> post_event he target (ct @ [(''X-Gitd-Signature'', ''sha256='' @ sig)]) payload })"

definition http_New :: "HttpEnv \<Rightarrow> Constructor" where
  "http_New he cfg =
     (if URLTemplate cfg = [] then Fail (Errf ''http: url_template is required'' [])
      else Ok (http_Deliver he \<lparr>urlTemplate = URLTemplate cfg, secretFile = SecretFile cfg, hp_repos = Repos cfg\<rparr>))"

text \<open>The process-wide plugin registry, as the \<open>init\<close> functions fill it.\<close>

definition Default_registry :: "HttpEnv \<Rightarrow> Registry option" where
  "Default_registry he = Option.bind (Register ''http'' (http_New he) NewRegistry) (Register ''logger'' logger_New)"

section \<open>Facts: the URL of a delivery\<close>

text \<open>The characters that structure a URL and that no escaped value contains.\<close>

definition url_structural :: "char \<Rightarrow> bool" where
  "url_structural c \<longleftrightarrow> \<not> segment_char c \<and> c \<notin> set ''%{}''"

lemma segment_upper_hex: "d < 16 \<Longrightarrow> segment_char (upper_hex d)"
  by (cases "d < 10") (auto simp: segment_char_def upper_hex_def is_digit_def code_def)

lemma PathEscape_no_structural: "url_structural c \<Longrightarrow> c \<notin> set (PathEscape s)"
  using segment_upper_hex code_less_256
  by (auto simp: PathEscape_def url_structural_def div_less_iff_less_mult)

lemma first_match_Some: "first_match ps s = Some (old, new) \<Longrightarrow> (old, new) \<in> set ps \<and> HasPrefix s old"
  by (induction ps) (auto split: if_splits)

lemma replace_from_count:
  assumes "list_all (\<lambda>(old, new). old \<noteq> [] \<and> c \<notin> set old \<and> c \<notin> set new) ps"
  shows "count_list (replace_from ps k s) c = count_list (drop k s) c"
proof (induction s arbitrary: k)
  case (Cons x xs)
  show ?case
  proof (cases k)
    case (Suc j)
    with Cons.IH show ?thesis by simp
  next
    case 0
    show ?thesis
    proof (cases "first_match ps (x # xs)")
      case None
      with 0 Cons.IH [of 0] show ?thesis by simp
    next
      case (Some m)
      obtain old new where m: "m = (old, new)" by fastforce
      from first_match_Some [OF Some [unfolded m]] assms
      have o: "old \<noteq> []" "c \<notin> set old" "c \<notin> set new" "HasPrefix (x # xs) old" by (auto simp: list_all_iff)
      then obtain y ys r where y: "old = y # ys" "xs = ys @ r" by (cases old) (auto simp: HasPrefix_iff)
      with o have "c \<noteq> x" "count_list ys c = 0" "count_list new c = 0" by (auto simp: count_list_0_iff)
      then show ?thesis using 0 Some m y Cons.IH [of "length ys"] by simp
    qed
  qed
qed simp



section \<open>Facts: policies\<close>

text \<open>A policy that accepts an update exactly when \<open>ok\<close> holds of it, whatever the state.\<close>

definition answers :: "Policy \<Rightarrow> (RefUpdate \<Rightarrow> bool) \<Rightarrow> bool" where
  "answers p ok \<longleftrightarrow> (\<forall>ln w. fst (run_state (p ln) w) = None \<longleftrightarrow> ok ln)"

lemma eval_line_answers:
  "list_all2 answers ps oks \<Longrightarrow>
     \<exists>es. fst (run_state (eval_line ps ln errs) w) = errs @ es \<and> (es = [] \<longleftrightarrow> (\<forall>ok \<in> set oks. ok ln))"
proof (induction arbitrary: errs w rule: list_all2_induct)
  case (Cons p ps ok oks)
  obtain r w1 where r: "run_state (p ln) w = (r, w1)" by fastforce
  have "r = None \<longleftrightarrow> ok ln" using Cons.hyps(1) r unfolding answers_def by (metis fst_conv)
  moreover obtain es where "fst (run_state (eval_line ps ln (case r of None \<Rightarrow> errs | Some e \<Rightarrow> errs @ [Wrapf ''ref %s: %w'' [upd_Ref ln] e])) w1)
      = (case r of None \<Rightarrow> errs | Some e \<Rightarrow> errs @ [Wrapf ''ref %s: %w'' [upd_Ref ln] e]) @ es" "es = [] \<longleftrightarrow> (\<forall>ok \<in> set oks. ok ln)"
    using Cons.IH by blast
  ultimately show ?case using r by (cases r) auto
qed simp

lemma eval_lines_answers:
  "list_all2 answers ps oks \<Longrightarrow>
     \<exists>es. fst (run_state (eval_lines ps lns errs) w) = errs @ es \<and> (es = [] \<longleftrightarrow> (\<forall>ln \<in> set lns. \<forall>ok \<in> set oks. ok ln))"
proof (induction lns arbitrary: errs w)
  case (Cons ln lns)
  obtain r w1 where r: "run_state (eval_line ps ln errs) w = (r, w1)" by fastforce
  obtain es where "r = errs @ es" "es = [] \<longleftrightarrow> (\<forall>ok \<in> set oks. ok ln)"
    using eval_line_answers [OF Cons.prems, of ln errs w] r by auto
  moreover obtain es' where "fst (run_state (eval_lines ps lns r) w1) = r @ es'" "es' = [] \<longleftrightarrow> (\<forall>ln \<in> set lns. \<forall>ok \<in> set oks. ok ln)"
    using Cons.IH [OF Cons.prems] by blast
  ultimately show ?case using r by (intro exI [of _ "es @ es'"]) auto
qed simp

lemma Evaluate_answers:
  assumes "list_all2 answers ps oks"
  shows "fst (run_state (PolicyEngine_Evaluate ps lns) w) = None \<longleftrightarrow> (\<forall>ln \<in> set lns. \<forall>ok \<in> set oks. ok ln)"
proof (cases "ps = []")
  case True
  with assms show ?thesis by (simp add: PolicyEngine_Evaluate_def)
next
  case False
  obtain r w1 where r: "run_state (eval_lines ps lns []) w = (r, w1)" by fastforce
  with eval_lines_answers [OF assms, of lns "[]" w] have "r = [] \<longleftrightarrow> (\<forall>ln \<in> set lns. \<forall>ok \<in> set oks. ok ln)" by simp
  with r False show ?thesis by (simp add: PolicyEngine_Evaluate_def)
qed

text \<open>
  The documented exit status of \<open>git merge-base --is-ancestor\<close>: 0 and 1 are the answers, anything else is an
  error. \<open>verdict\<close> is the answer, \<open>None\<close> when git cannot tell.
\<close>

definition ancestry :: "git_prog \<Rightarrow> (string \<Rightarrow> string \<Rightarrow> bool option) \<Rightarrow> bool" where
  "ancestry git verdict \<longleftrightarrow> (\<forall>c t old new. cmd_args c = [''merge-base'', ''--is-ancestor'', old, new] \<longrightarrow>
     (case verdict old new of
        Some True \<Rightarrow> exit_status (fst (git c t)) = Exited 0
      | Some False \<Rightarrow> exit_status (fst (git c t)) = Exited 1
      | None \<Rightarrow> (\<forall>n. exit_status (fst (git c t)) = Exited n \<longrightarrow> n \<noteq> 0 \<and> n \<noteq> 1)
          \<and> (\<forall>n. exit_status (fst (git c t)) \<noteq> NotStarted (ExitError n))))"

lemma isAncestor_verdict:
  assumes "ancestry git verdict"
  shows "(\<exists>w'. run_state (isAncestor git r d old new) w = (Inr True, w')) \<longleftrightarrow> verdict old new = Some True"
proof -
  let ?c = "(Git r [''merge-base'', ''--is-ancestor'', old, new])\<lparr>cmd_dir := d\<rparr>"
  obtain rep t where g: "git ?c (tree w) = (rep, t)" by fastforce
  have "cmd_args ?c = [''merge-base'', ''--is-ancestor'', old, new]" by (simp add: Git_def command_def)
  then have "case verdict old new of
        Some True \<Rightarrow> exit_status (fst (git ?c (tree w))) = Exited 0
      | Some False \<Rightarrow> exit_status (fst (git ?c (tree w))) = Exited 1
      | None \<Rightarrow> (\<forall>n. exit_status (fst (git ?c (tree w))) = Exited n \<longrightarrow> n \<noteq> 0 \<and> n \<noteq> 1)
          \<and> (\<forall>n. exit_status (fst (git ?c (tree w))) \<noteq> NotStarted (ExitError n))"
    using assms unfolding ancestry_def by blast
  then have a: "case verdict old new of
        Some True \<Rightarrow> exit_status rep = Exited 0
      | Some False \<Rightarrow> exit_status rep = Exited 1
      | None \<Rightarrow> (\<forall>n. exit_status rep = Exited n \<longrightarrow> n \<noteq> 0 \<and> n \<noteq> 1) \<and> (\<forall>n. exit_status rep \<noteq> NotStarted (ExitError n))"
    unfolding g fst_conv .
  show ?thesis
  proof (cases "exit_status rep")
    case (Exited n)
    with a g show ?thesis by (auto simp: isAncestor_def cmd_error_def split: option.splits bool.splits)
  next
    case (NotStarted e)
    with a g show ?thesis by (cases e) (auto simp: isAncestor_def cmd_error_def split: option.splits bool.splits)
  qed
qed

text \<open>The verdict of the policy on an update, and that the policy answers with it.\<close>

definition fast_forward_ok :: "NonFastForward \<Rightarrow> (string \<Rightarrow> string \<Rightarrow> bool option) \<Rightarrow> RefUpdate \<Rightarrow> bool" where
  "fast_forward_ok p verdict ln \<longleftrightarrow> isZero (Old ln) \<or> isZero (New ln) \<or> \<not> guards p (upd_Ref ln) \<or> verdict (Old ln) (New ln) = Some True"

lemma nff_Evaluate_None:
  assumes "ancestry git verdict"
  shows "fst (run_state (nff_Evaluate git p ln) w) = None \<longleftrightarrow> fast_forward_ok p verdict ln"
proof -
  obtain x w1 where r: "run_state (isAncestor git (nff_git p) (nff_repoDir p) (Old ln) (New ln)) w = (x, w1)" by fastforce
  with isAncestor_verdict [OF assms, of "nff_git p" "nff_repoDir p" "Old ln" "New ln" w]
  have "x = Inr True \<longleftrightarrow> verdict (Old ln) (New ln) = Some True" by auto
  with r show ?thesis by (auto simp: nff_Evaluate_def fast_forward_ok_def split: sum.splits)
qed


text \<open>A git in which every commit descends from the commit \<open>a\<close> and from nothing else.\<close>

definition rooted_git :: git_prog where
  "rooted_git c t = (\<lparr>out = [], err_out = [], exit_status = Exited (if cmd_args c ! 2 = ''a'' then 0 else 1)\<rparr>, t)"


section \<open>Facts: delivery\<close>

text \<open>A spool that can be written \<open>n\<close> times: no faults ahead, its directory there and that many temporary names free.\<close>

definition spool_room :: "nat \<Rightarrow> Store \<Rightarrow> world \<Rightarrow> bool" where
  "spool_room n s w \<longleftrightarrow> faults w = [] \<and> lookup (tree w) (st_dir s) = Some Directory
     \<and> n \<le> length (filter (\<lambda>r. lookup (tree w) (st_dir s @ slash # ''.spool-'' @ r @ fileExt) = None) (entropy w))"

lemma free_temp_room:
  "Suc n \<le> length (filter (\<lambda>r. lookup t (d @ slash # pre @ r @ suf) = None) rs) \<Longrightarrow>
   \<exists>p rs'. free_temp t d pre suf rs = Some (p, rs') \<and> n \<le> length (filter (\<lambda>r. lookup t (d @ slash # pre @ r @ suf) = None) rs')"
  by (induction rs) (auto simp: Let_def)

lemma update_record_room:
  assumes "spool_key (s, eid)" "record_ok rec" "spool_stored (s, eid) rec w" "spool_room (Suc n) s w"
  shows "\<exists>w'. run_state (update_record s eid g) w = (Inr (g rec), w') \<and> spool_stored (s, eid) (g rec) w' \<and> spool_room n s w'"
proof -
  have f: "faults w = []" "lookup (tree w) (st_dir s) = Some Directory" using assms(4) by (auto simp: spool_room_def)
  have r: "run_state (readFile (spool_path s eid)) w = (Inr rec, w)"
    using spool.load_quiet [OF assms(2,3)] f by simp
  obtain tmp rs where t: "free_temp (tree w) (st_dir s) ''.spool-'' fileExt (entropy w) = Some (tmp, rs)"
    "n \<le> length (filter (\<lambda>r. lookup (tree w) (st_dir s @ slash # ''.spool-'' @ r @ fileExt) = None) rs)"
    using free_temp_room assms(4) unfolding spool_room_def by blast
  have nd: "lookup (tree w) (spool_path s eid) \<noteq> Some Directory" using assms(3) by (simp add: spool_stored_def)
  obtain w' where w': "run_state (writeAtomic s (spool_path s eid) (g rec)) w = (Inr (), w')" "faults w' = []" "entropy w' = rs"
    using writeAtomic_succeeds [OF f t(1) assms(1) nd] by blast
  have l: "lookup (tree w') q = (if q = spool_path s eid then Some (File (encode_record (g rec)) True) else lookup (tree w) q)" for q
    using wp_run [OF writeAtomic_spool [OF assms(1), of w UNIV] w'(1)] by (simp add: atomic_write_def)
  have run: "run_state (update_record s eid g) w = (Inr (g rec), w')" using r w' by (simp add: update_record_def)
  have "lookup (tree w') (st_dir s @ slash # ''.spool-'' @ x @ fileExt) = lookup (tree w) (st_dir s @ slash # ''.spool-'' @ x @ fileExt)" for x
    using spool_path_child [OF assms(1)] assms(1) by (auto simp: l spool_key_def HasPrefix_iff)
  moreover have "lookup (tree w') (st_dir s) = Some Directory" using f l [of "st_dir s"] nd by auto
  ultimately have "spool_room n s w'" unfolding spool_room_def w'(3) using w'(2) t(2) by simp
  with wp_run [OF update_record_cell [OF assms(1-3)] run] run show ?thesis by blast
qed

lemma run_Read_stored:
  "record_ok rec \<Longrightarrow> spool_stored (s, eid) rec w \<Longrightarrow> faults w = [] \<Longrightarrow> run_state (Read s eid) w = (Inr rec, w)"
  using spool.load_quiet [of rec "(s, eid)" w] by (simp add: Read_def)

lemma deadLetter_stored:
  assumes "spool_key (del_spool d, eid)" "record_ok rec" "spool_stored (del_spool d, eid) rec w" "spool_room (Suc n) (del_spool d) w"
  shows "\<exists>w'. run_state (deadLetter d eid cause) w = (Inl (Wrapf ''deliver %s: %w'' [eid] cause), w')
     \<and> spool_stored (del_spool d, eid) (rec\<lparr>rec_State := StateDead\<rparr>) w'"
  using update_record_room [OF assms, of "\<lambda>r. r\<lparr>rec_State := StateDead\<rparr>"]
  by (auto simp: deadLetter_def SetState_def)

lemma recordFailure_stored:
  assumes "spool_key (del_spool d, eid)" "record_ok rec" "spool_stored (del_spool d, eid) rec w" "spool_room (Suc n) (del_spool d) w"
  shows "\<exists>e' w'. run_state (recordFailure d now eid cause) w = (Inl e', w') \<and> spool_stored (del_spool d, eid) (fail_attempt now rec) w'
     \<and> spool_room n (del_spool d) w' \<and> (rec_State (fail_attempt now rec) = StateDead \<longrightarrow> e' = Sentinel ErrDead)"
  using update_record_room [OF assms, of "fail_attempt now"]
  by (auto simp: recordFailure_def RecordFailure_def)

text \<open>What an attempt makes of the record.\<close>

definition after_attempt :: "time \<Rightarrow> unit result \<Rightarrow> Record \<Rightarrow> Record" where
  "after_attempt now pr rec = (case pr of Inl _ \<Rightarrow> fail_attempt now rec | Inr _ \<Rightarrow> rec\<lparr>rec_State := StateDelivered\<rparr>)"

lemma after_attempt_ok: "record_ok rec \<Longrightarrow> record_ok (after_attempt now pr rec)"
  by (simp add: after_attempt_def fail_attempt_ok set_state_ok split: sum.split)

lemma after_attempt_event [simp]: "record_event (after_attempt now pr rec) = record_event rec"
  by (auto simp: after_attempt_def fail_attempt_def record_event_def Event.truncate_def Let_def split: sum.split option.split)

lemma Deliver_step:
  assumes "spool_key (del_spool d, eid)" "record_ok rec" "spool_stored (del_spool d, eid) rec w" "faults w = []"
    and "pluginConfig d pid = Some cfg" "Registry_Build (del_registry d) cfg = Inr plugin"
    and "run_state (plugin (record_event rec)) w = (pr, w1)" "spool_stored (del_spool d, eid) rec w1" "spool_room (Suc n) (del_spool d) w1"
  shows "\<exists>r w'. run_state (Deliver d now pid eid) w = (r, w') \<and> spool_stored (del_spool d, eid) (after_attempt now pr rec) w'
    \<and> spool_room n (del_spool d) w' \<and> (\<forall>u. pr = Inr u \<longrightarrow> r = Inr ())
    \<and> (\<forall>e. pr = Inl e \<longrightarrow> (\<exists>e'. r = Inl e' \<and> (rec_State (fail_attempt now rec) = StateDead \<longrightarrow> e' = Sentinel ErrDead)))"
proof -
  have read: "run_state (Read (del_spool d) eid) w = (Inr rec, w)"
    using run_Read_stored [OF assms(2-4)] .
  show ?thesis
  proof (cases pr)
    case (Inl e)
    with assms read recordFailure_stored [OF assms(1,2,8,9), of now e] show ?thesis by (auto simp: Deliver_def after_attempt_def)
  next
    case (Inr u)
    with assms read update_record_room [OF assms(1,2,8,9), of "\<lambda>r. r\<lparr>rec_State := StateDelivered\<rparr>"]
    show ?thesis by (auto simp: Deliver_def SetState_def after_attempt_def)
  qed
qed

text \<open>
  C17. The bookkeeping of a delivery, on a stored event and a writable spool: the event is marked delivered
  exactly when the plugin accepted it; a refused attempt is reported as an error and counted, with the
  next attempt scheduled or the event dead once the budget is used up, which is the error reported then;
  an unknown plugin dead-letters the event at once. What is reported is on disk.
\<close>

theorem Deliver_bookkeeping:
  assumes "spool_key (del_spool d, eid)" "record_ok rec" "spool_stored (del_spool d, eid) rec w" "spool_room 1 (del_spool d) w"
    and "run_state (Deliver d now pid eid) w = (r, w')"
  shows "(pluginConfig d pid = None \<longrightarrow> (\<exists>e. r = Inl e) \<and> spool_stored (del_spool d, eid) (rec\<lparr>rec_State := StateDead\<rparr>) w')
    \<and> (\<forall>cfg plugin pr w1. pluginConfig d pid = Some cfg \<and> Registry_Build (del_registry d) cfg = Inr plugin
         \<and> run_state (plugin (record_event rec)) w = (pr, w1) \<and> spool_stored (del_spool d, eid) rec w1 \<and> spool_room 1 (del_spool d) w1 \<longrightarrow>
         (case pr of
            Inr _ \<Rightarrow> r = Inr () \<and> spool_stored (del_spool d, eid) (rec\<lparr>rec_State := StateDelivered\<rparr>) w'
          | Inl e \<Rightarrow> (\<exists>e'. r = Inl e' \<and> (rec_State (fail_attempt now rec) = StateDead \<longrightarrow> e' = Sentinel ErrDead))
              \<and> spool_stored (del_spool d, eid) (fail_attempt now rec) w'))"
proof (intro conjI impI allI)
  assume "pluginConfig d pid = None"
  with deadLetter_stored [OF assms(1-4) [unfolded One_nat_def], of "Sentinel ErrPluginNotFound"] assms(5)
  show "\<exists>e. r = Inl e" "spool_stored (del_spool d, eid) (rec\<lparr>rec_State := StateDead\<rparr>) w'" by (auto simp: Deliver_def)
next
  fix cfg plugin pr w1
  assume h: "pluginConfig d pid = Some cfg \<and> Registry_Build (del_registry d) cfg = Inr plugin
     \<and> run_state (plugin (record_event rec)) w = (pr, w1) \<and> spool_stored (del_spool d, eid) rec w1 \<and> spool_room 1 (del_spool d) w1"
  have f: "faults w = []" using assms(4) by (simp add: spool_room_def)
  show "case pr of
            Inr _ \<Rightarrow> r = Inr () \<and> spool_stored (del_spool d, eid) (rec\<lparr>rec_State := StateDelivered\<rparr>) w'
          | Inl e \<Rightarrow> (\<exists>e'. r = Inl e' \<and> (rec_State (fail_attempt now rec) = StateDead \<longrightarrow> e' = Sentinel ErrDead))
              \<and> spool_stored (del_spool d, eid) (fail_attempt now rec) w'"
    using Deliver_step [OF assms(1-3) f, of pid cfg plugin pr w1 0 now] h assms(5)
    by (cases pr) (auto simp: after_attempt_def)
qed

definition sample_plugin :: "string \<Rightarrow> string \<Rightarrow> PluginConfig" where
  "sample_plugin pid ty = \<lparr>plugin_ID = pid, plugin_Type = ty, URLTemplate = [], SecretFile = [], Sync = False, Repos = [''*''],
     Timeout = 1, Retries = 3, InsecureSkipVerify = False\<rparr>"

definition sample_deliverer :: Deliverer where
  "sample_deliverer = NewDeliverer [sample_plugin ''l'' ''logger''] sample_store [(''logger'', logger_New)]"

lemma sample_ready: "spool_room 1 sample_store (spool_world [sample_file st])"
  by (simp add: spool_room_def sample_store_def NewStore_def spool_world_def sample_file_def lookup_def)

theorem Deliver_bookkeeping_witness:
  "\<exists>w'. run_state (Deliver sample_deliverer sample_now ''l'' ''e1'') (spool_world [sample_file StatePending]) = (Inr (), w')
     \<and> spool_stored (sample_store, ''e1'') ((sample_record StatePending)\<lparr>rec_State := StateDelivered\<rparr>) w'"
proof -
  let ?w = "spool_world [sample_file StatePending]"
  obtain r w' where run: "run_state (Deliver sample_deliverer sample_now ''l'' ''e1'') ?w = (r, w')" by fastforce
  have s: "del_spool sample_deliverer = sample_store" by (simp add: sample_deliverer_def NewDeliverer_def)
  have c: "pluginConfig sample_deliverer ''l'' = Some (sample_plugin ''l'' ''logger'')"
    "Registry_Build (del_registry sample_deliverer) (sample_plugin ''l'' ''logger'') = Inr (\<lambda>ev. return (Ok ()))"
    by (simp_all add: sample_deliverer_def NewDeliverer_def pluginConfig_def sample_plugin_def Registry_Build_def logger_New_def)
  have st: "spool_key (del_spool sample_deliverer, ''e1'')" "spool_stored (del_spool sample_deliverer, ''e1'') (sample_record StatePending) ?w"
    "spool_room 1 (del_spool sample_deliverer) ?w"
    by (simp_all only: s sample_key sample_stored sample_ready)
  note d = Deliver_bookkeeping [OF st(1) sample_record_ok [of StatePending] st(2,3) run, THEN conjunct2, rule_format]
  have "r = Inr () \<and> spool_stored (sample_store, ''e1'') ((sample_record StatePending)\<lparr>rec_State := StateDelivered\<rparr>) w'"
    using d [of "sample_plugin ''l'' ''logger''" "\<lambda>ev. return (Ok ())" "Ok ()" ?w] c st s by simp
  with run show ?thesis by blast
qed

end
