(* ===== verification/Socket.thy ===== *)
theory Socket
  imports Go_Http Go_Json
begin

text \<open>
  \<open>internal/socket/socket.go\<close>: the client of the serve socket. The request and reply bodies, and the four
  submissions. The HTTP transport over the unix socket is a parameter.
\<close>

section \<open>Bodies\<close>

record DeliverRequest =
  req_PluginID :: string
  req_EventID :: string

record SocketResult =
  sk_Uploaded :: bool
  sk_Reason :: string

text \<open>\<open>BundleRequest\<close>, \<open>RestoreRequest\<close> and \<open>DeleteRequest\<close> have the same single field.\<close>

definition repo_request :: "string \<Rightarrow> bytes" where
  "repo_request repo = print_json (JObj [(''repo'', JStr repo)])"

definition deliver_request :: "DeliverRequest \<Rightarrow> bytes" where
  "deliver_request r = print_json (JObj [(''plugin-id'', JStr (req_PluginID r)), (''event-id'', JStr (req_EventID r))])"

definition assign_result :: "string \<Rightarrow> json \<Rightarrow> SocketResult \<Rightarrow> SocketResult option" where
  "assign_result f j r =
     (if f = ''uploaded'' then map_option (\<lambda>b. r\<lparr>sk_Uploaded := b\<rparr>) (assign_bool j (sk_Uploaded r))
      else map_option (\<lambda>s. r\<lparr>sk_Reason := s\<rparr>) (assign_string j (sk_Reason r)))"

text \<open>\<open>json.Unmarshal\<close> of the reply: unknown fields are ignored, anything after the value is an error.\<close>

definition decode_result :: "bytes \<Rightarrow> SocketResult option" where
  "decode_result data = Option.bind (json_only data)
     (\<lambda>j. decode_struct [''uploaded'', ''reason''] False assign_result j \<lparr>sk_Uploaded = False, sk_Reason = []\<rparr>)"

section \<open>Submissions\<close>

record Client =
  sock_path :: string
  sock_Do :: "HttpRequest \<Rightarrow> HttpResponse result io"

definition sock_post :: "Client \<Rightarrow> string \<Rightarrow> bytes \<Rightarrow> HttpResponse result io" where
  "sock_post c endpoint body = do {
     r \<leftarrow> sock_Do c \<lparr>hr_URL = ''http://gitd'' @ endpoint, hr_Headers = [(''Content-Type'', ''application/json'')], hr_Body = body\<rparr>;
     return (case r of Inl e \<Rightarrow> Fail (Wrapf ''socket %s %s: %w'' [sock_path c, endpoint] e) | Inr resp \<Rightarrow> Ok resp)
   }"

definition status_error :: "string \<Rightarrow> HttpResponse \<Rightarrow> gerror" where
  "status_error endpoint resp = Errf ''socket %s: %s: %s'' [endpoint, resp_Status resp, trim (limit_body (resp_Body resp))]"

definition Client_Bundle :: "Client \<Rightarrow> string \<Rightarrow> SocketResult result io" where
  "Client_Bundle c repo = do {
     r \<leftarrow> sock_post c ''/v1/bundle'' (repo_request repo);
     return (case r of
        Inl e \<Rightarrow> Fail e
      | Inr resp \<Rightarrow>
          (case resp_ReadErr resp of
             Some e \<Rightarrow> Fail (Wrapf ''socket /v1/bundle: read reply: %w'' [] e)
           | None \<Rightarrow>
               if StatusCode resp \<noteq> 200 then Fail (status_error ''/v1/bundle'' resp)
               else case decode_result (limit_body (resp_Body resp)) of
                 None \<Rightarrow> Fail (Errf ''socket /v1/bundle: decode reply: json'' [])
               | Some result \<Rightarrow> Ok result))
   }"

text \<open>The three submissions that only look at the status.\<close>

definition post_expecting_ok :: "Client \<Rightarrow> string \<Rightarrow> bytes \<Rightarrow> unit result io" where
  "post_expecting_ok c endpoint body = do {
     r \<leftarrow> sock_post c endpoint body;
     return (case r of
        Inl e \<Rightarrow> Fail e
      | Inr resp \<Rightarrow> if StatusCode resp \<noteq> 200 then Fail (status_error endpoint resp) else Ok ())
   }"

definition Client_Deliver :: "Client \<Rightarrow> string \<Rightarrow> string \<Rightarrow> unit result io" where
  "Client_Deliver c pluginID eventID =
     post_expecting_ok c ''/v1/deliver'' (deliver_request \<lparr>req_PluginID = pluginID, req_EventID = eventID\<rparr>)"

definition Client_Restore :: "Client \<Rightarrow> string \<Rightarrow> unit result io" where
  "Client_Restore c repo = post_expecting_ok c ''/v1/restore'' (repo_request repo)"

definition Client_DeleteRepo :: "Client \<Rightarrow> string \<Rightarrow> unit result io" where
  "Client_DeleteRepo c repo = post_expecting_ok c ''/v1/delete'' (repo_request repo)"

end
