(* ===== verification/Serve.thy ===== *)
theory Serve
  imports Agent Webhook Socket
begin

text \<open>
  \<open>internal/serve/serve.go\<close>: the actions of the serve process, the channel that serialises them on one
  worker, the start-up sequence, and the handlers of the control socket. The closures sent over the channel
  are the values of a datatype; the delivery function is the injected seam; a reading of the clock is an
  argument; the activity of other processes between two polls is an argument of the waiting loop.
\<close>

section \<open>The process\<close>

abbreviation ErrBusy :: string where "ErrBusy \<equiv> ''serve: actions channel busy''"
abbreviation ErrShuttingDown :: string where "ErrShuttingDown \<equiv> ''serve: shutting down''"

abbreviation gitUID :: nat where "gitUID \<equiv> 1001"

record ServeProc =
  sv_buffer :: nat
  sv_mirror :: Mirror
  sv_spool :: Store
  sv_plugins :: "PluginConfig list"
  sv_deliver :: "string \<Rightarrow> string \<Rightarrow> unit result io"
  sv_reposRoot :: string
  restoreDir :: string
  socketPath :: string
  restoreOnStart :: bool

definition Serve_New :: "nat \<Rightarrow> Mirror \<Rightarrow> Store \<Rightarrow> PluginConfig list \<Rightarrow> (string \<Rightarrow> string \<Rightarrow> unit result io) \<Rightarrow> string \<Rightarrow> string \<Rightarrow> string \<Rightarrow> bool \<Rightarrow> ServeProc" where
  "Serve_New actionsBuffer m s plugins deliver root rdir sock onStart =
     \<lparr>sv_buffer = (if actionsBuffer = 0 then 64 else actionsBuffer), sv_mirror = m, sv_spool = s, sv_plugins = plugins,
      sv_deliver = deliver, sv_reposRoot = root, restoreDir = rdir, socketPath = sock, restoreOnStart = onStart\<rparr>"

section \<open>Deliveries and sweeps\<close>

fun deliver_each :: "ServeProc \<Rightarrow> string \<Rightarrow> PluginConfig list \<Rightarrow> unit io" where
  "deliver_each sv eid [] = return ()"
| "deliver_each sv eid (p # ps) = do { _ \<leftarrow> sv_deliver sv (plugin_ID p) eid; deliver_each sv eid ps }"

definition deliverAllAction :: "ServeProc \<Rightarrow> string \<Rightarrow> unit io" where
  "deliverAllAction sv eid = deliver_each sv eid (sv_plugins sv)"

text \<open>\<open>sweepOnce\<close> returns the events it tries to queue again.\<close>

definition sweepOnce :: "ServeProc \<Rightarrow> time \<Rightarrow> string list io" where
  "sweepOnce sv now = do {
     _ \<leftarrow> Purge (sv_spool sv) now;
     r \<leftarrow> CatchUp (sv_spool sv) now;
     return (case r of Inl e \<Rightarrow> [] | Inr ids \<Rightarrow> ids)
   }"

fun verify_each :: "git_prog \<Rightarrow> ServeProc \<Rightarrow> string list \<Rightarrow> unit io" where
  "verify_each git sv [] = return ()"
| "verify_each git sv (r # rs) = do { _ \<leftarrow> Verify git (sv_mirror sv) r; verify_each git sv rs }"

definition verifyOnce :: "git_prog \<Rightarrow> ServeProc \<Rightarrow> unit io" where
  "verifyOnce git sv = do {
     r \<leftarrow> ListBare (sv_reposRoot sv);
     case r of Inl e \<Rightarrow> return () | Inr repos \<Rightarrow> verify_each git sv repos
   }"

section \<open>Bundles\<close>

definition bundleBackoff :: "duration list" where
  "bundleBackoff = [nsec, 2 * nsec, 4 * nsec]"

text \<open>The attempts, one per reading of the clock.\<close>

fun bundle_attempts :: "git_prog \<Rightarrow> ServeProc \<Rightarrow> string \<Rightarrow> time list \<Rightarrow> gerror \<Rightarrow> BundleResult result io" where
  "bundle_attempts git sv repo [] err = return (Fail (Wrapf ''serve: bundle %s: %w'' [repo] err))"
| "bundle_attempts git sv repo (t # ts) err = do {
     r \<leftarrow> CreateBundle git (sv_mirror sv) t repo;
     case r of Inr result \<Rightarrow> return (Ok result) | Inl e \<Rightarrow> bundle_attempts git sv repo ts e
   }"

definition bundleAction :: "git_prog \<Rightarrow> ServeProc \<Rightarrow> (nat \<Rightarrow> time) \<Rightarrow> string \<Rightarrow> BundleResult result io" where
  "bundleAction git sv clock repo =
     bundle_attempts git sv repo (map clock [0..<Suc (length bundleBackoff)]) (Errf [] [])"

section \<open>Restore and delete jobs\<close>

definition stageRestoreJob :: "git_prog \<Rightarrow> ServeProc \<Rightarrow> string \<Rightarrow> string result io" where
  "stageRestoreJob git sv repo = do {
     ri \<leftarrow> NewID;
     case ri of
       Inl e \<Rightarrow> return (Fail (Wrapf ''serve: restore %s: job id: %w'' [repo] e))
     | Inr jid \<Rightarrow> do {
         rm \<leftarrow> os_MkdirAll (restoreDir sv);
         case rm of
           Inl e \<Rightarrow> return (Fail (Wrapf ''serve: restore %s: mkdir %s: %w'' [repo, restoreDir sv] e))
         | Inr _ \<Rightarrow> do {
             rb \<leftarrow> LatestBundle (sv_mirror sv) repo;
             case rb of
               Inl e \<Rightarrow> return (Fail (Wrapf ''serve: restore %s: %w'' [repo] e))
             | Inr data \<Rightarrow> let bundlePath = Join [restoreDir sv, jid @ JobBundleExt] in do {
                 rw \<leftarrow> os_WriteFile bundlePath data;
                 case rw of
                   Inl e \<Rightarrow> return (Fail (Wrapf ''serve: restore %s: stage bundle: %w'' [repo] e))
                 | Inr _ \<Rightarrow> do {
                     rv \<leftarrow> VerifyBundleFile git (sv_mirror sv) bundlePath;
                     case rv of
                       Inl e \<Rightarrow> do { _ \<leftarrow> remove_quietly bundlePath; return (Fail (Wrapf ''serve: restore %s: bundle verify: %w'' [repo] e)) }
                     | Inr _ \<Rightarrow> do {
                         rq \<leftarrow> WriteJobFile (restoreDir sv) (jid @ JobRequestExt)
                           (encode_request \<lparr>job_Type = [], job_Repo = repo, job_Bundle = jid @ JobBundleExt\<rparr>);
                         case rq of
                           Inl e \<Rightarrow> do { _ \<leftarrow> remove_quietly bundlePath; return (Fail (Wrapf ''serve: restore %s: stage request: %w'' [repo] e)) }
                         | Inr _ \<Rightarrow> return (Ok jid) } } } } }
   }"

definition stageDeleteJob :: "ServeProc \<Rightarrow> string \<Rightarrow> string result io" where
  "stageDeleteJob sv repo = do {
     ri \<leftarrow> NewID;
     case ri of
       Inl e \<Rightarrow> return (Fail (Wrapf ''serve: delete %s: job id: %w'' [repo] e))
     | Inr jid \<Rightarrow> do {
         rm \<leftarrow> os_MkdirAll (restoreDir sv);
         case rm of
           Inl e \<Rightarrow> return (Fail (Wrapf ''serve: delete %s: mkdir %s: %w'' [repo, restoreDir sv] e))
         | Inr _ \<Rightarrow> do {
             rq \<leftarrow> WriteJobFile (restoreDir sv) (jid @ JobRequestExt)
               (encode_request \<lparr>job_Type = ''delete'', job_Repo = repo, job_Bundle = []\<rparr>);
             return (case rq of Inl e \<Rightarrow> Fail (Wrapf ''serve: delete %s: stage request: %w'' [repo] e) | Inr _ \<Rightarrow> Ok jid) } }
   }"

text \<open>
  The polling loop: each element is what the other processes do before a tick; the deadline comes after
  the last one.
\<close>

fun waitRestoreResult :: "ServeProc \<Rightarrow> string \<Rightarrow> unit io list \<Rightarrow> JobResult result io" where
  "waitRestoreResult sv jid [] =
     return (Fail (Errf ''job still in progress (mirror-agent slow); the agent will complete it and serve's startup sweep handles leftovers'' []))"
| "waitRestoreResult sv jid (other # others) = do {
     _ \<leftarrow> other;
     r \<leftarrow> os_ReadFile (Join [restoreDir sv, jid @ JobResultExt]);
     case r of
       Inl e \<Rightarrow>
         if errors_Is e ErrNotExist then waitRestoreResult sv jid others
         else return (Fail (Wrapf ''read job result: %w'' [] e))
     | Inr data \<Rightarrow>
         return (case DecodeJobResult data of Inl e \<Rightarrow> Fail (Wrapf ''decode job result: %w'' [] e) | Inr res \<Rightarrow> Ok res)
   }"

definition cleanupRestoreJob :: "ServeProc \<Rightarrow> string \<Rightarrow> unit io" where
  "cleanupRestoreJob sv jid = do {
     _ \<leftarrow> os_Remove (Join [restoreDir sv, jid @ JobBundleExt]);
     _ \<leftarrow> os_Remove (Join [restoreDir sv, jid @ JobRequestExt]);
     _ \<leftarrow> os_Remove (Join [restoreDir sv, jid @ JobResultExt]);
     return ()
   }"

definition job_suffix :: "string \<Rightarrow> bool" where
  "job_suffix name \<longleftrightarrow> HasSuffix name JobBundleExt \<or> HasSuffix name JobRequestExt \<or> HasSuffix name JobResultExt"

fun sweep_entries :: "ServeProc \<Rightarrow> (string \<times> bool) list \<Rightarrow> unit io" where
  "sweep_entries sv [] = return ()"
| "sweep_entries sv ((name, isdir) # es) =
     (if isdir \<or> \<not> job_suffix name then sweep_entries sv es
      else do { _ \<leftarrow> os_Remove (Join [restoreDir sv, name]); sweep_entries sv es })"

definition sweepRestoreSpool :: "ServeProc \<Rightarrow> unit io" where
  "sweepRestoreSpool sv = do {
     r \<leftarrow> os_ReadDir (restoreDir sv);
     case r of Inl e \<Rightarrow> return () | Inr entries \<Rightarrow> sweep_entries sv entries
   }"

definition missing_repos :: "(string \<times> string list) list \<Rightarrow> string list \<Rightarrow> string list" where
  "missing_repos mirrored live = sort (filter (\<lambda>n. n \<notin> set live) (map fst mirrored))"

fun stage_each :: "git_prog \<Rightarrow> ServeProc \<Rightarrow> string list \<Rightarrow> unit io" where
  "stage_each git sv [] = return ()"
| "stage_each git sv (n # ns) = do { _ \<leftarrow> stageRestoreJob git sv n; stage_each git sv ns }"

definition restoreMissingOnStart :: "git_prog \<Rightarrow> ServeProc \<Rightarrow> unit io" where
  "restoreMissingOnStart git sv =
     (if \<not> restoreOnStart sv then return ()
      else do {
        ra \<leftarrow> ListAllRepos (sv_mirror sv);
        case ra of
          Inl e \<Rightarrow> return ()
        | Inr mirrored \<Rightarrow> do {
            rl \<leftarrow> ListBare (sv_reposRoot sv);
            case rl of Inl e \<Rightarrow> return () | Inr live \<Rightarrow> stage_each git sv (missing_repos mirrored live) }
      })"

section \<open>The channel and its worker\<close>

datatype Action =
    DeliverAll string
  | Sweep
  | VerifyAll
  | Startup
  | BundleRepo string
  | DeliverOne string string
  | StageRestore string
  | StageDelete string

datatype Answer =
    NoAnswer
  | BundleAnswer "BundleResult result"
  | DeliverAnswer "unit result"
  | StageAnswer "string result"

text \<open>What the worker does with an action: its answer, and the actions it tries to queue.\<close>

definition run_action :: "git_prog \<Rightarrow> ServeProc \<Rightarrow> (nat \<Rightarrow> time) \<Rightarrow> Action \<Rightarrow> (Answer \<times> Action list) io" where
  "run_action git sv clock a =
     (case a of
        DeliverAll eid \<Rightarrow> do { _ \<leftarrow> deliverAllAction sv eid; return (NoAnswer, []) }
      | Sweep \<Rightarrow> do { ids \<leftarrow> sweepOnce sv (clock 0); return (NoAnswer, map DeliverAll ids) }
      | VerifyAll \<Rightarrow> do { _ \<leftarrow> verifyOnce git sv; return (NoAnswer, []) }
      | Startup \<Rightarrow> do {
          ids \<leftarrow> sweepOnce sv (clock 0);
          _ \<leftarrow> sweepRestoreSpool sv;
          _ \<leftarrow> restoreMissingOnStart git sv;
          return (NoAnswer, map DeliverAll ids) }
      | BundleRepo r \<Rightarrow> do { x \<leftarrow> bundleAction git sv clock r; return (BundleAnswer x, []) }
      | DeliverOne p e \<Rightarrow> do { x \<leftarrow> sv_deliver sv p e; return (DeliverAnswer x, []) }
      | StageRestore r \<Rightarrow> do { x \<leftarrow> stageRestoreJob git sv r; return (StageAnswer x, []) }
      | StageDelete r \<Rightarrow> do { x \<leftarrow> stageDeleteJob sv r; return (StageAnswer x, []) })"

text \<open>The non-blocking sends of \<open>sweepOnce\<close>: an action that finds the buffer full is dropped.\<close>

fun try_send :: "nat \<Rightarrow> Action list \<Rightarrow> Action list \<Rightarrow> Action list" where
  "try_send cap q [] = q"
| "try_send cap q (a # as) = try_send cap (if length q < cap then q @ [a] else q) as"

record System =
  queue :: "Action list"
  running :: "Action option"
  resend :: "Action list"
  stopping :: bool
  exited :: bool
  sys_world :: world
  accepted :: "Action list"
  executed :: "Action list"

text \<open>
  One step of the process. A submission finds a slot (the \<open>select\<close> of \<open>submit\<close> may take a free slot even
  after \<open>done\<close> is closed); the worker receives the oldest action; it runs it, with the plugins that are
  configured at that moment; it makes the non-blocking sends of a sweep one by one; the shutdown closes
  \<open>done\<close>; the worker leaves once it finds the buffer empty after that; another process changes the state.
  \<open>accepted\<close> and \<open>executed\<close> record the histories. A submission that finds no slot in time, or the channel
  closed, is no step.
\<close>

inductive serve_step :: "git_prog \<Rightarrow> ServeProc \<Rightarrow> System \<Rightarrow> System \<Rightarrow> bool" for git sv where
  submit: "length (queue s) < sv_buffer sv \<Longrightarrow>
    serve_step git sv s (s\<lparr>queue := queue s @ [a], accepted := accepted s @ [a]\<rparr>)"
| take: "queue s = a # q \<Longrightarrow> running s = None \<Longrightarrow> resend s = [] \<Longrightarrow> \<not> exited s \<Longrightarrow>
    serve_step git sv s (s\<lparr>queue := q, running := Some a\<rparr>)"
| work: "running s = Some a \<Longrightarrow>
    run_state (run_action git (sv\<lparr>sv_plugins := ps\<rparr>) clock a) (sys_world s) = ((answer, again), w') \<Longrightarrow>
    serve_step git sv s (s\<lparr>running := None, resend := again, sys_world := w', executed := executed s @ [a]\<rparr>)"
| send: "resend s = a # as \<Longrightarrow> length (queue s) < sv_buffer sv \<Longrightarrow>
    serve_step git sv s (s\<lparr>resend := as, queue := queue s @ [a], accepted := accepted s @ [a]\<rparr>)"
| full: "resend s = a # as \<Longrightarrow> \<not> length (queue s) < sv_buffer sv \<Longrightarrow> serve_step git sv s (s\<lparr>resend := as\<rparr>)"
| shutdown: "serve_step git sv s (s\<lparr>stopping := True\<rparr>)"
| leave: "stopping s \<Longrightarrow> queue s = [] \<Longrightarrow> running s = None \<Longrightarrow> resend s = [] \<Longrightarrow> serve_step git sv s (s\<lparr>exited := True\<rparr>)"
| other: "serve_step git sv s (s\<lparr>sys_world := w'\<rparr>)"

inductive_cases serve_stepE: "serve_step git sv s s'"

definition idle_system :: "world \<Rightarrow> System" where
  "idle_system w = \<lparr>queue = [], running = None, resend = [], stopping = False, exited = False, sys_world = w, accepted = [], executed = []\<rparr>"

inductive reachable :: "git_prog \<Rightarrow> ServeProc \<Rightarrow> System \<Rightarrow> bool" for git sv where
  start: "reachable git sv (idle_system w)"
| step: "reachable git sv s \<Longrightarrow> serve_step git sv s s' \<Longrightarrow> reachable git sv s'"

section \<open>Draining\<close>

lemma run_action_again:
  assumes "run_state (run_action git sv clock a) w = ((answer, again), w')"
  shows "(\<forall>b \<in> set again. \<exists>e. b = DeliverAll e) \<and> (a \<noteq> Sweep \<and> a \<noteq> Startup \<longrightarrow> again = [])"
  using assms by (cases a) (auto simp: run_action_def split: prod.splits)

lemma try_send_extends: "\<exists>as. try_send cap q again = q @ as \<and> set as \<subseteq> set again \<and> (as \<noteq> [] \<longrightarrow> length q + length as \<le> cap)"
proof (induction again arbitrary: q)
  case (Cons a again)
  show ?case
  proof (cases "length q < cap")
    case True
    with Cons.IH [of "q @ [a]"] show ?thesis by fastforce
  next
    case False
    with Cons.IH [of q] show ?thesis by fastforce
  qed
qed simp

text \<open>The weight of the work that is left: a sweep may fill the buffer with deliveries, a delivery queues nothing.\<close>

definition action_weight :: "nat \<Rightarrow> Action \<Rightarrow> nat" where
  "action_weight cap a = (if a = Sweep \<or> a = Startup then Suc cap else 1)"

lemma drain_step_smaller:
  assumes "run_state (run_action git sv clock a) w = ((answer, again), w')"
  shows "sum_list (map (action_weight cap) (try_send cap q again)) < sum_list (map (action_weight cap) (a # q))"
proof -
  obtain as where as: "try_send cap q again = q @ as" "set as \<subseteq> set again" "as \<noteq> [] \<longrightarrow> length q + length as \<le> cap"
    using try_send_extends by blast
  have "\<forall>b \<in> set as. action_weight cap b = 1"
  proof
    fix b
    assume "b \<in> set as"
    with as(2) run_action_again [OF assms] obtain e where "b = DeliverAll e" by blast
    then show "action_weight cap b = 1" by (simp add: action_weight_def)
  qed
  then have "sum_list (map (action_weight cap) as) = length as"
    by (induction as) auto
  moreover have "length as < action_weight cap a"
  proof (cases "a = Sweep \<or> a = Startup")
    case True
    have "length as \<le> cap" using as(3) by (cases as) simp_all
    with True show ?thesis by (simp add: action_weight_def)
  next
    case False
    with run_action_again [OF assms] as(2) have "as = []" by simp
    with False show ?thesis by (simp add: action_weight_def)
  qed
  ultimately show ?thesis using as(1) by simp
qed

text \<open>The drain of the worker after shutdown: the actions run, in order, and the state they leave.\<close>

function drain :: "git_prog \<Rightarrow> ServeProc \<Rightarrow> (nat \<Rightarrow> time) \<Rightarrow> Action list \<Rightarrow> world \<Rightarrow> Action list \<times> world" where
  "drain git sv clock [] w = ([], w)"
| "drain git sv clock (a # q) w =
     (case run_state (run_action git sv clock a) w of ((answer, again), w') \<Rightarrow>
        (case drain git sv clock (try_send (sv_buffer sv) q again) w' of (done, w'') \<Rightarrow> (a # done, w'')))"
  by pat_completeness auto
termination
proof (relation "measure (\<lambda>(git, sv, clock, q, w). sum_list (map (action_weight (sv_buffer sv)) q))", goal_cases)
  case (2 git sv clock a q w x y xa ya)
  from 2 have "run_state (run_action git sv clock a) w = ((xa, ya), y)" by simp
  from drain_step_smaller [OF this] show ?case by simp
qed simp

section \<open>Start-up\<close>

text \<open>\<open>Lstat\<close> of a socket gives its owner.\<close>

definition unlinkStaleSocket :: "ServeProc \<Rightarrow> unit result io" where
  "unlinkStaleSocket sv = do {
     r \<leftarrow> os_Lstat (socketPath sv);
     case r of
       Inl e \<Rightarrow>
         return (if errors_Is e ErrNotExist then Ok () else Fail (Wrapf ''serve: stat %s: %w'' [socketPath sv] e))
     | Inr n \<Rightarrow>
         (case n of
            Socket uid \<Rightarrow>
              if uid \<noteq> gitUID then
                return (Fail (Errf ''serve: refusing to remove %s: not owned by git (uid %d)'' [socketPath sv, show_nat gitUID]))
              else do {
                rr \<leftarrow> os_Remove (socketPath sv);
                return (case rr of Inl e \<Rightarrow> Fail (Wrapf ''serve: remove stale socket: %w'' [] e) | Inr _ \<Rightarrow> Ok ()) }
          | _ \<Rightarrow> return (Fail (Errf ''serve: refusing to remove %s: not a socket'' [socketPath sv])))
   }"

fun run_actions :: "git_prog \<Rightarrow> ServeProc \<Rightarrow> (nat \<Rightarrow> time) \<Rightarrow> Action list \<Rightarrow> Action list io" where
  "run_actions git sv clock [] = return []"
| "run_actions git sv clock (a # as) = do {
     r \<leftarrow> run_action git sv clock a;
     again \<leftarrow> run_actions git sv clock as;
     return (snd r @ again)
   }"

text \<open>
  \<open>Run\<close> up to the listening socket: the stale socket, the catch-up of the due events and the start-up
  action go through the channel one after the other before anything else is accepted. \<open>listen\<close> and \<open>chmod\<close>
  are \<open>net.Listen\<close> and \<open>os.Chmod\<close> on the socket. The result lists what the start-up sweep queued.
\<close>

definition Serve_Run_start :: "git_prog \<Rightarrow> ServeProc \<Rightarrow> (nat \<Rightarrow> time) \<Rightarrow> (string \<Rightarrow> unit result io) \<Rightarrow> (string \<Rightarrow> unit result io) \<Rightarrow> Action list result io" where
  "Serve_Run_start git sv clock listen chmod = do {
     ru \<leftarrow> unlinkStaleSocket sv;
     case ru of
       Inl e \<Rightarrow> return (Fail e)
     | Inr _ \<Rightarrow> do {
         rc \<leftarrow> CatchUp (sv_spool sv) (clock 0);
         case rc of
           Inl e \<Rightarrow> return (Fail (Wrapf ''serve: startup catch-up: %w'' [] e))
         | Inr ids \<Rightarrow> do {
             again \<leftarrow> run_actions git sv clock (map DeliverAll ids @ [Startup]);
             rl \<leftarrow> listen (socketPath sv);
             case rl of
               Inl e \<Rightarrow> return (Fail (Wrapf ''serve: listen %s: %w'' [socketPath sv] e))
             | Inr _ \<Rightarrow> do {
                 rh \<leftarrow> chmod (socketPath sv);
                 return (case rh of
                    Inl e \<Rightarrow> Fail (Wrapf ''serve: chmod socket %s: %w'' [socketPath sv] e)
                  | Inr _ \<Rightarrow> Ok (try_send (sv_buffer sv) [] again)) } } }
   }"

text \<open>
  The end of \<open>Run\<close>: \<open>failed\<close> is the error of the socket server, or \<open>None\<close> when the context was canceled first. Then
  \<open>done\<close> is closed (the step \<open>shutdown\<close> of the channel), the server is shut down, and the worker is waited for
  until it leaves or the drain times out; the outcome is the same.
\<close>

definition Serve_Run_end :: "gerror option \<Rightarrow> unit result" where
  "Serve_Run_end failed = (case failed of Some e \<Rightarrow> Fail (Wrapf ''serve: socket server: %w'' [] e) | None \<Rightarrow> Ok ())"

section \<open>The control socket\<close>

type_synonym http_reply = "int \<times> string"

definition http_Error :: "string \<Rightarrow> int \<Rightarrow> http_reply" where
  "http_Error msg status = (status, msg @ [newline_char])"

definition writeServeError :: "gerror \<Rightarrow> http_reply" where
  "writeServeError e =
     (if errors_Is e ErrBusy \<or> errors_Is e ErrShuttingDown then http_Error (err_text e) 503 else http_Error (err_text e) 500)"

text \<open>\<open>decodeStrict\<close>: the first JSON value of the body, of which at most 64 KiB are read.\<close>

abbreviation maxBodyBytes :: nat where "maxBodyBytes \<equiv> 64 * 1024"

definition decodeStrict :: "string list \<Rightarrow> (string \<Rightarrow> json \<Rightarrow> 'r \<Rightarrow> 'r option) \<Rightarrow> 'r \<Rightarrow> bytes \<Rightarrow> 'r result" where
  "decodeStrict flds assign zero body =
     (case Option.bind (json_first (take maxBodyBytes body)) (\<lambda>j. decode_struct flds True assign j zero) of
        None \<Rightarrow> Fail (Errf ''decode request: json'' [])
      | Some r \<Rightarrow> Ok r)"

definition decode_repo_request :: "bytes \<Rightarrow> string result" where
  "decode_repo_request body = decodeStrict [''repo''] (\<lambda>f j s. assign_string j s) [] body"

definition assign_deliver :: "string \<Rightarrow> json \<Rightarrow> DeliverRequest \<Rightarrow> DeliverRequest option" where
  "assign_deliver f j r =
     (if f = ''plugin-id'' then map_option (\<lambda>s. r\<lparr>req_PluginID := s\<rparr>) (assign_string j (req_PluginID r))
      else map_option (\<lambda>s. r\<lparr>req_EventID := s\<rparr>) (assign_string j (req_EventID r)))"

definition decode_deliver_request :: "bytes \<Rightarrow> DeliverRequest result" where
  "decode_deliver_request body = decodeStrict [''plugin-id'', ''event-id''] assign_deliver \<lparr>req_PluginID = [], req_EventID = []\<rparr> body"

text \<open>\<open>writeJSON\<close> of a bundle result: an empty reason is left out.\<close>

definition result_json :: "BundleResult \<Rightarrow> bytes" where
  "result_json b = print_json (JObj ((''uploaded'', JBool (Uploaded b)) # (if Reason b = [] then [] else [(''reason'', JStr (Reason b))]))) @ [newline_char]"

text \<open>
  \<open>submit\<close> either queues the action, which the worker then runs, or reports why it could not. \<open>gone\<close> says
  that the client left before the answer: nothing is written then.
\<close>

datatype Submission = Queued | NotQueued gerror

definition handleBundle :: "git_prog \<Rightarrow> ServeProc \<Rightarrow> (nat \<Rightarrow> time) \<Rightarrow> bytes \<Rightarrow> Submission \<Rightarrow> bool \<Rightarrow> http_reply option io" where
  "handleBundle git sv clock body sub gone =
     (case decode_repo_request body of
        Inl e \<Rightarrow> return (Some (http_Error (err_text e) 400))
      | Inr repo \<Rightarrow>
          if \<not> ValidName repo then return (Some (http_Error ''invalid repo name'' 400))
          else (case sub of
            NotQueued e \<Rightarrow> return (Some (writeServeError e))
          | Queued \<Rightarrow> do {
              r \<leftarrow> bundleAction git sv clock repo;
              return (if gone then None
                 else Some (case r of Inl e \<Rightarrow> writeServeError e | Inr b \<Rightarrow> (200, result_json b))) }))"

definition pluginConfigured :: "ServeProc \<Rightarrow> string \<Rightarrow> bool" where
  "pluginConfigured sv pid = list_ex (\<lambda>p. plugin_ID p = pid) (sv_plugins sv)"

definition handleDeliver :: "ServeProc \<Rightarrow> bytes \<Rightarrow> Submission \<Rightarrow> bool \<Rightarrow> http_reply option io" where
  "handleDeliver sv body sub gone =
     (case decode_deliver_request body of
        Inl e \<Rightarrow> return (Some (http_Error (err_text e) 400))
      | Inr req \<Rightarrow>
          if req_PluginID req = [] \<or> req_EventID req = [] then return (Some (http_Error ''plugin-id and event-id are required'' 400))
          else if \<not> pluginConfigured sv (req_PluginID req) then do {
            _ \<leftarrow> SetState (sv_spool sv) (req_EventID req) StateDead;
            return (Some (http_Error ''plugin-id not configured'' 404)) }
          else (case sub of
            NotQueued e \<Rightarrow> return (Some (writeServeError e))
          | Queued \<Rightarrow> do {
              r \<leftarrow> sv_deliver sv (req_PluginID req) (req_EventID req);
              return (if gone then None
                 else Some (case r of Inl e \<Rightarrow> writeServeError e | Inr _ \<Rightarrow> (200, []))) }))"

text \<open>The common part of the restore and delete handlers after the staging.\<close>

definition await_job :: "ServeProc \<Rightarrow> string \<Rightarrow> string result \<Rightarrow> unit io list \<Rightarrow> bool \<Rightarrow> http_reply option io" where
  "await_job sv verb staged others gone =
     (if gone then return None
      else case staged of
        Inl e \<Rightarrow> return (Some (writeServeError e))
      | Inr jid \<Rightarrow> do {
          r \<leftarrow> waitRestoreResult sv jid others;
          case r of
            Inl e \<Rightarrow> return (Some (writeServeError e))
          | Inr res \<Rightarrow> do {
              _ \<leftarrow> cleanupRestoreJob sv jid;
              return (Some (if \<not> res_OK res then writeServeError (Errf (verb @ '' failed: %s'') [res_Message res]) else (200, []))) } })"

definition handleRestore :: "git_prog \<Rightarrow> ServeProc \<Rightarrow> bytes \<Rightarrow> Submission \<Rightarrow> unit io list \<Rightarrow> bool \<Rightarrow> http_reply option io" where
  "handleRestore git sv body sub others gone =
     (case decode_repo_request body of
        Inl e \<Rightarrow> return (Some (http_Error (err_text e) 400))
      | Inr repo \<Rightarrow>
          if \<not> ValidName repo then return (Some (http_Error ''invalid repo name'' 400))
          else (case sub of
            NotQueued e \<Rightarrow> return (Some (writeServeError e))
          | Queued \<Rightarrow> do { staged \<leftarrow> stageRestoreJob git sv repo; await_job sv ''restore'' staged others gone }))"

definition handleDelete :: "ServeProc \<Rightarrow> bytes \<Rightarrow> Submission \<Rightarrow> unit io list \<Rightarrow> bool \<Rightarrow> http_reply option io" where
  "handleDelete sv body sub others gone =
     (case decode_repo_request body of
        Inl e \<Rightarrow> return (Some (http_Error (err_text e) 400))
      | Inr repo \<Rightarrow>
          if \<not> ValidName repo then return (Some (http_Error ''invalid repo name'' 400))
          else (case sub of
            NotQueued e \<Rightarrow> return (Some (writeServeError e))
          | Queued \<Rightarrow> do { staged \<leftarrow> stageDeleteJob sv repo; await_job sv ''delete'' staged others gone }))"

text \<open>The routes of the control socket; any other clean path is the 404 of the mux.\<close>

definition handler :: "git_prog \<Rightarrow> ServeProc \<Rightarrow> (nat \<Rightarrow> time) \<Rightarrow> string \<Rightarrow> bytes \<Rightarrow> Submission \<Rightarrow> unit io list \<Rightarrow> bool \<Rightarrow> http_reply option io" where
  "handler git sv clock path body sub others gone =
     (if path = ''/v1/bundle'' then handleBundle git sv clock body sub gone
      else if path = ''/v1/deliver'' then handleDeliver sv body sub gone
      else if path = ''/v1/restore'' then handleRestore git sv body sub others gone
      else if path = ''/v1/delete'' then handleDelete sv body sub others gone
      else return (Some (http_Error ''404 page not found'' 404)))"

section \<open>The tickers\<close>

text \<open>
  The goroutines of \<open>startSweepLoop\<close> and \<open>startVerifyLoop\<close>, given how each tick's submission ends until the
  context is done: the actions they queue. A refused submission ends the goroutine.
\<close>

fun tick_loop :: "Action \<Rightarrow> Submission list \<Rightarrow> Action list" where
  "tick_loop a [] = []"
| "tick_loop a (t # ts) = (case t of Queued \<Rightarrow> a # tick_loop a ts | NotQueued e \<Rightarrow> [])"

definition startSweepLoop :: "duration \<Rightarrow> Submission list \<Rightarrow> Action list" where
  "startSweepLoop interval ticks = (if interval \<le> 0 then [] else tick_loop Sweep ticks)"

definition startVerifyLoop :: "duration \<Rightarrow> Submission list \<Rightarrow> Action list" where
  "startVerifyLoop interval ticks = (if interval \<le> 0 then [] else tick_loop VerifyAll ticks)"

text \<open>One tick that finds the channel full ends the periodic sweep, and with it all retries, for good.\<close>

theorem sweep_ends_at_refusal:
  assumes "0 < interval" "list_all (\<lambda>t. t = Queued) ts"
  shows "startSweepLoop interval (ts @ NotQueued e # us) = replicate (length ts) Sweep"
proof -
  have "tick_loop a (ts @ NotQueued e # us) = replicate (length ts) a" for a
    using assms(2) by (induction ts) auto
  with assms(1) show ?thesis by (simp add: startSweepLoop_def)
qed

end
