(* ===== verification/Serve_Channel.thy ===== *)
theory Serve_Channel
  imports Serve
begin

text \<open>
  The actions channel of \<open>internal/serve/serve.go\<close>: invariants of its reachable states, the drain at
  shutdown, and what happens to a submission that comes too late.
\<close>

section \<open>Facts: the channel\<close>

lemma channel_step:
  assumes "serve_step git sv s s'"
    and "accepted s = executed s @ (case running s of None \<Rightarrow> [] | Some a \<Rightarrow> [a]) @ queue s" "length (queue s) \<le> sv_buffer sv"
    and "exited s \<longrightarrow> stopping s \<and> running s = None \<and> resend s = []" "running s \<noteq> None \<longrightarrow> resend s = []"
  shows "accepted s' = executed s' @ (case running s' of None \<Rightarrow> [] | Some a \<Rightarrow> [a]) @ queue s' \<and> length (queue s') \<le> sv_buffer sv
    \<and> (exited s' \<longrightarrow> stopping s' \<and> running s' = None \<and> resend s' = []) \<and> (running s' \<noteq> None \<longrightarrow> resend s' = [])"
  using assms by (elim serve_stepE) auto

lemma channel_invariant:
  assumes "reachable git sv s"
  shows "accepted s = executed s @ (case running s of None \<Rightarrow> [] | Some a \<Rightarrow> [a]) @ queue s \<and> length (queue s) \<le> sv_buffer sv
    \<and> (exited s \<longrightarrow> stopping s \<and> running s = None \<and> resend s = []) \<and> (running s \<noteq> None \<longrightarrow> resend s = [])"
  using assms
proof induction
  case (start w)
  show ?case by (simp add: idle_system_def)
next
  case (step s s')
  then show ?case by (elim conjE) (rule channel_step)
qed

text \<open>
  C9. The actions channel, in every reachable state, whatever submissions, sweeps and other processes do:
  the actions run are the accepted ones, in the order they were accepted, each once; what was accepted
  and has not been run is the action at work and then the buffer, and the buffer never exceeds its size.
\<close>

theorem actions_fifo:
  assumes "reachable git sv s"
  shows "accepted s = executed s @ (case running s of None \<Rightarrow> [] | Some a \<Rightarrow> [a]) @ queue s \<and> length (queue s) \<le> sv_buffer sv"
  using channel_invariant [OF assms] by simp

section \<open>Facts: shutdown\<close>

text \<open>The sends of a sweep when nobody else submits.\<close>

lemma sends_step:
  assumes "resend s = as"
  shows "(serve_step git sv)\<^sup>*\<^sup>* s (s\<lparr>resend := [], queue := try_send (sv_buffer sv) (queue s) as,
     accepted := accepted s @ drop (length (queue s)) (try_send (sv_buffer sv) (queue s) as)\<rparr>)"
  using assms
proof (induction as arbitrary: s)
  case Nil
  then have "s\<lparr>resend := [], queue := queue s, accepted := accepted s\<rparr> = s" by (cases s) simp
  then show ?case by simp
next
  case (Cons a as)
  show ?case
  proof (cases "length (queue s) < sv_buffer sv")
    case True
    let ?s = "s\<lparr>resend := as, queue := queue s @ [a], accepted := accepted s @ [a]\<rparr>"
    obtain bs where bs: "try_send (sv_buffer sv) (queue s @ [a]) as = (queue s @ [a]) @ bs"
      using try_send_extends by blast
    from serve_step.send [OF Cons.prems True] Cons.IH [of ?s] bs True
    show ?thesis by (auto intro: converse_rtranclp_into_rtranclp)
  next
    case False
    from serve_step.full [OF Cons.prems False] Cons.IH [of "s\<lparr>resend := as\<rparr>"] False
    show ?thesis by (auto intro: converse_rtranclp_into_rtranclp)
  qed
qed

lemma drain_run:
  assumes "drain git sv clock q w = (done, w')" "queue s = q" "sys_world s = w" "running s = None" "resend s = []" "\<not> exited s"
  shows "\<exists>s'. (serve_step git sv)\<^sup>*\<^sup>* s s' \<and> queue s' = [] \<and> running s' = None \<and> resend s' = [] \<and> stopping s' = stopping s
    \<and> executed s' = executed s @ done \<and> sys_world s' = w' \<and> \<not> exited s'"
  using assms
proof (induction git sv clock q w arbitrary: s "done" w' rule: drain.induct)
  case (1 git sv clock w)
  then show ?case by auto
next
  case (2 git sv clock a q w)
  obtain answer again w1 where r: "run_state (run_action git sv clock a) w = ((answer, again), w1)"
    by (metis surj_pair)
  obtain dn where d: "drain git sv clock (try_send (sv_buffer sv) q again) w1 = (dn, w')" "done = a # dn"
    using "2.prems"(1) r by (auto split: prod.splits)
  let ?s1 = "s\<lparr>queue := q, running := Some a\<rparr>"
  let ?s2 = "?s1\<lparr>running := None, resend := again, sys_world := w1, executed := executed s @ [a]\<rparr>"
  let ?s3 = "?s2\<lparr>resend := [], queue := try_send (sv_buffer sv) q again,
     accepted := accepted s @ drop (length q) (try_send (sv_buffer sv) q again)\<rparr>"
  have "serve_step git sv s ?s1" using "2.prems" by (intro serve_step.take) simp_all
  moreover have "serve_step git sv ?s1 ?s2"
    using serve_step.work [where s = ?s1 and git = git and sv = sv and ps = "sv_plugins sv" and clock = clock] r "2.prems"(3) by simp
  moreover have "(serve_step git sv)\<^sup>*\<^sup>* ?s2 ?s3" using sends_step [of ?s2 again git sv] by simp
  ultimately have "(serve_step git sv)\<^sup>*\<^sup>* s ?s3" by (meson converse_rtranclp_into_rtranclp)
  moreover obtain s' where "(serve_step git sv)\<^sup>*\<^sup>* ?s3 s' \<and> queue s' = [] \<and> running s' = None \<and> resend s' = [] \<and> stopping s' = stopping ?s3
    \<and> executed s' = executed ?s3 @ dn \<and> sys_world s' = w' \<and> \<not> exited s'"
    using "2.IH" [OF r [symmetric] refl d(1), of ?s3] "2.prems" by fastforce
  ultimately show ?case unfolding d(2) by (intro exI [of _ s']) auto
qed

lemma drain_runs_queue:
  "(\<exists>extra. fst (drain git sv clock q w) = q @ extra \<and> list_all (\<lambda>b. \<exists>e. b = DeliverAll e) extra)
   \<and> length (fst (drain git sv clock q w)) \<le> sum_list (map (action_weight (sv_buffer sv)) q)"
proof (induction git sv clock q w rule: drain.induct)
  case (2 git sv clock a q w)
  obtain answer again w1 where r: "run_state (run_action git sv clock a) w = ((answer, again), w1)"
    by (metis surj_pair)
  obtain as where as: "try_send (sv_buffer sv) q again = q @ as" "set as \<subseteq> set again"
    using try_send_extends by blast
  have "list_all (\<lambda>b. \<exists>e. b = DeliverAll e) as"
    using run_action_again [OF r] as(2) by (auto simp: list_all_iff)
  with "2.IH" [OF r [symmetric] refl] drain_step_smaller [OF r, of "sv_buffer sv" q] as(1) r show ?case
    by (auto split: prod.split)
qed simp

lemma settle:
  assumes "reachable git sv s" "\<not> exited s"
  shows "\<exists>s' extra. (serve_step git sv)\<^sup>*\<^sup>* s s' \<and> running s' = None \<and> resend s' = [] \<and> \<not> exited s' \<and> stopping s' = stopping s
    \<and> accepted s' = accepted s @ extra \<and> list_all (\<lambda>b. b \<in> set (resend s) \<or> (\<exists>e. b = DeliverAll e)) extra"
proof -
  have sends: "\<exists>s' extra. (serve_step git sv)\<^sup>*\<^sup>* s s' \<and> running s' = None \<and> resend s' = [] \<and> \<not> exited s' \<and> stopping s' = stopping s
    \<and> accepted s' = accepted s @ extra \<and> list_all (\<lambda>b. b \<in> set (resend s)) extra" if "running s = None" "\<not> exited s" for s
  proof -
    obtain as where as: "try_send (sv_buffer sv) (queue s) (resend s) = queue s @ as" "set as \<subseteq> set (resend s)"
      using try_send_extends by blast
    from sends_step [of s "resend s" git sv] that show ?thesis
      by (intro exI conjI) (assumption | simp add: as(1) | use as(2) in \<open>auto simp: list_all_iff\<close>)+
  qed
  show ?thesis
  proof (cases "running s")
    case None
    from sends [OF None assms(2)] show ?thesis by (auto simp: list_all_iff)
  next
    case (Some a)
    obtain clock :: "nat \<Rightarrow> time" where True by simp
    obtain answer again w1 where r: "run_state (run_action git (sv\<lparr>sv_plugins := sv_plugins sv\<rparr>) clock a) (sys_world s) = ((answer, again), w1)"
      by (metis surj_pair)
    let ?s1 = "s\<lparr>running := None, resend := again, sys_world := w1, executed := executed s @ [a]\<rparr>"
    have st: "serve_step git sv s ?s1" by (rule serve_step.work [OF Some r])
    have "list_all (\<lambda>b. \<exists>e. b = DeliverAll e) again" using run_action_again [OF r] by (simp add: list_all_iff)
    moreover obtain s' extra where "(serve_step git sv)\<^sup>*\<^sup>* ?s1 s' \<and> running s' = None \<and> resend s' = [] \<and> \<not> exited s' \<and> stopping s' = stopping s
      \<and> accepted s' = accepted s @ extra \<and> list_all (\<lambda>b. b \<in> set again) extra"
      using sends [of ?s1] assms(2) by auto
    moreover from this st have "(serve_step git sv)\<^sup>*\<^sup>* s s'" by (blast intro: converse_rtranclp_into_rtranclp)
    ultimately show ?thesis by (intro exI [of _ s'] exI [of _ extra]) (auto simp: list_all_iff)
  qed
qed


text \<open>After the worker has left, nothing runs any more.\<close>

lemma exited_frozen:
  assumes "(serve_step git sv)\<^sup>*\<^sup>* s s'" "exited s" "running s = None"
  shows "exited s' \<and> running s' = None \<and> executed s' = executed s"
  using assms by (induction) (auto elim!: serve_stepE)

text \<open>
  C39. A submission can be lost: \<open>submit\<close> may still take a free slot after the worker has drained the buffer
  and left, since its \<open>select\<close> chooses among the ready cases. The action is then accepted, and in no
  continuation is it ever run.
\<close>

theorem submission_lost:
  assumes "0 < sv_buffer sv"
  shows "\<exists>s. reachable git sv s \<and> accepted s = [a] \<and> queue s = [a]
    \<and> (\<forall>s'. (serve_step git sv)\<^sup>*\<^sup>* s s' \<longrightarrow> executed s' = [])"
proof -
  let ?s0 = "idle_system w"
  let ?s1 = "?s0\<lparr>stopping := True\<rparr>" let ?s2 = "?s1\<lparr>exited := True\<rparr>"
  let ?s3 = "?s2\<lparr>queue := queue ?s2 @ [a], accepted := accepted ?s2 @ [a]\<rparr>"
  have "serve_step git sv ?s0 ?s1" by (rule serve_step.shutdown)
  moreover have "serve_step git sv ?s1 ?s2" by (rule serve_step.leave) (simp_all add: idle_system_def)
  moreover have "serve_step git sv ?s2 ?s3" by (rule serve_step.submit) (simp add: idle_system_def assms)
  ultimately have "reachable git sv ?s3" using reachable.start [of git sv w] by (meson reachable.step)
  moreover have "executed s' = []" if "(serve_step git sv)\<^sup>*\<^sup>* ?s3 s'" for s'
    using exited_frozen [OF that] by (simp add: idle_system_def)
  ultimately show ?thesis by (intro exI [of _ ?s3]) (simp add: idle_system_def)
qed

section \<open>Concrete runs\<close>

definition sample_serve :: ServeProc where
  "sample_serve = Serve_New 2 sample_mirror sample_store [] (\<lambda>p e. return (Ok ())) ''/srv'' ''/w'' ''/s/sock'' False"

definition delivering :: System where
  "delivering = (idle_system config_world)\<lparr>queue := [DeliverAll ''e''], accepted := [DeliverAll ''e'']\<rparr>"

lemma delivering_reachable: "reachable git sample_serve delivering"
proof -
  have "serve_step git sample_serve (idle_system config_world) delivering"
    using serve_step.submit [of "idle_system config_world" sample_serve git "DeliverAll ''e''"]
    by (simp add: idle_system_def sample_serve_def Serve_New_def delivering_def)
  with reachable.start show ?thesis by (rule reachable.step)
qed

theorem actions_fifo_witness:
  "reachable bundling_git sample_serve delivering \<and> accepted delivering = executed delivering @ queue delivering"
  using actions_fifo [OF delivering_reachable [of bundling_git]] delivering_reachable by (simp add: delivering_def idle_system_def)


theorem submission_lost_witness:
  "\<exists>s. reachable bundling_git sample_serve s \<and> queue s = [VerifyAll]
     \<and> (\<forall>s'. (serve_step bundling_git sample_serve)\<^sup>*\<^sup>* s s' \<longrightarrow> executed s' = [])"
  using submission_lost [of sample_serve bundling_git VerifyAll] by (auto simp: sample_serve_def Serve_New_def)

end
