(* ===== verification/Serve_Jobs.thy ===== *)
theory Serve_Jobs
  imports Serve
begin

text \<open>
  What the actions of \<open>internal/serve/serve.go\<close> achieve together with the components they use: delivery
  rounds over the webhook plugins and the spool, start-up cleaning, the protocol of the control socket
  between its client and its handlers, and a deletion from the client through serve and the mirror agent.
\<close>

section \<open>Facts: delivery rounds\<close>

text \<open>A plugin that only talks to the outside: files, faults and random strings are as before.\<close>

definition local_state :: "world \<Rightarrow> names \<times> fault list \<times> string list" where
  "local_state w = (tree w, faults w, entropy w)"

definition remote_plugin :: "Deliverer \<Rightarrow> string \<Rightarrow> Plugin \<Rightarrow> bool" where
  "remote_plugin d pid plugin \<longleftrightarrow> (\<exists>cfg. pluginConfig d pid = Some cfg \<and> Registry_Build (del_registry d) cfg = Inr plugin)
     \<and> (\<forall>ev. keeps local_state (plugin ev))"

lemma Deliver_remote:
  assumes "spool_key (del_spool d, eid)" "record_ok rec" "spool_stored (del_spool d, eid) rec w" "spool_room (Suc n) (del_spool d) w"
    and "remote_plugin d pid plugin"
  shows "\<exists>r pr w'. run_state (Deliver d now pid eid) w = (r, w') \<and> pr = fst (run_state (plugin (record_event rec)) w)
    \<and> spool_stored (del_spool d, eid) (after_attempt now pr rec) w' \<and> spool_room n (del_spool d) w'"
proof -
  obtain cfg where c: "pluginConfig d pid = Some cfg" "Registry_Build (del_registry d) cfg = Inr plugin"
    "keeps local_state (plugin (record_event rec))" using assms(5) by (auto simp: remote_plugin_def)
  obtain pr w1 where p: "run_state (plugin (record_event rec)) w = (pr, w1)" by fastforce
  from keeps_run [OF c(3) p] have w1: "tree w1 = tree w" "faults w1 = faults w" "entropy w1 = entropy w" by (simp_all add: local_state_def)
  have "spool_stored (del_spool d, eid) rec w1" "spool_room (Suc n) (del_spool d) w1" "faults w = []"
    using assms(3,4) w1 by (simp_all add: spool_stored_def spool_room_def)
  from Deliver_step [OF assms(1-3) this(3) c(1,2) p this(1,2), of now] p show ?thesis by fastforce
qed

lemma deliver_each_stored:
  assumes "spool_key (del_spool d, eid)" "record_ok rec" "spool_stored (del_spool d, eid) rec w"
    and "spool_room (length ps + n) (del_spool d) w" "sv_deliver sv = Deliver d now"
    and "list_all (\<lambda>p. \<exists>plugin. remote_plugin d (plugin_ID p) plugin) ps"
  shows "\<exists>rec' w'. run_state (deliver_each sv eid ps) w = ((), w') \<and> record_ok rec' \<and> spool_stored (del_spool d, eid) rec' w'
    \<and> record_event rec' = record_event rec \<and> spool_room n (del_spool d) w'"
  using assms
proof (induction ps arbitrary: rec w)
  case (Cons p ps)
  from Cons.prems(6) obtain plugin where pl: "remote_plugin d (plugin_ID p) plugin" by auto
  from Deliver_remote [OF Cons.prems(1-3) _ pl, of "length ps + n" now] Cons.prems(4)
  obtain r pr w1 where 1: "run_state (Deliver d now (plugin_ID p) eid) w = (r, w1)"
    "spool_stored (del_spool d, eid) (after_attempt now pr rec) w1" "spool_room (length ps + n) (del_spool d) w1" by auto
  from Cons.IH [OF Cons.prems(1) after_attempt_ok [OF Cons.prems(2)] 1(2,3) Cons.prems(5)] Cons.prems(5,6) 1(1)
  show ?case by auto
qed auto

lemma deliver_each_append:
  "run_state (deliver_each sv eid (ps @ qs)) w = (case run_state (deliver_each sv eid ps) w of (_, w1) \<Rightarrow> run_state (deliver_each sv eid qs) w1)"
  by (induction ps arbitrary: w) (auto split: prod.split)

text \<open>
  C27. A delivery round, on a stored event and a writable spool: one state per event stands for all plugins,
  and the plugin that comes last decides it. When that one accepts the event, the record is marked
  delivered and is never due again, whatever the plugins before it answered: a plugin that refused the
  event in this round is not retried.
\<close>

theorem last_plugin_decides:
  assumes "spool_key (del_spool d, eid)" "record_ok rec" "spool_stored (del_spool d, eid) rec w"
    and "spool_room (length (sv_plugins sv)) (del_spool d) w" "sv_deliver sv = Deliver d now"
    and "sv_plugins sv = ps @ [q]" "list_all (\<lambda>p. \<exists>plugin. remote_plugin d (plugin_ID p) plugin) ps"
    and "remote_plugin d (plugin_ID q) plugin" "\<And>w. fst (run_state (plugin (record_event rec)) w) = Inr ()"
    and "run_state (deliverAllAction sv eid) w = (u, w')"
  shows "\<exists>rec'. spool_stored (del_spool d, eid) rec' w' \<and> record_event rec' = record_event rec
    \<and> rec_State rec' = StateDelivered \<and> (\<forall>t. \<not> due rec' t)"
proof -
  obtain rec1 w1 where 1: "run_state (deliver_each sv eid ps) w = ((), w1)" "record_ok rec1" "spool_stored (del_spool d, eid) rec1 w1"
    "record_event rec1 = record_event rec" "spool_room 1 (del_spool d) w1"
    using deliver_each_stored [OF assms(1-3) _ assms(5,7), of 1] assms(4,6) by auto
  obtain r w2 where 2: "run_state (Deliver d now (plugin_ID q) eid) w1 = (r, w2)"
    "spool_stored (del_spool d, eid) (after_attempt now (Inr ()) rec1) w2"
    using Deliver_remote [OF assms(1) 1(2,3) _ assms(8), of 0 now] 1(4,5) assms(9) [of w1] by auto
  have "w' = w2" using assms(10) 1(1) 2(1) by (simp add: deliverAllAction_def assms(5,6) deliver_each_append)
  with 2(2) show ?thesis
    by (intro exI [of _ "after_attempt now (Inr ()) rec1"]) (simp add: 1(4), simp add: after_attempt_def due_def)
qed

section \<open>Facts: start-up\<close>

lemma untouched_sweep_entries:
  assumes "list_all (\<lambda>e. snd e \<or> \<not> job_suffix (fst e) \<or> q \<noteq> Join [restoreDir sv, fst e]) es"
  shows "untouched q (sweep_entries sv es)"
  using assms by (induction es rule: sweep_entries.induct [of _ sv]) (auto intro!: frame)

lemma sweepRestoreSpool_only:
  assumes "clean_root (restoreDir sv)" "run_state (sweepRestoreSpool sv) w = (u, w')" "lookup (tree w') q \<noteq> lookup (tree w) q"
  shows "\<exists>n. q = restoreDir sv @ slash # n \<and> slash \<notin> set n \<and> job_suffix n \<and> lookup (tree w) q \<noteq> Some Directory"
proof -
  obtain r w1 where r: "run_state (os_ReadDir (restoreDir sv)) w = (r, w1)" by fastforce
  have same: "tree w1 = tree w" using keeps_run [OF keeps_tree_calls(2) r] .
  have "wp (os_ReadDir (restoreDir sv)) (\<lambda>x _. \<forall>es. x = Inr es \<longrightarrow> es = dir_entries (tree w) (restoreDir sv)) w"
    unfolding os_ReadDir_def by (rule wp_syscall) (auto simp: wp_simps split: option.split node.split)
  from wp_run [OF this r] have es: "\<And>es. r = Inr es \<Longrightarrow> es = dir_entries (tree w) (restoreDir sv)" by blast
  from assms(2,3) r same obtain es where e: "r = Inr es" "run_state (sweep_entries sv es) w1 = (u, w')"
    by (cases r) (auto simp: sweepRestoreSpool_def)
  with untouched_tree [of q "sweep_entries sv es" w1 u w'] assms(3) same
  have "\<not> list_all (\<lambda>e. snd e \<or> \<not> job_suffix (fst e) \<or> q \<noteq> Join [restoreDir sv, fst e]) es"
    using untouched_sweep_entries by auto
  then obtain n b where n: "(n, b) \<in> set es" "\<not> b" "job_suffix n" "q = Join [restoreDir sv, n]" by (auto simp: list_all_iff)
  have nm: "slash \<notin> set n" "n \<noteq> []" using dir_entries_names [of "tree w" "restoreDir sv"] es [OF e(1)] n(1) by (auto simp: list_all_iff)
  have "n \<noteq> ''.''" "n \<noteq> ''..''" using n(3) by (auto simp: job_suffix_def HasSuffix_def)
  with n(4) nm assms(1) have q: "q = restoreDir sv @ slash # n" by (simp add: Join_clean_root)
  moreover have "lookup (tree w) q \<noteq> Some Directory" using n(1,2) es [OF e(1)] q by (auto simp: dir_entries_def)
  ultimately show ?thesis using nm n(3) by blast
qed

lemma unlinkStaleSocket_only:
  assumes "run_state (unlinkStaleSocket sv) w = (r, w')" "lookup (tree w') q \<noteq> lookup (tree w) q"
  shows "q = socketPath sv \<and> lookup (tree w) q = Some (Socket gitUID)"
proof -
  obtain x w1 where x: "run_state (os_Lstat (socketPath sv)) w = (x, w1)" by fastforce
  have same: "tree w1 = tree w" using keeps_run [OF keeps_tree_calls(5) x] .
  have "wp (os_Lstat (socketPath sv)) (\<lambda>x _. \<forall>n. x = Inr n \<longrightarrow> lookup (tree w) (socketPath sv) = Some n) w"
    unfolding os_Lstat_def by (rule wp_syscall) (auto simp: wp_simps split: option.split)
  from wp_run [OF this x] have l: "\<And>n. x = Inr n \<Longrightarrow> lookup (tree w) (socketPath sv) = Some n" by blast
  from assms x same have x': "x = Inr (Socket gitUID)"
    by (auto simp: unlinkStaleSocket_def split: sum.splits node.splits if_splits)
  obtain y w2 where y: "run_state (os_Remove (socketPath sv)) w1 = (y, w2)" by fastforce
  have "w' = w2" using assms(1) x x' y by (auto simp: unlinkStaleSocket_def split: sum.splits)
  with untouched_tree [OF untouched_Remove y, of q] assms(2) same have "q = socketPath sv" by auto
  with l [OF x'] show ?thesis by simp
qed

text \<open>
  C28. What start-up may remove, whatever fails: clearing the control socket changes no name but the socket
  path, and that one only when it is a socket owned by git; clearing the job spool removes only
  non-directories directly in it whose names end in \<open>.bundle\<close>, \<open>.request\<close> or \<open>.result\<close>.
\<close>

theorem startup_removes_only:
  assumes "clean_root (restoreDir sv)" "run_state (unlinkStaleSocket sv) w = (r, w1)" "run_state (sweepRestoreSpool sv) w = (u, w2)"
  shows "(lookup (tree w1) q \<noteq> lookup (tree w) q \<longrightarrow> q = socketPath sv \<and> lookup (tree w) q = Some (Socket gitUID))
    \<and> (lookup (tree w2) q \<noteq> lookup (tree w) q \<longrightarrow>
         (\<exists>n. q = restoreDir sv @ slash # n \<and> slash \<notin> set n \<and> job_suffix n \<and> lookup (tree w) q \<noteq> Some Directory))"
  using unlinkStaleSocket_only [OF assms(2), of q] sweepRestoreSpool_only [OF assms(1,3), of q] by blast

section \<open>Facts: the protocol\<close>

lemma protocol_field_utf8 [simp]: "list_all valid_utf8 [''repo'', ''plugin-id'', ''event-id'', ''uploaded'', ''reason'']"
  by (simp add: valid_utf8_ascii code_def)

lemma decode_repo_request_json:
  assumes "valid_utf8 repo" "length (repo_request repo) \<le> maxBodyBytes"
  shows "decode_repo_request (repo_request repo) = Inr repo"
proof -
  have "json_first (repo_request repo @ []) = Some (JObj [(''repo'', JStr repo)])"
    unfolding repo_request_def using assms(1) protocol_field_utf8 by (intro json_first_print) simp_all
  with assms(2) show ?thesis by (simp add: decode_repo_request_def decodeStrict_def decode_struct_def)
qed

lemma decode_deliver_request_json:
  assumes "valid_utf8 (req_PluginID r)" "valid_utf8 (req_EventID r)" "length (deliver_request r) \<le> maxBodyBytes"
  shows "decode_deliver_request (deliver_request r) = Inr r"
proof -
  have "json_first (deliver_request r @ []) = Some (JObj [(''plugin-id'', JStr (req_PluginID r)), (''event-id'', JStr (req_EventID r))])"
    unfolding deliver_request_def using assms(1,2) protocol_field_utf8 by (intro json_first_print) simp_all
  with assms(3) show ?thesis
    by (simp add: decode_deliver_request_def decodeStrict_def decode_struct_def assign_deliver_def)
qed

lemma decode_result_json:
  assumes "valid_utf8 (Reason b)"
  shows "decode_result (result_json b) = Some \<lparr>sk_Uploaded = Uploaded b, sk_Reason = Reason b\<rparr>"
proof -
  have "json_only (result_json b) = Some (JObj ((''uploaded'', JBool (Uploaded b)) # (if Reason b = [] then [] else [(''reason'', JStr (Reason b))])))"
    unfolding result_json_def using assms protocol_field_utf8 by (intro json_only_print_line) simp_all
  then show ?thesis by (simp add: decode_result_def decode_struct_def assign_result_def)
qed

lemma valid_name_ascii: "ValidName n \<Longrightarrow> ascii n \<and> length n \<le> 100"
  by (cases n) (auto simp: ValidName_def ascii_def list_all_iff name_char_def alnum_char_def less_eq_char_def code_def)

lemma repo_request_short: "length repo \<le> 100 \<Longrightarrow> length (repo_request repo) \<le> maxBodyBytes"
  using length_quote_string [of repo] length_quote_string [of "''repo''"] by (simp add: repo_request_def)

section \<open>Facts: a job from end to end\<close>

lemma run_MkdirAll_there:
  assumes "faults w = []" "mkdir_all (tree w) [] (clean_elems d) = Inr (tree w)"
  shows "\<exists>w'. run_state (os_MkdirAll d) w = (Inr (), w') \<and> tree w' = tree w \<and> faults w' = [] \<and> entropy w' = entropy w"
  using assms by (simp add: os_MkdirAll_def)

text \<open>No name of the job spool mentions the identifier.\<close>

definition fresh_job :: "string \<Rightarrow> string \<Rightarrow> world \<Rightarrow> bool" where
  "fresh_job d jid w \<longleftrightarrow> (\<forall>pre suf. lookup (tree w) (d @ slash # pre @ jid @ suf) = None)"

definition spool_open :: "string \<Rightarrow> world \<Rightarrow> bool" where
  "spool_open d w \<longleftrightarrow> faults w = [] \<and> clean_root d \<and> lookup (tree w) d = Some Directory
     \<and> mkdir_all (tree w) [] (clean_elems d) = Inr (tree w)"

lemma stageDeleteJob_run:
  assumes "spool_open (restoreDir sv) w" "entropy w = r # r1 # rs" "fresh_job (restoreDir sv) (uuid_of r) w"
  shows "\<exists>w'. run_state (stageDeleteJob sv repo) w = (Inr (uuid_of r), w') \<and> faults w' = [] \<and> entropy w' = rs
    \<and> (\<forall>q. lookup (tree w') q = (if q = restoreDir sv @ slash # uuid_of r @ JobRequestExt
         then Some (File (encode_request \<lparr>job_Type = ''delete'', job_Repo = repo, job_Bundle = []\<rparr>) True) else lookup (tree w) q))"
proof -
  let ?d = "restoreDir sv" and ?j = "uuid_of r" let ?n = "?j @ JobRequestExt" and ?w1 = "w\<lparr>entropy := r1 # rs\<rparr>"
  have d: "faults w = []" "clean_root ?d" "lookup (tree w) ?d = Some Directory" "mkdir_all (tree w) [] (clean_elems ?d) = Inr (tree w)"
    using assms(1) by (auto simp: spool_open_def)
  have fresh: "lookup (tree w) (?d @ slash # pre @ ?j @ suf) = None" for pre suf using assms(3) by (simp add: fresh_job_def)
  have key: "job_key (?d, ?n)" by (rule job_key_ext(1) [OF d(2) uuid_of_shape(2)])
  obtain w2 where 2: "run_state (os_MkdirAll ?d) ?w1 = (Inr (), w2)" "tree w2 = tree w" "faults w2 = []" "entropy w2 = r1 # rs"
    using run_MkdirAll_there [of ?w1 ?d] d(1,4) by auto
  have f: "free_temp (tree w2) ?d (''.'' @ ?n @ ''.tmp-'') [] (entropy w2) = Some (?d @ slash # (''.'' @ ?n @ ''.tmp-'') @ r1 @ [], rs)"
    using fresh [of "''.''" "JobRequestExt @ ''.tmp-'' @ r1"] by (simp add: 2(2,4))
  have t: "lookup (tree w2) (Join [?d, ?n]) \<noteq> Some Directory" "lookup (tree w2) ?d = Some Directory"
    using fresh [of "[]" JobRequestExt] d(3) by (simp_all add: 2(2) job_key_path [OF key])
  from WriteJobFile_succeeds [OF 2(3) t(2) f key t(1)] obtain w' where
    "run_state (WriteJobFile ?d ?n (encode_request \<lparr>job_Type = ''delete'', job_Repo = repo, job_Bundle = []\<rparr>)) w2 = (Inr (), w')"
    "faults w' = []" "entropy w' = rs"
    "\<forall>q. lookup (tree w') q = (if q = Join [?d, ?n] then Some (File (encode_request \<lparr>job_Type = ''delete'', job_Repo = repo, job_Bundle = []\<rparr>) True)
       else lookup (tree w2) q)" by blast
  then show ?thesis
    using run_NewID [OF assms(2)] 2(1,2) job_key_path [OF key] by (simp add: stageDeleteJob_def)
qed


lemma cleanup_run:
  assumes "faults w = []" "clean_root (restoreDir sv)" "slash \<notin> set jid"
    and "list_all (\<lambda>x. lookup (tree w) (Join [restoreDir sv, jid @ x]) \<noteq> Some Directory) [JobBundleExt, JobRequestExt, JobResultExt]"
  shows "\<exists>w'. run_state (cleanupRestoreJob sv jid) w = ((), w') \<and> (\<forall>q. lookup (tree w') q =
     (if q \<in> (\<lambda>x. Join [restoreDir sv, jid @ x]) ` {JobBundleExt, JobRequestExt, JobResultExt} then None else lookup (tree w) q))"
proof -
  let ?p = "\<lambda>x. Join [restoreDir sv, jid @ x]"
  note path = job_key_ext [OF assms(2,3), THEN job_key_path]
  have ne: "?p JobBundleExt \<noteq> ''/''" "?p JobRequestExt \<noteq> ''/''" "?p JobResultExt \<noteq> ''/''"
    using assms(2) by (auto simp: path append_eq_Cons_conv)
  obtain r1 w1 where 1: "run_state (os_Remove (?p JobBundleExt)) w = (r1, w1)" "faults w1 = []"
    "\<And>q. lookup (tree w1) q = (if q = ?p JobBundleExt then None else lookup (tree w) q)"
    using run_Remove_nil [OF assms(1) _ ne(1)] assms(4) by auto
  have "lookup (tree w1) (?p JobRequestExt) \<noteq> Some Directory" using 1(3) [of "?p JobRequestExt"] assms(4) by simp
  then obtain r2 w2 where 2: "run_state (os_Remove (?p JobRequestExt)) w1 = (r2, w2)" "faults w2 = []"
    "\<And>q. lookup (tree w2) q = (if q = ?p JobRequestExt then None else lookup (tree w1) q)"
    using run_Remove_nil [OF 1(2) _ ne(2)] by meson
  have "lookup (tree w2) (?p JobResultExt) \<noteq> Some Directory"
    using 2(3) [of "?p JobResultExt"] 1(3) [of "?p JobResultExt"] assms(4) by simp
  then obtain r3 w3 where 3: "run_state (os_Remove (?p JobResultExt)) w2 = (r3, w3)"
    "\<And>q. lookup (tree w3) q = (if q = ?p JobResultExt then None else lookup (tree w2) q)"
    using run_Remove_nil [OF 2(2) _ ne(3)] by meson
  show ?thesis using 1(1) 2(1) 3(1) by (auto simp: cleanupRestoreJob_def 1(3) 2(3) 3(2))
qed


text \<open>A transport that reaches the control socket: the request is routed, queued and answered.\<close>

definition served :: "git_prog \<Rightarrow> ServeProc \<Rightarrow> (nat \<Rightarrow> time) \<Rightarrow> unit io list \<Rightarrow> HttpRequest \<Rightarrow> HttpResponse result io" where
  "served git sv clock others req = do {
     reply \<leftarrow> handler git sv clock (drop (length ''http://gitd'') (hr_URL req)) (hr_Body req) Queued others False;
     return (case reply of
        None \<Rightarrow> Fail (Errf ''EOF'' [])
      | Some (status, body) \<Rightarrow> Ok \<lparr>StatusCode = status, resp_Status = show_int status, resp_Body = body, resp_ReadErr = None\<rparr>)
   }"

text \<open>The staging of a delete job followed by the agent's work on it.\<close>

lemma staged_delete_run:
  assumes "spool_open (restoreDir sv) w" "entropy w = r # r1 # r2 # rs" "fresh_job (restoreDir sv) (uuid_of r) w"
    and "ag_workdir a = restoreDir sv" "is_rooted (ag_reposRoot a)" "ValidName repo"
    and "resolve (tree w) (Join [ag_reposRoot a, repo @ ''.git'']) = Inr p"
    and "below (Clean (ag_reposRoot a)) (Clean p)" "bare_layout (tree w) (Clean p)" "\<not> below (Clean p) (restoreDir sv)"
  shows "\<exists>w1 w2. run_state (stageDeleteJob sv repo) w = (Inr (uuid_of r), w1) \<and> run_state (processJob git a (uuid_of r)) w1 = ((), w2)
    \<and> faults w2 = []
    \<and> (\<forall>q. lookup (tree w2) q =
         (if q = Join [restoreDir sv, uuid_of r @ JobResultExt]
          then Some (File (encode_result \<lparr>res_OK = True, res_Message = ''repo deleted''\<rparr>) True)
          else if q \<in> {Join [restoreDir sv, uuid_of r @ JobRequestExt], Join [restoreDir sv, uuid_of r @ JobBundleExt]} then None
          else if q \<noteq> ''/'' \<and> below (Clean p) q then None else lookup (tree w) q))"
proof -
  let ?d = "restoreDir sv" and ?j = "uuid_of r" let ?p = "\<lambda>x. Join [?d, ?j @ x]"
  let ?req = "\<lparr>job_Type = ''delete'', job_Repo = repo, job_Bundle = []\<rparr>"
  have d: "clean_root ?d" "lookup (tree w) ?d = Some Directory" using assms(1) by (auto simp: spool_open_def)
  have fresh: "lookup (tree w) (?d @ slash # pre @ ?j @ suf) = None" for pre suf using assms(3) by (simp add: fresh_job_def)
  note path = job_key_ext [OF d(1) uuid_of_shape(2) [of r], THEN job_key_path]
  have none: "lookup (tree w) (?p JobRequestExt) = None" "lookup (tree w) (?p JobBundleExt) = None" "lookup (tree w) (?p JobResultExt) = None"
    using fresh [of "[]"] by (simp_all add: path)
  have "?p JobRequestExt \<noteq> ?p JobBundleExt" "?p JobRequestExt \<noteq> ?p JobResultExt" "?p JobBundleExt \<noteq> ?p JobResultExt" "?d \<noteq> ?p JobRequestExt"
    by (simp_all add: path)
  note dist = this
  obtain w1 where 1: "run_state (stageDeleteJob sv repo) w = (Inr ?j, w1)" "faults w1 = []" "entropy w1 = r2 # rs"
    "\<And>q. lookup (tree w1) q = (if q = ?p JobRequestExt then Some (File (encode_request ?req) True) else lookup (tree w) q)"
    using stageDeleteJob_run [OF assms(1,2,3), of repo] by (auto simp: path)
  have ext: "lookup (tree w) q \<noteq> None \<Longrightarrow> lookup (tree w1) q = lookup (tree w) q" for q using none by (auto simp: 1(4))
  have rt: "request_text ?req" using valid_name_ascii [OF assms(6)] ascii_utf8 by (simp add: request_text_def valid_utf8_ascii code_def)
  have "?d @ slash # ''.'' @ ?j @ JobResultExt @ ''.tmp-'' @ r2 \<noteq> ?p JobRequestExt"
    by (rule notI, drule arg_cong [where f = length]) (simp add: path)
  with fresh [of "''.''" "JobResultExt @ ''.tmp-'' @ r2"]
  have temp: "free_temp (tree w1) ?d (''.'' @ ?j @ JobResultExt @ ''.tmp-'') [] (entropy w1) \<noteq> None" by (simp add: 1(3,4))
  show ?thesis
    using processJob_delete [of w1 a ?j ?req True p git] 1 d uuid_of_shape(2) [of r] rt none dist temp assms(4-6,10)
      resolve_extend [OF assms(7) ext] assms(8) bare_extend [OF assms(9) ext] by fastforce
qed

lemma handleDelete_run:
  assumes "spool_open (restoreDir sv) w" "entropy w = r # r1 # r2 # rs" "fresh_job (restoreDir sv) (uuid_of r) w"
    and "ag_workdir a = restoreDir sv" "is_rooted (ag_reposRoot a)" "ValidName repo"
    and "resolve (tree w) (Join [ag_reposRoot a, repo @ ''.git'']) = Inr p"
    and "below (Clean (ag_reposRoot a)) (Clean p)" "bare_layout (tree w) (Clean p)" "\<not> below (Clean p) (restoreDir sv)"
  shows "\<exists>w'. run_state (handleDelete sv (repo_request repo) Queued [processJob git a (uuid_of r)] False) w = (Some (200, []), w')
    \<and> (\<forall>q. lookup (tree w') q = (if q \<noteq> ''/'' \<and> below (Clean p) q then None else lookup (tree w) q))"
proof -
  let ?d = "restoreDir sv" and ?j = "uuid_of r" let ?p = "\<lambda>x. Join [?d, ?j @ x]"
  let ?res = "\<lparr>res_OK = True, res_Message = ''repo deleted''\<rparr>"
  have d: "clean_root ?d" using assms(1) by (auto simp: spool_open_def)
  note path = job_key_ext [OF d uuid_of_shape(2) [of r], THEN job_key_path]
  have none: "lookup (tree w) (?p x) = None" if "x \<in> {JobBundleExt, JobRequestExt, JobResultExt}" for x
    using assms(3) [unfolded fresh_job_def, rule_format, of "[]"] that by (auto simp: path)
  have v: "valid_utf8 repo" "length (repo_request repo) \<le> maxBodyBytes"
    using valid_name_ascii [OF assms(6)] ascii_utf8 repo_request_short by auto
  obtain w1 w2 where 1: "run_state (stageDeleteJob sv repo) w = (Inr ?j, w1)" and 2: "run_state (processJob git a ?j) w1 = ((), w2)"
    "faults w2 = []" and t: "\<And>q. lookup (tree w2) q = (if q = ?p JobResultExt then Some (File (encode_result ?res) True)
          else if q \<in> {?p JobRequestExt, ?p JobBundleExt} then None
          else if q \<noteq> ''/'' \<and> below (Clean p) q then None else lookup (tree w) q)"
    using staged_delete_run [OF assms, of git] by blast
  have res: "run_state (os_ReadFile (?p JobResultExt)) w2 = (Inr (encode_result ?res), w2)"
    using 2(2) by (simp add: os_ReadFile_def t)
  have dec: "DecodeJobResult (encode_result ?res) = Inr ?res"
    by (rule decode_encode_result) (simp add: result_text_def valid_utf8_ascii code_def)
  obtain w3 where 3: "run_state (cleanupRestoreJob sv ?j) w2 = ((), w3)"
    "\<And>q. lookup (tree w3) q = (if q \<in> ?p ` {JobBundleExt, JobRequestExt, JobResultExt} then None else lookup (tree w2) q)"
    using cleanup_run [OF 2(2) d uuid_of_shape(2) [of r]] t by (auto simp: path)
  have "run_state (handleDelete sv (repo_request repo) Queued [processJob git a ?j] False) w = (Some (200, []), w3)"
    using assms(6) 1 2(1) res dec 3(1) by (simp add: handleDelete_def decode_repo_request_json [OF v] await_job_def)
  moreover have "lookup (tree w3) q = (if q \<noteq> ''/'' \<and> below (Clean p) q then None else lookup (tree w) q)" for q
  proof (cases "q \<in> ?p ` {JobBundleExt, JobRequestExt, JobResultExt}")
    case True
    then obtain x where "q = ?p x" and "x \<in> {JobBundleExt, JobRequestExt, JobResultExt}" by (rule imageE)
    then have "lookup (tree w) q = None" using none [of x] by simp
    with True show ?thesis by (simp add: 3(2))
  qed (simp add: 3(2) t)
  ultimately show ?thesis by blast
qed

text \<open>
  C2. Deleting a repository from end to end, without faults: the client's request is decoded, queued and
  staged as a job, the agent finds the job acceptable, removes the repository and leaves the result, serve
  reads it, cleans the job spool and answers, and the client reports success. The bare repository the
  name resolves to is gone with all it held, and nothing else in the file system has changed.
\<close>

theorem delete_end_to_end:
  assumes "spool_open (restoreDir sv) w" "entropy w = r # r1 # r2 # rs" "fresh_job (restoreDir sv) (uuid_of r) w"
    and "ag_workdir a = restoreDir sv" "is_rooted (ag_reposRoot a)" "ValidName repo"
    and "resolve (tree w) (Join [ag_reposRoot a, repo @ ''.git'']) = Inr p"
    and "below (Clean (ag_reposRoot a)) (Clean p)" "bare_layout (tree w) (Clean p)" "\<not> below (Clean p) (restoreDir sv)"
    and "sock_Do c = served git sv clock [processJob git a (uuid_of r)]"
  shows "\<exists>w'. run_state (Client_DeleteRepo c repo) w = (Inr (), w')
    \<and> (\<forall>q. lookup (tree w') q = (if q \<noteq> ''/'' \<and> below (Clean p) q then None else lookup (tree w) q))"
proof -
  obtain w' where w': "run_state (handleDelete sv (repo_request repo) Queued [processJob git a (uuid_of r)] False) w = (Some (200, []), w')"
    "\<forall>q. lookup (tree w') q = (if q \<noteq> ''/'' \<and> below (Clean p) q then None else lookup (tree w) q)"
    using handleDelete_run [OF assms(1-10)] by blast
  then show ?thesis
    by (simp add: Client_DeleteRepo_def post_expecting_ok_def sock_post_def assms(11) served_def handler_def)
qed

text \<open>
  C26. A bundle requested over the socket is the bundle action itself: whatever the worker's attempts do,
  the client ends in the same state, with the outcome of the action, or with an error exactly when the
  action failed.
\<close>

theorem remote_bundle:
  assumes "ValidName repo" "sock_Do c = served git sv clock others"
    and "run_state (bundleAction git sv clock repo) w = (res, w')"
    and "\<And>b. res = Inr b \<Longrightarrow> valid_utf8 (Reason b) \<and> length (result_json b) \<le> 1048576"
  shows "case res of
      Inr b \<Rightarrow> run_state (Client_Bundle c repo) w = (Inr \<lparr>sk_Uploaded = Uploaded b, sk_Reason = Reason b\<rparr>, w')
    | Inl e \<Rightarrow> (\<exists>e'. run_state (Client_Bundle c repo) w = (Inl e', w'))"
proof -
  have v: "valid_utf8 repo" "length (repo_request repo) \<le> maxBodyBytes"
    using valid_name_ascii [OF assms(1)] ascii_utf8 repo_request_short by auto
  show ?thesis
    using assms(1,3,4)
    by (cases res) (simp_all add: Client_Bundle_def sock_post_def assms(2) served_def handler_def handleBundle_def
       decode_repo_request_json [OF v] decode_result_json limit_body_def writeServeError_def http_Error_def)
qed

section \<open>Concrete runs\<close>

text \<open>Two plugins: the first always refuses, the second accepts.\<close>

definition refusing :: Constructor where
  "refusing cfg = Inr (\<lambda>ev. return (Fail (Errf ''503'' [])))"

definition pair_deliverer :: Deliverer where
  "pair_deliverer = NewDeliverer [sample_plugin ''r'' ''refusing'', sample_plugin ''l'' ''logger''] sample_store
     [(''logger'', logger_New), (''refusing'', refusing)]"

definition pair_serve :: ServeProc where
  "pair_serve = Serve_New 2 sample_mirror sample_store (del_plugins pair_deliverer) (Deliver pair_deliverer sample_now) ''/srv'' ''/w'' ''/s/sock'' False"

definition pair_world :: world where
  "pair_world = (spool_world [sample_file StatePending])\<lparr>entropy := [''1'', ''2'']\<rparr>"

theorem last_plugin_decides_witness:
  "\<exists>w' rec'. run_state (deliverAllAction pair_serve ''e1'') pair_world = ((), w')
     \<and> spool_stored (sample_store, ''e1'') rec' w' \<and> rec_State rec' = StateDelivered \<and> (\<forall>t. \<not> due rec' t)"
proof -
  obtain u w' where run: "run_state (deliverAllAction pair_serve ''e1'') pair_world = (u, w')" by (rule prod.exhaust)
  have s: "del_spool pair_deliverer = sample_store" "sv_plugins pair_serve = [sample_plugin ''r'' ''refusing''] @ [sample_plugin ''l'' ''logger'']"
    "sv_deliver pair_serve = Deliver pair_deliverer sample_now"
    by (simp_all add: pair_deliverer_def NewDeliverer_def pair_serve_def Serve_New_def)
  have st: "spool_stored (sample_store, ''e1'') (sample_record StatePending) pair_world" "spool_room 2 sample_store pair_world"
    using sample_stored [of StatePending]
    by (simp_all add: pair_world_def spool_stored_def spool_room_def sample_store_def NewStore_def spool_world_def sample_file_def lookup_def)
  have r: "remote_plugin pair_deliverer ''r'' (\<lambda>ev. return (Fail (Errf ''503'' [])))" "remote_plugin pair_deliverer ''l'' (\<lambda>ev. return (Ok ()))"
    by (simp_all add: remote_plugin_def pair_deliverer_def NewDeliverer_def pluginConfig_def sample_plugin_def Registry_Build_def
        logger_New_def refusing_def keeps_def)
  have p: "list_all (\<lambda>p. \<exists>plugin. remote_plugin pair_deliverer (plugin_ID p) plugin) [sample_plugin ''r'' ''refusing'']"
    "plugin_ID (sample_plugin ''l'' ''logger'') = ''l''" using r by (auto simp: sample_plugin_def)
  have "\<exists>rec'. spool_stored (sample_store, ''e1'') rec' w' \<and> record_event rec' = record_event (sample_record StatePending)
    \<and> rec_State rec' = StateDelivered \<and> (\<forall>t. \<not> due rec' t)"
    using last_plugin_decides [of pair_deliverer "''e1''" "sample_record StatePending" pair_world pair_serve sample_now
      "[sample_plugin ''r'' ''refusing'']" "sample_plugin ''l'' ''logger''" "\<lambda>ev. return (Ok ())" u w'] s st r p run
      sample_key(1) sample_record_ok [of StatePending] by (simp add: numeral_2_eq_2)
  with run show ?thesis by auto
qed

theorem startup_removes_only_witness:
  "\<exists>w2. run_state (sweepRestoreSpool pair_serve) (agent_world [(''/w/j.request'', File [] True)]) = ((), w2)
     \<and> lookup (tree w2) ''/w/j.request'' = None \<and> job_suffix ''j.request''"
proof -
  let ?w = "agent_world [(''/w/j.request'', File [] True)]"
  let ?run = "run_state (sweepRestoreSpool pair_serve) ?w" and ?run1 = "run_state (unlinkStaleSocket pair_serve) ?w"
  have c: "clean_root (restoreDir pair_serve)" "restoreDir pair_serve = ''/w''" "lookup (tree ?w) ''/w/j.request'' = Some (File [] True)"
    "lookup (tree (snd ?run)) ''/w/j.request'' = None" by code_simp+
  have "?run = ((), snd ?run)" by (rule prod_eqI) simp_all
  moreover from startup_removes_only [OF c(1) run_result [OF refl] this, of "''/w/j.request''"] c(2-4)
  have "job_suffix ''j.request''" by auto
  ultimately show ?thesis using c(4) by blast
qed

definition deleting_client :: "string \<Rightarrow> Client" where
  "deleting_client r = \<lparr>sock_path = ''/s/sock'', sock_Do = served bundling_git pair_serve (\<lambda>_. sample_now) [processJob bundling_git sample_agent (uuid_of r)]\<rparr>"

definition delete_world :: world where
  "delete_world = (agent_world (bare_at ''/srv/a.git''))\<lparr>entropy := [''1'', ''2'', ''3'']\<rparr>"

lemma delete_world_fresh: "fresh_job ''/w'' (uuid_of r) delete_world"
proof -
  have l: "lookup (tree delete_world) q = None" if "20 < length q" for q
    using that by (auto simp: delete_world_def agent_world_def bare_at_def lookup_def split: if_splits)
  show ?thesis unfolding fresh_job_def by (intro allI l) (simp add: uuid_of_shape(1))
qed

theorem delete_end_to_end_witness:
  "\<exists>w'. run_state (Client_DeleteRepo (deleting_client ''1'') ''a'') delete_world = (Inr (), w')
     \<and> lookup (tree w') ''/srv/a.git/HEAD'' = None \<and> lookup (tree w') ''/srv'' = Some Directory"
proof -
  have c: "restoreDir pair_serve = ''/w''" "ag_workdir sample_agent = ''/w''" "ag_reposRoot sample_agent = ''/srv''" "is_rooted ''/srv''"
    "ValidName ''a''" "resolve (tree delete_world) (Join [''/srv'', ''a'' @ ''.git'']) = Inr ''/srv/a.git''" "Clean ''/srv/a.git'' = ''/srv/a.git''"
    "below (Clean ''/srv'') ''/srv/a.git''" "bare_layout (tree delete_world) ''/srv/a.git''" "\<not> below ''/srv/a.git'' ''/w''"
    "faults delete_world = []" "clean_root ''/w''" "lookup (tree delete_world) ''/w'' = Some Directory"
    "mkdir_all (tree delete_world) [] (clean_elems ''/w'') = Inr (tree delete_world)" "entropy delete_world = [''1'', ''2'', ''3'']"
    "below ''/srv/a.git'' ''/srv/a.git/HEAD''" "\<not> below ''/srv/a.git'' ''/srv''" "lookup (tree delete_world) ''/srv'' = Some Directory"
    by code_simp+
  have o: "spool_open ''/w'' delete_world" using c by (simp add: spool_open_def)
  have "sock_Do (deleting_client ''1'') = served bundling_git pair_serve (\<lambda>_. sample_now) [processJob bundling_git sample_agent (uuid_of ''1'')]"
    by (simp add: deleting_client_def)
  from delete_end_to_end [where sv = pair_serve and a = sample_agent and p = "''/srv/a.git''", unfolded c(1-3,7), OF o c(15) delete_world_fresh refl c(4-6,8-10) this]
  show ?thesis using c(16-18) by auto
qed


definition bundle_client :: Client where
  "bundle_client = \<lparr>sock_path = ''/s/sock'', sock_Do = served bundling_git pair_serve (\<lambda>_. sample_now) []\<rparr>"

lemma sample_bundle_action:
  "fst (run_state (bundleAction bundling_git pair_serve (\<lambda>_. sample_now) ''a'') (mirror_world [])) = Inr \<lparr>Uploaded = True, Reason = []\<rparr>"
  by code_simp

theorem remote_bundle_witness:
  "\<exists>w'. run_state (Client_Bundle bundle_client ''a'') (mirror_world []) = (Inr \<lparr>sk_Uploaded = True, sk_Reason = []\<rparr>, w')"
proof -
  let ?run = "run_state (bundleAction bundling_git pair_serve (\<lambda>_. sample_now) ''a'') (mirror_world [])"
  have v: "ValidName ''a''" by code_simp
  have r: "?run = (Inr \<lparr>Uploaded = True, Reason = []\<rparr>, snd ?run)" by (rule prod_eqI) (simp_all add: sample_bundle_action)
  have "length (result_json \<lparr>Uploaded = True, Reason = []\<rparr>) \<le> 1048576"
    using length_quote_string [of "''uploaded''"] by (simp add: result_json_def)
  with remote_bundle [OF v _ r, of bundle_client "[]"] show ?thesis by (auto simp: bundle_client_def)
qed

end
