(* ===== verification/Disk.thy ===== *)
theory Disk
  imports Go_Fs "HOL-Library.Word"
begin

text \<open>
  \<open>internal/disk/disk.go\<close>: the disk headroom guard. The kernel's answer to \<open>statfs\<close> is a parameter,
  the pair \<open>(Bavail, Bsize)\<close> of 64-bit words or the error of the call; the product wraps as Go's
  \<open>uint64\<close> does.
\<close>

type_synonym u64 = "64 word"
type_synonym statfs = "string \<Rightarrow> (u64 \<times> u64) result"

definition FreeBytes :: "statfs \<Rightarrow> string \<Rightarrow> u64 result" where
  "FreeBytes st p =
     (case st p of
        Inl e \<Rightarrow> Fail (Wrapf ''statfs %s: %w'' [p] e)
      | Inr (bavail, bsize) \<Rightarrow> Ok (bavail * bsize))"

record Headroom =
  MinFree :: u64
  WarnFree :: u64

abbreviation ErrLowSpace :: string where "ErrLowSpace \<equiv> ''disk.ErrLowSpace''"

text \<open>The result of the check, and whether it logged the low-headroom warning.\<close>

definition Headroom_Check :: "statfs \<Rightarrow> Headroom \<Rightarrow> string \<Rightarrow> unit result \<times> bool" where
  "Headroom_Check st h p =
     (case FreeBytes st p of
        Inl e \<Rightarrow> (Fail e, False)
      | Inr free \<Rightarrow>
          if free < MinFree h
          then (Fail (Wrapf ''%w: need free bytes on %s'' [p] (Sentinel ErrLowSpace)), False)
          else (Ok (), free < WarnFree h))"

section \<open>Facts\<close>

lemma FreeBytes_no_wrap:
  assumes "st p = Inr (a, b)" "unat a * unat b < 2 ^ 64"
  shows "\<exists>f. FreeBytes st p = Inr f \<and> unat f = unat a * unat b"
  using assms by (simp add: FreeBytes_def unat_word_ariths)

text \<open>
  C31. The headroom check accepts exactly when the free bytes reach the minimum, and the warning is
  logged exactly when an accepted push leaves less than the warning level; below the minimum the
  error is \<open>ErrLowSpace\<close>. This is about the real free space, as long as the number of free bytes
  fits 64 bits.
\<close>

theorem Headroom_Check_spec:
  assumes "st p = Inr (a, b)" "unat a * unat b < 2 ^ 64"
  shows "(fst (Headroom_Check st h p) = Inr () \<longleftrightarrow> unat (MinFree h) \<le> unat a * unat b)
    \<and> (snd (Headroom_Check st h p) \<longleftrightarrow>
         unat (MinFree h) \<le> unat a * unat b \<and> unat a * unat b < unat (WarnFree h))
    \<and> (\<forall>e. fst (Headroom_Check st h p) = Inl e \<longrightarrow> errors_Is e ErrLowSpace)"
proof -
  from FreeBytes_no_wrap [where st = st and p = p, OF assms] obtain f where f: "FreeBytes st p = Inr f" "unat f = unat a * unat b"
    by blast
  then show ?thesis by (auto simp: Headroom_Check_def word_less_nat_alt)
qed

text \<open>A full disk (no available block) is refused under the default minimum of 512 MiB.\<close>

theorem Headroom_Check_spec_witness:
  "(\<lambda>_. Inr (0, 4096)) ''/srv/git'' = (Inr (0, 4096) :: (u64 \<times> u64) result)
   \<and> unat (0 :: u64) * unat (4096 :: u64) < 2 ^ 64
   \<and> fst (Headroom_Check (\<lambda>_. Inr (0, 4096)) \<lparr>MinFree = 536870912, WarnFree = 1073741824\<rparr> ''/srv/git'') \<noteq> Inr ()"
proof -
  let ?h = "\<lparr>MinFree = 536870912, WarnFree = 1073741824\<rparr>"
  have "fst (Headroom_Check (\<lambda>_. Inr (0, 4096)) ?h ''/srv/git'') = Inr () \<longleftrightarrow>
      unat (MinFree ?h) \<le> unat (0 :: u64) * unat (4096 :: u64)"
    using Headroom_Check_spec [of "\<lambda>_. Inr (0, 4096)" "''/srv/git''" 0 4096 ?h] by simp
  then show ?thesis by simp
qed

end
