(* ===== verification/Hooks.thy ===== *)
theory Hooks
  imports Repo Webhook Socket Disk Objectstore
begin

text \<open>
  The git hooks: the two shims of \<open>internal/hookshim/hookshim.go\<close>, and the verbs they start, \<open>pre-receive\<close> and
  \<open>notify\<close> (\<open>internal/cli/pre_receive.go\<close>, \<open>internal/cli/notify.go\<close>, with the flags and paths of
  \<open>internal/cli/common.go\<close>). What the process gets from outside is a record: the search path of its
  environment, its standard input with the error reading it ends with, the programs it starts, the
  transport to the control socket, the object store of a bucket, HTTP, \<open>statfs\<close> and the YAML decoders.
\<close>

section \<open>The process and its flags\<close>

record Host =
  env_Path :: string
  host_stdin :: "bytes \<times> gerror option"
  host_git :: git_prog
  host_statfs :: statfs
  host_sock :: "HttpRequest \<Rightarrow> HttpResponse result io"
  host_store :: "string \<Rightarrow> string \<Rightarrow> ObjectStore result"
  host_Get :: "string \<Rightarrow> HttpResponse result io"
  host_environ :: "string list"
  yaml_gitd :: "GitdConfig yaml_decoder"
  yaml_webhooks :: "WebhooksConfig yaml_decoder"

abbreviation cli_reposRoot :: string where "cli_reposRoot \<equiv> ''/srv/git''"
abbreviation cli_spoolDir :: string where "cli_spoolDir \<equiv> ''/var/spool/gitd''"
abbreviation cli_hooksDir :: string where "cli_hooksDir \<equiv> ''/usr/local/lib/gitd/hooks''"
abbreviation cli_gitHome :: string where "cli_gitHome \<equiv> ''/var/spool/gitd''"
abbreviation cli_defaultConfig :: string where "cli_defaultConfig \<equiv> ''/etc/gitd/gitd.yaml''"
abbreviation cli_socketPath :: string where "cli_socketPath \<equiv> ''/var/spool/gitd/gitd.sock''"

definition socket_client :: "Host \<Rightarrow> Client" where
  "socket_client h = \<lparr>sock_path = cli_socketPath, sock_Do = host_sock h\<rparr>"

definition runner_for :: "Host \<Rightarrow> GitdConfig \<Rightarrow> Runner" where
  "runner_for h gitd = WithObjectFormat (NewRunner (env_Path h) (GitBinary gitd) cli_gitHome (env_Path h)) (ObjectFormat gitd)"

definition os_Getwd :: "string result io" where
  "os_Getwd = syscall ''getwd'' [] (do { c \<leftarrow> gets cwd; return (Ok c) })"

text \<open>
  The standard \<open>flag\<close> package: \<open>Parse\<close> takes flags from the front, up to the first argument that is none
  or past \<open>--\<close>. The values are kept by name, a boolean as \<open>true\<close> or \<open>false\<close>.
\<close>

datatype flag_kind = StringFlag | BoolFlag

type_synonym flag_values = "(string \<times> string) list"

definition flag_name :: "string \<Rightarrow> string option" where
  "flag_name s =
     (if length s < 2 \<or> hd s \<noteq> CHR ''-'' then None
      else Some (if s ! 1 = CHR ''-'' then drop 2 s else drop 1 s))"

definition flag_value :: "string \<Rightarrow> string \<times> string option" where
  "flag_value name =
     (case cut_at (CHR ''='') (tl name) of None \<Rightarrow> (name, None) | Some (n, v) \<Rightarrow> (hd name # n, Some v))"

definition parse_bool :: "string \<Rightarrow> string option" where
  "parse_bool v =
     (if v \<in> set [''1'', ''t'', ''T'', ''true'', ''TRUE'', ''True''] then Some ''true''
      else if v \<in> set [''0'', ''f'', ''F'', ''false'', ''FALSE'', ''False''] then Some ''false''
      else None)"

fun flag_Parse :: "(string \<times> flag_kind) list \<Rightarrow> flag_values \<Rightarrow> string list \<Rightarrow> (flag_values \<times> string list) result" where
  "flag_Parse formal vals [] = Ok (vals, [])"
| "flag_Parse formal vals (s # args) =
     (case flag_name s of
        None \<Rightarrow> Ok (vals, s # args)
      | Some name0 \<Rightarrow>
          if s = ''--'' then Ok (vals, args)
          else if name0 = [] \<or> hd name0 = CHR ''-'' \<or> hd name0 = CHR ''='' then Fail (Errf ''bad flag syntax: %s'' [s])
          else (case flag_value name0 of (name, v) \<Rightarrow>
            (case map_of formal name of
               None \<Rightarrow>
                 if name = ''help'' \<or> name = ''h'' then Fail (Sentinel ''flag: help requested'')
                 else Fail (Errf ''flag provided but not defined: -%s'' [name])
             | Some BoolFlag \<Rightarrow>
                 (case v of
                    None \<Rightarrow> flag_Parse formal (AList.update name ''true'' vals) args
                  | Some x \<Rightarrow>
                      (case parse_bool x of
                         None \<Rightarrow> Fail (Errf ''invalid boolean value %q for -%s: parse error'' [x, name])
                       | Some b \<Rightarrow> flag_Parse formal (AList.update name b vals) args))
             | Some StringFlag \<Rightarrow>
                 (case v of
                    Some x \<Rightarrow> flag_Parse formal (AList.update name x vals) args
                  | None \<Rightarrow>
                      (case args of
                         [] \<Rightarrow> Fail (Errf ''flag needs an argument: -%s'' [name])
                       | x # rest \<Rightarrow> flag_Parse formal (AList.update name x vals) rest)))))"

definition errUsage :: "string \<Rightarrow> string list \<Rightarrow> gerror" where
  "errUsage f args = UsageError f args"

definition the_value :: "flag_values \<Rightarrow> string \<Rightarrow> string" where
  "the_value vals name = (case map_of vals name of None \<Rightarrow> [] | Some v \<Rightarrow> v)"

definition parseConfigFlag :: "string list \<Rightarrow> (string \<times> string list) result" where
  "parseConfigFlag args =
     (case flag_Parse [(''config'', StringFlag)] [(''config'', cli_defaultConfig)] args of
        Inl e \<Rightarrow> Fail (errUsage ''bad flags: %v'' [err_text e])
      | Inr (vals, rest) \<Rightarrow> Ok (the_value vals ''config'', rest))"

definition webhooksPathFor :: "string \<Rightarrow> string" where
  "webhooksPathFor gitd_file = Join [Dir gitd_file, ''webhooks.yaml'']"

section \<open>Reference lines\<close>

record refLine =
  rl_old :: string
  rl_new :: string
  rl_ref :: string
  rl_raw :: string

definition hex_char :: "char \<Rightarrow> bool" where
  "hex_char c \<longleftrightarrow> (CHR ''0'' \<le> c \<and> c \<le> CHR ''9'') \<or> (CHR ''a'' \<le> c \<and> c \<le> CHR ''f'') \<or> (CHR ''A'' \<le> c \<and> c \<le> CHR ''F'')"

definition validSHA :: "string \<Rightarrow> bool" where
  "validSHA s \<longleftrightarrow> (length s = 40 \<or> length s = 64) \<and> list_all hex_char s"

definition isZeroSHA :: "string \<Rightarrow> bool" where
  "isZeroSHA s \<longleftrightarrow> (length s = 40 \<or> length s = 64) \<and> list_all (\<lambda>c. c = CHR ''0'') s"

text \<open>The test both hooks make on a line that is not blank.\<close>

definition ref_fields :: "string \<Rightarrow> refLine option" where
  "ref_fields line =
     (case Fields line of
        [f0, f1, f2] \<Rightarrow>
          if validSHA f0 \<and> validSHA f1 \<and> HasPrefix f2 ''refs/''
          then Some \<lparr>rl_old = f0, rl_new = f1, rl_ref = f2, rl_raw = line\<rparr>
          else None
      | _ \<Rightarrow> None)"

text \<open>\<open>parseRefLines\<close> skips a malformed line, and does not look at the error of the scanner.\<close>

fun lenient_lines :: "string list \<Rightarrow> refLine list" where
  "lenient_lines [] = []"
| "lenient_lines (l # ls) =
     (let line = TrimSpace l in
      if line = [] then lenient_lines ls
      else case ref_fields line of None \<Rightarrow> lenient_lines ls | Some r \<Rightarrow> r # lenient_lines ls)"

definition parseRefLines :: "bytes \<times> gerror option \<Rightarrow> refLine list" where
  "parseRefLines input = lenient_lines (fst (scan_read (fst input) (snd input)))"

text \<open>\<open>parseStrict\<close> rejects the push at the first malformed line, and when the scanner ends with an error.\<close>

fun strict_lines :: "string list \<Rightarrow> refLine list result" where
  "strict_lines [] = Ok []"
| "strict_lines (l # ls) =
     (let line = TrimSpace l in
      if line = [] then strict_lines ls
      else case ref_fields line of
        None \<Rightarrow> Fail (Errf ''push rejected: malformed pre-receive line %q'' [line])
      | Some r \<Rightarrow> (case strict_lines ls of Inl e \<Rightarrow> Fail e | Inr rs \<Rightarrow> Ok (r # rs)))"

definition parseStrict :: "bytes \<times> gerror option \<Rightarrow> refLine list result" where
  "parseStrict input =
     (case scan_read (fst input) (snd input) of (ls, err) \<Rightarrow>
        (case strict_lines ls of
           Inl e \<Rightarrow> Fail e
         | Inr lines \<Rightarrow>
             (case err of Some e \<Rightarrow> Fail (Wrapf ''pre-receive: read stdin: %w'' [] e) | None \<Rightarrow> Ok lines)))"

section \<open>The pre-receive hook\<close>

record PreReceive =
  pr_headroom :: Headroom
  pr_engine :: "Policy list option"

definition update_of :: "refLine \<Rightarrow> RefUpdate" where
  "update_of ln = \<lparr>Old = rl_old ln, New = rl_new ln, upd_Ref = rl_ref ln\<rparr>"

definition PreReceive_Run :: "statfs \<Rightarrow> PreReceive \<Rightarrow> string \<Rightarrow> bytes \<times> gerror option \<Rightarrow> unit result io" where
  "PreReceive_Run st p dir input =
     (case parseStrict input of
        Inl e \<Rightarrow> return (Fail e)
      | Inr lines \<Rightarrow>
          (case fst (Headroom_Check st (pr_headroom p) dir) of
             Inl e \<Rightarrow> return (Fail (Wrapf ''push rejected: %w'' [] e))
           | Inr _ \<Rightarrow>
               (case pr_engine p of
                  None \<Rightarrow> return (Ok ())
                | Some engine \<Rightarrow> do {
                    r \<leftarrow> PolicyEngine_Evaluate engine (map update_of lines);
                    return (case r of Some e \<Rightarrow> Fail (Wrapf ''push rejected: %w'' [] e) | None \<Rightarrow> Ok ()) })))"

text \<open>The registry of the process: the registrations of \<open>init\<close> do not clash.\<close>

definition policy_registry :: "Host \<Rightarrow> (string \<times> PolicyConstructor) list" where
  "policy_registry h = (case DefaultPolicies (host_git h) of None \<Rightarrow> [] | Some r \<Rightarrow> r)"

definition runPreReceive :: "Host \<Rightarrow> string list \<Rightarrow> unit result io" where
  "runPreReceive h args =
     (case parseConfigFlag args of
        Inl e \<Rightarrow> return (Fail e)
      | Inr (cfg, rest) \<Rightarrow>
          if rest \<noteq> [] then return (Fail (errUsage ''pre-receive takes no arguments'' []))
          else do {
            rg \<leftarrow> LoadGitd (yaml_gitd h) cfg;
            case rg of
              Inl e \<Rightarrow> return (Fail e)
            | Inr gitd \<Rightarrow>
                (case NewLogger gitd of
                   Inl e \<Rightarrow> return (Fail e)
                 | Inr log \<Rightarrow> do {
                     rd \<leftarrow> os_Getwd;
                     case rd of
                       Inl e \<Rightarrow> return (Fail (Wrapf ''pre-receive: getwd: %w'' [] e))
                     | Inr dir \<Rightarrow>
                         (case PolicyEngine_Build (policy_registry h) \<lparr>pd_Git = runner_for h gitd, pd_RepoDir = dir\<rparr> (Policies gitd) of
                            Inl e \<Rightarrow> return (Fail e)
                          | Inr engine \<Rightarrow>
                              PreReceive_Run (host_statfs h)
                                \<lparr>pr_headroom = \<lparr>MinFree = of_nat (DiskMinFreeBytes gitd), WarnFree = 1073741824\<rparr>, pr_engine = Some engine\<rparr>
                                dir (host_stdin h)) }) })"

section \<open>The notification\<close>

record Notifier =
  nt_webhooks :: "PluginConfig list"
  nt_reposRoot :: string
  nt_git :: Runner
  nt_spool :: Store
  nt_client :: Client

definition newNotifier :: "Host \<Rightarrow> string \<Rightarrow> Notifier result io" where
  "newNotifier h gitd_file = do {
     rg \<leftarrow> LoadGitd (yaml_gitd h) gitd_file;
     case rg of
       Inl e \<Rightarrow> return (Fail e)
     | Inr gitd \<Rightarrow>
         (case NewLogger gitd of
            Inl e \<Rightarrow> return (Fail e)
          | Inr log \<Rightarrow> do {
              rw \<leftarrow> LoadWebhooks (yaml_webhooks h) (webhooksPathFor gitd_file);
              return (case rw of
                 Inl e \<Rightarrow> Fail e
               | Inr webhooks \<Rightarrow> Ok
                   \<lparr>nt_webhooks = Plugins webhooks, nt_reposRoot = cli_reposRoot, nt_git = runner_for h gitd,
                    nt_spool = NewStore cli_spoolDir (Retention (cfg_Spool gitd)), nt_client = socket_client h\<rparr>) })
   }"

definition revListMax :: nat where "revListMax = 51"

text \<open>The loop over the lines of \<open>rev-list\<close>, with the commits so far; an empty slice stays nil.\<close>

fun summary_lines :: "string list \<Rightarrow> Commit list \<Rightarrow> Commit list result" where
  "summary_lines [] commits = Ok commits"
| "summary_lines (line # ls) commits =
     (if line = [] \<or> HasPrefix line ''commit '' then summary_lines ls commits
      else case split_on nul_char line of
        [sha, subject, author] \<Rightarrow> summary_lines ls (commits @ [\<lparr>SHA = sha, Subject = subject, Author = author\<rparr>])
      | _ \<Rightarrow> Fail (Errf ''unexpected rev-list line %q'' [line]))"

definition commitSummaries :: "git_prog \<Rightarrow> Runner \<Rightarrow> string \<Rightarrow> string \<Rightarrow> string \<Rightarrow> Commit list option result io" where
  "commitSummaries git r repoDir oldSHA newSHA =
     (if isZeroSHA newSHA then return (Ok None)
      else let arg = (if isZeroSHA oldSHA then newSHA else oldSHA @ ''..'' @ newSHA) in do {
        ro \<leftarrow> RunIn git r repoDir [''rev-list'', ''--max-count='' @ show_nat revListMax, ''--format=%H%x00%s%x00%an <%ae>'', arg];
        return (case ro of
           Inl e \<Rightarrow> Fail e
         | Inr output \<Rightarrow>
             (case summary_lines (split_on newline_char output) [] of
                Inl e \<Rightarrow> Fail e
              | Inr commits \<Rightarrow> Ok (if commits = [] then None else Some commits)))
      })"

definition event_type :: "refLine \<Rightarrow> string" where
  "event_type ln =
     (if isZeroSHA (rl_old ln) \<and> \<not> isZeroSHA (rl_new ln) then TypeRefCreated
      else if \<not> isZeroSHA (rl_old ln) \<and> isZeroSHA (rl_new ln) then TypeRefDeleted
      else TypePush)"

definition buildEvent :: "git_prog \<Rightarrow> Notifier \<Rightarrow> time \<Rightarrow> string \<Rightarrow> string \<Rightarrow> refLine \<Rightarrow> Event result io" where
  "buildEvent git n now repoDir repoName ln = do {
     rc \<leftarrow> commitSummaries git (nt_git n) repoDir (rl_old ln) (rl_new ln);
     return (case rc of
        Inl e \<Rightarrow> Fail (Wrapf ''rev-list: %w'' [] e)
      | Inr commits \<Rightarrow> Ok
          \<lparr>ev_SchemaVersion = SchemaVersion, EventID = [], CreatedAt = format_RFC3339 (time_UTC now), ev_Repo = repoName,
           Ref = rl_ref ln, ev_Type = event_type ln, Commits = commits\<rparr>)
   }"

text \<open>The loop over the reference lines, with the identifiers spooled so far and one reading of the clock per line.\<close>

fun spool_lines :: "git_prog \<Rightarrow> Notifier \<Rightarrow> (nat \<Rightarrow> time) \<Rightarrow> string \<Rightarrow> string \<Rightarrow> refLine list \<Rightarrow> string list \<Rightarrow> string list result io" where
  "spool_lines git n clock repoDir repoName [] ids = return (Ok ids)"
| "spool_lines git n clock repoDir repoName (ln # lns) ids = do {
     re \<leftarrow> buildEvent git n (clock (length lns)) repoDir repoName ln;
     case re of
       Inl e \<Rightarrow> spool_lines git n clock repoDir repoName lns ids
     | Inr ev \<Rightarrow> do {
         rw \<leftarrow> Write (nt_spool n) ev;
         case fst rw of
           Inl e \<Rightarrow> return (Fail (Wrapf ''notify: spool write: %w'' [] e))
         | Inr eid \<Rightarrow> spool_lines git n clock repoDir repoName lns (ids @ [eid]) }
   }"

fun deliver_events :: "Client \<Rightarrow> string \<Rightarrow> string list \<Rightarrow> unit result io" where
  "deliver_events c pid [] = return (Ok ())"
| "deliver_events c pid (eid # ids) = do {
     r \<leftarrow> Client_Deliver c pid eid;
     case r of
       Inl e \<Rightarrow> return (Fail (Wrapf ''notify: sync delivery plugin %s event %s: %w'' [pid, eid] e))
     | Inr _ \<Rightarrow> deliver_events c pid ids
   }"

fun sync_deliveries :: "Client \<Rightarrow> string list \<Rightarrow> PluginConfig list \<Rightarrow> unit result io" where
  "sync_deliveries c ids [] = return (Ok ())"
| "sync_deliveries c ids (p # ps) =
     (if \<not> Sync p then sync_deliveries c ids ps
      else do {
        r \<leftarrow> deliver_events c (plugin_ID p) ids;
        case r of Inl e \<Rightarrow> return (Fail e) | Inr _ \<Rightarrow> sync_deliveries c ids ps })"

definition Notify :: "git_prog \<Rightarrow> Notifier \<Rightarrow> (nat \<Rightarrow> time) \<Rightarrow> string \<Rightarrow> bytes \<times> gerror option \<Rightarrow> unit result io" where
  "Notify git n clock dir input = do {
     rr \<leftarrow> RealpathUnder (nt_reposRoot n) dir;
     case rr of
       Inl e \<Rightarrow> return (Fail (Wrapf ''notify: cwd %s: %w'' [dir] e))
     | Inr resolved \<Rightarrow> do {
         rb \<leftarrow> IsBareRepo resolved;
         case rb of
           Inl e \<Rightarrow> return (Fail (Wrapf ''notify: %w'' [] e))
         | Inr bare \<Rightarrow>
             if \<not> bare then return (Fail (Errf ''notify: %s is not a bare repository'' [resolved]))
             else let name = Normalize (Base resolved) in
               if \<not> ValidName name then return (Fail (Errf ''notify: invalid repo name %q'' [name]))
               else do {
                 rs \<leftarrow> spool_lines git n clock resolved name (parseRefLines input) [];
                 case rs of
                   Inl e \<Rightarrow> return (Fail e)
                 | Inr ids \<Rightarrow> do {
                     rc \<leftarrow> Client_Bundle (nt_client n) name;
                     case rc of
                       Inl e \<Rightarrow> return (Fail (Wrapf ''notify: bundle upload: %w'' [] e))
                     | Inr _ \<Rightarrow> sync_deliveries (nt_client n) ids (nt_webhooks n) } } }
   }"

definition runNotify :: "Host \<Rightarrow> (nat \<Rightarrow> time) \<Rightarrow> string list \<Rightarrow> unit result io" where
  "runNotify h clock args =
     (case parseConfigFlag args of
        Inl e \<Rightarrow> return (Fail e)
      | Inr (cfg, rest) \<Rightarrow>
          if rest \<noteq> [] then return (Fail (errUsage ''notify takes no arguments'' []))
          else do {
            rn \<leftarrow> newNotifier h cfg;
            case rn of
              Inl e \<Rightarrow> return (Fail e)
            | Inr n \<Rightarrow> do {
                rd \<leftarrow> os_Getwd;
                case rd of
                  Inl e \<Rightarrow> return (Fail (Wrapf ''notify: getwd: %w'' [] e))
                | Inr dir \<Rightarrow> Notify (host_git h) n clock dir (host_stdin h) } })"

section \<open>The shims\<close>

definition subcommandFor :: "string \<Rightarrow> string result" where
  "subcommandFor bin =
     (if Base bin = ''pre-receive'' then Ok ''pre-receive''
      else if Base bin = ''post-receive'' then Ok ''notify''
      else Fail (Errf ''hookshim: unknown hook binary %q'' [bin]))"

text \<open>The shim starts \<open>gitd\<close>, the program \<open>prog\<close>, with the environment it has itself, and passes on its exit code.\<close>

definition Shim_Run :: "git_prog \<Rightarrow> string list \<Rightarrow> string list \<Rightarrow> int io" where
  "Shim_Run prog environ argv =
     (case argv of
        [] \<Rightarrow> return 1
      | bin # _ \<Rightarrow>
          (case subcommandFor bin of
             Inl e \<Rightarrow> return 1
           | Inr sub \<Rightarrow> do {
               rep \<leftarrow> exec_cmd prog \<lparr>cmd_prog = ''/usr/local/bin/gitd'', cmd_args = [sub, ''--config'', cli_defaultConfig],
                 cmd_env = environ, cmd_dir = []\<rparr>;
               return (case cmd_error rep of None \<Rightarrow> 0 | Some (ExitError n) \<Rightarrow> n | Some e \<Rightarrow> 1) }))"

end
