(* ===== verification/Go_Template.thy ===== *)
theory Go_Template
  imports Go_Errors
begin

text \<open>
  Go's \<open>html/template\<close>, as far as the pages of gitd use it: templates as trees, their execution on values
  (\<open>text/template\<close>), the contexts of the HTML text around an action, and the escapers that the package
  puts into an action according to its context. What lies outside this part of the package (unquoted
  attribute values, style sheets, values inside scripts or tag names) is refused by the analysis, so that a
  template that passes it uses nothing else. The theory ends with the two facts that make the package
  worth using: a template that fits the types of its data cannot fail, and the values
  printed by an analysed template cannot change its markup.
\<close>

section \<open>Letters\<close>

text \<open>\<open>strings.ToLower\<close>, for ASCII letters; other bytes are left alone.\<close>

definition lower_char :: "char \<Rightarrow> char" where
  "lower_char c = (if CHR ''A'' \<le> c \<and> c \<le> CHR ''Z'' then char_of (code c + 32) else c)"

definition ToLower :: "string \<Rightarrow> string" where
  "ToLower s = map lower_char s"

section \<open>Templates\<close>

text \<open>The values of Go that a template sees; \<open>VHtml\<close> is a string of type \<open>template.HTML\<close>.\<close>

datatype tvalue =
    VStr string
  | VHtml string
  | VInt int
  | VBool bool
  | VList "tvalue list"
  | VStruct "(string \<times> tvalue) list"

text \<open>\<open>.\<close>, \<open>.Name\<close>, \<open>$.Name\<close> and literals; a pipeline is an operand or a function call.\<close>

datatype operand = Dot | Field string | RootField string | StrLit string | IntLit int

datatype pipeline = Arg operand | Call string "operand list"

datatype escaper = HtmlEscaper | AttrEscaper | RcdataEscaper | UrlFilter | UrlNormalizer | UrlEscaper

text \<open>A parsed template; the escapers of an action are empty until the analysis fills them in.\<close>

datatype node =
    Skip
  | TextNode string
  | ActionNode pipeline "escaper list"
  | IfNode pipeline node node
  | RangeNode pipeline node
  | Seq node node

abbreviation block :: "node list \<Rightarrow> node" where
  "block ns \<equiv> foldr Seq ns Skip"

section \<open>Escapers\<close>

text \<open>\<open>htmlReplacer\<close> with \<open>htmlReplacementTable\<close>; all replaced characters are single bytes.\<close>

definition html_replacement :: "char \<Rightarrow> string" where
  "html_replacement c =
     (if c = nul_char then [CHR 0xEF, CHR 0xBF, CHR 0xBD]
      else if c = dquote_char then ''&#34;''
      else if c = CHR ''&'' then ''&amp;''
      else if c = quote_char then ''&#39;''
      else if c = CHR ''+'' then ''&#43;''
      else if c = CHR ''<'' then ''&lt;''
      else if c = CHR ''>'' then ''&gt;''
      else [c])"

definition htmlReplacer :: "string \<Rightarrow> string" where
  "htmlReplacer s = concat (map html_replacement s)"

definition url_unreserved :: "char \<Rightarrow> bool" where
  "url_unreserved c \<longleftrightarrow> (97 \<le> code c \<and> code c \<le> 122) \<or> (65 \<le> code c \<and> code c \<le> 90) \<or> is_digit c \<or> c \<in> set ''-._~''"

definition url_reserved :: "char \<Rightarrow> bool" where
  "url_reserved c \<longleftrightarrow> c \<in> set ''!#$&*+,/:;=?@[]''"

definition is_hex :: "char \<Rightarrow> bool" where
  "is_hex c \<longleftrightarrow> is_digit c \<or> (97 \<le> code c \<and> code c \<le> 102) \<or> (65 \<le> code c \<and> code c \<le> 70)"

definition percent :: "char \<Rightarrow> string" where
  "percent c = [CHR ''%'', hex_digit (code c div 16), hex_digit (code c mod 16)]"

fun hex_pair :: "string \<Rightarrow> bool" where
  "hex_pair (a # b # _) = (is_hex a \<and> is_hex b)"
| "hex_pair _ = False"

fun processURLOnto :: "bool \<Rightarrow> string \<Rightarrow> string" where
  "processURLOnto norm [] = []"
| "processURLOnto norm (c # s) =
     (if url_unreserved c \<or> norm \<and> (url_reserved c \<or> c = CHR ''%'' \<and> hex_pair s) then [c] else percent c) @ processURLOnto norm s"

definition isSafeURL :: "string \<Rightarrow> bool" where
  "isSafeURL s =
     (case cut_at (CHR '':'') s of
        None \<Rightarrow> True
      | Some (protocol, _) \<Rightarrow> CHR ''/'' \<in> set protocol \<or> ToLower protocol \<in> {''http'', ''https'', ''mailto''})"

definition apply_escaper :: "escaper \<Rightarrow> string \<Rightarrow> string" where
  "apply_escaper e s =
     (case e of
        HtmlEscaper \<Rightarrow> htmlReplacer s
      | AttrEscaper \<Rightarrow> htmlReplacer s
      | RcdataEscaper \<Rightarrow> htmlReplacer s
      | UrlFilter \<Rightarrow> if isSafeURL s then s else ''#ZgotmplZ''
      | UrlNormalizer \<Rightarrow> processURLOnto True s
      | UrlEscaper \<Rightarrow> processURLOnto False s)"

section \<open>Execution\<close>

type_synonym func_map = "string \<Rightarrow> tvalue list \<Rightarrow> tvalue option"

abbreviation exec_error :: "string \<Rightarrow> 'a result" where
  "exec_error what \<equiv> Fail (Errf ''template: %s'' [what])"

fun field_of :: "tvalue \<Rightarrow> string \<Rightarrow> tvalue result" where
  "field_of (VStruct fs) f = (case map_of fs f of None \<Rightarrow> exec_error f | Some v \<Rightarrow> Ok v)"
| "field_of _ f = exec_error f"

fun eval_operand :: "tvalue \<Rightarrow> tvalue \<Rightarrow> operand \<Rightarrow> tvalue result" where
  "eval_operand root dot Dot = Ok dot"
| "eval_operand root dot (Field f) = field_of dot f"
| "eval_operand root dot (RootField f) = field_of root f"
| "eval_operand root dot (StrLit s) = Ok (VStr s)"
| "eval_operand root dot (IntLit i) = Ok (VInt i)"

text \<open>The truth of a value in a condition: an empty value is false.\<close>

fun truth :: "tvalue \<Rightarrow> bool" where
  "truth (VStr s) = (s \<noteq> [])"
| "truth (VHtml s) = (s \<noteq> [])"
| "truth (VInt i) = (i \<noteq> 0)"
| "truth (VBool b) = b"
| "truth (VList vs) = (vs \<noteq> [])"
| "truth (VStruct fs) = True"

text \<open>The predefined functions \<open>eq\<close> (on strings) and \<open>not\<close>.\<close>

fun builtin :: "string \<Rightarrow> tvalue list \<Rightarrow> tvalue option" where
  "builtin f [VStr a, VStr b] = (if f = ''eq'' then Some (VBool (a = b)) else None)"
| "builtin f [v] = (if f = ''not'' then Some (VBool (\<not> truth v)) else None)"
| "builtin f vs = None"

definition call :: "func_map \<Rightarrow> string \<Rightarrow> tvalue list \<Rightarrow> tvalue result" where
  "call fs f vs =
     (case (if f = ''eq'' \<or> f = ''not'' then builtin f vs else fs f vs) of None \<Rightarrow> exec_error f | Some v \<Rightarrow> Ok v)"

fun eval_args :: "tvalue \<Rightarrow> tvalue \<Rightarrow> operand list \<Rightarrow> tvalue list result" where
  "eval_args root dot [] = Ok []"
| "eval_args root dot (x # xs) =
     (case eval_operand root dot x of
        Inl e \<Rightarrow> Fail e
      | Inr v \<Rightarrow> (case eval_args root dot xs of Inl e \<Rightarrow> Fail e | Inr vs \<Rightarrow> Ok (v # vs)))"

fun eval :: "func_map \<Rightarrow> tvalue \<Rightarrow> tvalue \<Rightarrow> pipeline \<Rightarrow> tvalue result" where
  "eval fs root dot (Arg x) = eval_operand root dot x"
| "eval fs root dot (Call f xs) = (case eval_args root dot xs of Inl e \<Rightarrow> Fail e | Inr vs \<Rightarrow> call fs f vs)"

text \<open>
  What an execution writes, piece by piece: text of the template, an escaped value, or a value of type
  \<open>template.HTML\<close>, which the HTML escaper passes unchanged. (Such a value in an attribute has its tags
  stripped by the package; no template here does that, and it is refused.)
\<close>

datatype piece = Lit string | Val string | Raw string

fun piece_text :: "piece \<Rightarrow> string" where
  "piece_text (Lit s) = s"
| "piece_text (Val s) = s"
| "piece_text (Raw s) = s"

definition text_of :: "piece list \<Rightarrow> string" where
  "text_of ps = concat (map piece_text ps)"

fun print_value :: "escaper list \<Rightarrow> tvalue \<Rightarrow> piece list result" where
  "print_value es (VStr s) = Ok [Val (fold apply_escaper es s)]"
| "print_value es (VInt i) = Ok [Val (fold apply_escaper es (show_int i))]"
| "print_value es (VHtml s) = (if es = [] \<or> es = [HtmlEscaper] then Ok [Raw s] else exec_error s)"
| "print_value es v = exec_error []"

fun append_results :: "'a list result list \<Rightarrow> 'a list result" where
  "append_results [] = Ok []"
| "append_results (r # rs) =
     (case r of Inl e \<Rightarrow> Fail e | Inr xs \<Rightarrow> (case append_results rs of Inl e \<Rightarrow> Fail e | Inr ys \<Rightarrow> Ok (xs @ ys)))"

primrec exec :: "func_map \<Rightarrow> tvalue \<Rightarrow> node \<Rightarrow> tvalue \<Rightarrow> piece list result" where
  "exec fs root Skip dot = Ok []"
| "exec fs root (TextNode s) dot = Ok [Lit s]"
| "exec fs root (ActionNode p es) dot = (case eval fs root dot p of Inl e \<Rightarrow> Fail e | Inr v \<Rightarrow> print_value es v)"
| "exec fs root (IfNode p a b) dot =
     (case eval fs root dot p of Inl e \<Rightarrow> Fail e | Inr v \<Rightarrow> if truth v then exec fs root a dot else exec fs root b dot)"
| "exec fs root (RangeNode p a) dot =
     (case eval fs root dot p of
        Inl e \<Rightarrow> Fail e
      | Inr v \<Rightarrow> (case v of VList vs \<Rightarrow> append_results (map (exec fs root a) vs) | _ \<Rightarrow> exec_error ''range''))"
| "exec fs root (Seq a b) dot = append_results [exec fs root a dot, exec fs root b dot]"

section \<open>Contexts\<close>

text \<open>
  The state of the HTML scanner after a prefix of the text: in text, in a tag, in the name of an attribute,
  in a double-quoted value, in the raw text of a \<open>title\<close>, \<open>textarea\<close> or \<open>script\<close> element, in a comment. The
  first component of a tag name says whether it is an end tag. \<open>HError\<close> is everything else.
\<close>

datatype attr_kind = AttrPlain | AttrURL | AttrJS | AttrOther

datatype hstate =
    HText
  | HLess
  | HBang
  | HBangDash
  | HComment nat
  | HTagName bool string
  | HTag string
  | HAttrName string string
  | HBeforeValue string string
  | HValue string attr_kind
  | HRaw string
  | HRawLess string
  | HRawEnd string string
  | HError

definition is_space :: "char \<Rightarrow> bool" where
  "is_space c \<longleftrightarrow> c = CHR '' '' \<or> c = newline_char \<or> c = tab_char \<or> c = return_char \<or> c = CHR 0x0C"

definition is_alpha :: "char \<Rightarrow> bool" where
  "is_alpha c \<longleftrightarrow> (97 \<le> code c \<and> code c \<le> 122) \<or> (65 \<le> code c \<and> code c \<le> 90)"

text \<open>\<open>attrType\<close> for the attributes the pages use; a \<open>data-\<close> prefix is not looked at.\<close>

definition attrType :: "string \<Rightarrow> attr_kind" where
  "attrType name =
     (if name \<in> set [''class'', ''title'', ''value'', ''lang'', ''charset'', ''name'', ''content'', ''rel'', ''data-markdown'', ''data-lang''] then AttrPlain
      else if name = ''href'' \<or> name = ''src'' then AttrURL
      else if name = ''onchange'' then AttrJS
      else AttrOther)"

definition after_tag :: "string \<Rightarrow> hstate" where
  "after_tag e = (if e \<in> set [''title'', ''textarea'', ''script''] then HRaw e else if e = ''style'' then HError else HText)"

definition tag_element :: "bool \<Rightarrow> string \<Rightarrow> string" where
  "tag_element closing n = (if closing then [] else ToLower n)"

fun step :: "hstate \<Rightarrow> char \<Rightarrow> hstate" where
  "step HText c = (if c = CHR ''<'' then HLess else HText)"
| "step HLess c =
     (if c = CHR ''/'' then HTagName True [] else if is_alpha c then HTagName False [c] else if c = CHR ''!'' then HBang else HError)"
| "step HBang c = (if c = CHR ''-'' then HBangDash else HText)"
| "step HBangDash c = (if c = CHR ''-'' then HComment 0 else HError)"
| "step (HComment k) c = (if c = CHR ''-'' then HComment (min 2 (Suc k)) else if c = CHR ''>'' \<and> k = 2 then HText else HComment 0)"
| "step (HTagName closing n) c =
     (if is_alpha c \<or> n \<noteq> [] \<and> is_digit c then HTagName closing (n @ [c])
      else if n = [] then HError
      else if is_space c then HTag (tag_element closing n)
      else if c = CHR ''>'' then after_tag (tag_element closing n)
      else HError)"
| "step (HTag e) c =
     (if is_space c \<or> c = CHR ''/'' then HTag e else if c = CHR ''>'' then after_tag e else if is_alpha c then HAttrName e [c] else HError)"
| "step (HAttrName e n) c =
     (if is_alpha c \<or> c = CHR ''-'' then HAttrName e (n @ [c])
      else if c = CHR ''='' then HBeforeValue e n
      else if is_space c then HTag e
      else if c = CHR ''>'' then after_tag e
      else HError)"
| "step (HBeforeValue e n) c = (if c = dquote_char then HValue e (attrType (ToLower n)) else HError)"
| "step (HValue e k) c = (if c = dquote_char then HTag e else HValue e k)"
| "step (HRaw e) c = (if c = CHR ''<'' then HRawLess e else if e = ''script'' then HError else HRaw e)"
| "step (HRawLess e) c = (if c = CHR ''/'' then HRawEnd e [] else HError)"
| "step (HRawEnd e n) c =
     (if is_alpha c then HRawEnd e (n @ [lower_char c]) else if c = CHR ''>'' \<and> n = e then HText else HError)"
| "step HError c = HError"

definition scan :: "hstate \<Rightarrow> string \<Rightarrow> hstate" where
  "scan h s = foldl step h s"

text \<open>The markup of a text: its tags and the attributes in them, in order.\<close>

datatype event = Tag bool string | Attribute string string

fun emit :: "hstate \<Rightarrow> char \<Rightarrow> event list" where
  "emit (HTagName closing n) c = (if is_alpha c \<or> n \<noteq> [] \<and> is_digit c then [] else [Tag closing (ToLower n)])"
| "emit (HAttrName e n) c = (if is_alpha c \<or> c = CHR ''-'' then [] else [Attribute e (ToLower n)])"
| "emit (HRawEnd e n) c = (if is_alpha c then [] else [Tag True n])"
| "emit h c = []"

fun markup :: "hstate \<Rightarrow> string \<Rightarrow> event list" where
  "markup h [] = []"
| "markup h (c # s) = emit h c @ markup (step h c) s"

text \<open>The part of a URL that a value stands in, of which the package keeps track across the text.\<close>

datatype url_part = UrlNone | UrlPreQuery | UrlQueryOrFrag

type_synonym html_context = "hstate \<times> url_part"

fun context_step :: "html_context \<Rightarrow> char \<Rightarrow> html_context" where
  "context_step (h, u) c =
     (step h c,
      case h of
        HValue e AttrURL \<Rightarrow>
          if c = dquote_char then UrlNone
          else if c = CHR ''#'' \<or> c = CHR ''?'' then UrlQueryOrFrag
          else if u = UrlNone \<and> \<not> is_space c then UrlPreQuery
          else u
      | _ \<Rightarrow> UrlNone)"

fun escapers :: "html_context \<Rightarrow> escaper list option" where
  "escapers (HText, u) = Some [HtmlEscaper]"
| "escapers (HRaw e, u) = (if e = ''script'' then None else Some [RcdataEscaper])"
| "escapers (HValue e AttrPlain, u) = Some [AttrEscaper]"
| "escapers (HValue e AttrURL, UrlNone) = Some [UrlFilter, UrlNormalizer, AttrEscaper]"
| "escapers (HValue e AttrURL, UrlPreQuery) = Some [UrlNormalizer, AttrEscaper]"
| "escapers (HValue e AttrURL, UrlQueryOrFrag) = Some [UrlEscaper, AttrEscaper]"
| "escapers c = None"

text \<open>The analysis: both branches of a condition and the body of a loop must agree on the context.\<close>

primrec escape :: "node \<Rightarrow> html_context \<Rightarrow> (node \<times> html_context) option" where
  "escape Skip c = Some (Skip, c)"
| "escape (TextNode s) c = (let c' = foldl context_step c s in if fst c' = HError then None else Some (TextNode s, c'))"
| "escape (ActionNode p es) c = map_option (\<lambda>es'. (ActionNode p es', c)) (escapers c)"
| "escape (IfNode p a b) c =
     (case (escape a c, escape b c) of
        (Some (a', c1), Some (b', c2)) \<Rightarrow> if c1 = c2 then Some (IfNode p a' b', c1) else None
      | _ \<Rightarrow> None)"
| "escape (RangeNode p a) c =
     (case escape a c of Some (a', c1) \<Rightarrow> if c1 = c then Some (RangeNode p a', c) else None | None \<Rightarrow> None)"
| "escape (Seq a b) c =
     (case escape a c of
        None \<Rightarrow> None
      | Some (a', c1) \<Rightarrow> map_option (\<lambda>(b', c2). (Seq a' b', c2)) (escape b c1))"

text \<open>\<open>Execute\<close>: the analysis comes first, and a template that it refuses fails.\<close>

definition Execute :: "func_map \<Rightarrow> node \<Rightarrow> tvalue \<Rightarrow> piece list result" where
  "Execute fs n v =
     (case escape n (HText, UrlNone) of
        Some (n', (HText, _)) \<Rightarrow> exec fs v n' v
      | _ \<Rightarrow> exec_error ''ambiguous context'')"

section \<open>A template that fits its data cannot fail\<close>

text \<open>The types of Go's data as a template sees them, and what it is for a template to respect them.\<close>

datatype ty = TStr | THtml | TInt | TBool | TList ty | TStruct "(string \<times> ty) list"

primrec has_type :: "ty \<Rightarrow> tvalue \<Rightarrow> bool" where
  "has_type TStr v = (case v of VStr _ \<Rightarrow> True | _ \<Rightarrow> False)"
| "has_type THtml v = (case v of VHtml _ \<Rightarrow> True | _ \<Rightarrow> False)"
| "has_type TInt v = (case v of VInt _ \<Rightarrow> True | _ \<Rightarrow> False)"
| "has_type TBool v = (case v of VBool _ \<Rightarrow> True | _ \<Rightarrow> False)"
| "has_type (TList t) v = (case v of VList vs \<Rightarrow> list_all (has_type t) vs | _ \<Rightarrow> False)"
| "has_type (TStruct ts) v =
     (case v of
        VStruct fs \<Rightarrow> list_all (\<lambda>(n, p). case map_of fs n of None \<Rightarrow> False | Some w \<Rightarrow> p w) (map (map_prod id has_type) ts)
      | _ \<Rightarrow> False)"

fun field_type :: "ty \<Rightarrow> string \<Rightarrow> ty option" where
  "field_type (TStruct ts) f = map_of ts f"
| "field_type _ f = None"

fun operand_type :: "ty \<Rightarrow> ty \<Rightarrow> operand \<Rightarrow> ty option" where
  "operand_type R D Dot = Some D"
| "operand_type R D (Field f) = field_type D f"
| "operand_type R D (RootField f) = field_type R f"
| "operand_type R D (StrLit s) = Some TStr"
| "operand_type R D (IntLit i) = Some TInt"

fun operand_types :: "ty \<Rightarrow> ty \<Rightarrow> operand list \<Rightarrow> ty list option" where
  "operand_types R D [] = Some []"
| "operand_types R D (x # xs) =
     (case (operand_type R D x, operand_types R D xs) of (Some t, Some ts) \<Rightarrow> Some (t # ts) | _ \<Rightarrow> None)"

type_synonym signature = "string \<Rightarrow> ty list \<Rightarrow> ty option"

definition call_type :: "signature \<Rightarrow> signature" where
  "call_type sig f ts =
     (if f = ''eq'' then (if ts = [TStr, TStr] then Some TBool else None)
      else if f = ''not'' then (if length ts = 1 then Some TBool else None)
      else sig f ts)"

fun pipeline_type :: "signature \<Rightarrow> ty \<Rightarrow> ty \<Rightarrow> pipeline \<Rightarrow> ty option" where
  "pipeline_type sig R D (Arg x) = operand_type R D x"
| "pipeline_type sig R D (Call f xs) = Option.bind (operand_types R D xs) (call_type sig f)"

primrec well_typed :: "signature \<Rightarrow> ty \<Rightarrow> node \<Rightarrow> ty \<Rightarrow> bool" where
  "well_typed sig R Skip D = True"
| "well_typed sig R (TextNode s) D = True"
| "well_typed sig R (ActionNode p es) D =
     (case pipeline_type sig R D p of
        Some TStr \<Rightarrow> True
      | Some TInt \<Rightarrow> True
      | Some THtml \<Rightarrow> es = [HtmlEscaper]
      | _ \<Rightarrow> False)"
| "well_typed sig R (IfNode p a b) D = (pipeline_type sig R D p \<noteq> None \<and> well_typed sig R a D \<and> well_typed sig R b D)"
| "well_typed sig R (RangeNode p a) D = (case pipeline_type sig R D p of Some (TList t) \<Rightarrow> well_typed sig R a t | _ \<Rightarrow> False)"
| "well_typed sig R (Seq a b) D = (well_typed sig R a D \<and> well_typed sig R b D)"

lemma has_type_iff:
  "has_type TStr v \<longleftrightarrow> (\<exists>s. v = VStr s)"
  "has_type THtml v \<longleftrightarrow> (\<exists>s. v = VHtml s)"
  "has_type TInt v \<longleftrightarrow> (\<exists>i. v = VInt i)"
  "has_type TBool v \<longleftrightarrow> (\<exists>b. v = VBool b)"
  "has_type (TList t) v \<longleftrightarrow> (\<exists>vs. v = VList vs \<and> list_all (has_type t) vs)"
  by (cases v; simp)+

declare has_type.simps(1-5) [simp del] has_type_iff [simp]

lemma field_typed: "field_type D f = Some t \<Longrightarrow> has_type D v \<Longrightarrow> \<exists>w. field_of v f = Ok w \<and> has_type t w"
proof (cases D; cases v)
  fix ts fs
  assume "D = TStruct ts" "v = VStruct fs" and f: "field_type D f = Some t" and "has_type D v"
  moreover from this have "(f, t) \<in> set ts" by (simp add: map_of_SomeD)
  ultimately show ?thesis by (force simp: list_all_iff split: option.splits)
qed (simp_all del: has_type_iff add: has_type.simps)

lemma operand_typed:
  "operand_type R D x = Some t \<Longrightarrow> has_type R root \<Longrightarrow> has_type D dot \<Longrightarrow> \<exists>w. eval_operand root dot x = Ok w \<and> has_type t w"
  by (cases x) (auto dest: field_typed)

lemma operands_typed:
  "operand_types R D xs = Some ts \<Longrightarrow> has_type R root \<Longrightarrow> has_type D dot \<Longrightarrow> \<exists>ws. eval_args root dot xs = Ok ws \<and> list_all2 has_type ts ws"
proof (induction xs arbitrary: ts)
  case Nil
  then show ?case by simp
next
  case (Cons x xs)
  from Cons.prems(1) obtain t us where t: "operand_type R D x = Some t" "operand_types R D xs = Some us" "ts = t # us"
    by (auto split: option.splits)
  from operand_typed [OF t(1) Cons.prems(2,3)] Cons.IH [OF t(2) Cons.prems(2,3)] t(3) show ?case by auto
qed

text \<open>The interface of a function map: its functions are total on the argument types they declare.\<close>

locale template_functions =
  fixes sig :: signature and fs :: func_map
  assumes typed_call: "sig f ts = Some t \<Longrightarrow> list_all2 has_type ts vs \<Longrightarrow> \<exists>v. fs f vs = Some v \<and> has_type t v"
begin

lemma call_typed:
  assumes "call_type sig f ts = Some t" and "list_all2 has_type ts vs"
  shows "\<exists>v. call fs f vs = Ok v \<and> has_type t v"
proof -
  consider "f = ''eq''" "ts = [TStr, TStr]" "t = TBool" | "f = ''not''" "length ts = 1" "t = TBool" | "f \<noteq> ''eq''" "f \<noteq> ''not''" "sig f ts = Some t"
    using assms(1) by (auto simp: call_type_def split: if_splits)
  then show ?thesis
  proof cases
    case 1
    with assms(2) show ?thesis by (auto simp: call_def list_all2_Cons1)
  next
    case 2
    with assms(2) obtain v where "vs = [v]" by (auto simp: length_Suc_conv list_all2_Cons1)
    with 2 show ?thesis by (cases v) (auto simp: call_def)
  next
    case 3
    from typed_call [OF 3(3) assms(2)] 3 show ?thesis by (auto simp: call_def)
  qed
qed

lemma eval_typed:
  assumes "pipeline_type sig R D p = Some t" "has_type R root" "has_type D dot"
  shows "\<exists>v. eval fs root dot p = Ok v \<and> has_type t v"
proof (cases p)
  case (Arg x)
  with assms show ?thesis by (auto dest: operand_typed)
next
  case (Call f xs)
  with assms(1) obtain ts where ts: "operand_types R D xs = Some ts" "call_type sig f ts = Some t" by (auto simp: bind_eq_Some_conv)
  from operands_typed [OF ts(1) assms(2,3)] obtain ws where "eval_args root dot xs = Ok ws" "list_all2 has_type ts ws" by blast
  with call_typed [OF ts(2)] Call show ?thesis by auto
qed

lemma append_results_total: "(\<And>r. r \<in> set rs \<Longrightarrow> \<exists>x. r = Ok x) \<Longrightarrow> \<exists>x. append_results rs = Ok x"
  by (induction rs) (fastforce split: sum.splits)+

lemma exec_total:
  "well_typed sig R n D \<Longrightarrow> has_type R root \<Longrightarrow> has_type D dot \<Longrightarrow> \<exists>ps. exec fs root n dot = Ok ps"
proof (induction n arbitrary: D dot)
  case (ActionNode p es)
  from ActionNode.prems(1) obtain t where t: "pipeline_type sig R D p = Some t" "t = TStr \<or> t = TInt \<or> t = THtml \<and> es = [HtmlEscaper]"
    by (auto split: option.splits ty.splits)
  from eval_typed [OF t(1) ActionNode.prems(2,3)] t(2) show ?case by (auto)
next
  case (IfNode p a b)
  from IfNode.prems(1) obtain t where "pipeline_type sig R D p = Some t" by auto
  from eval_typed [OF this IfNode.prems(2,3)] obtain v where "eval fs root dot p = Ok v" by blast
  with IfNode show ?case by auto
next
  case (RangeNode p a)
  from RangeNode.prems(1) obtain t where t: "pipeline_type sig R D p = Some (TList t)" "well_typed sig R a t"
    by (auto split: option.splits ty.splits)
  from eval_typed [OF t(1) RangeNode.prems(2,3)] obtain vs where vs: "eval fs root dot p = Ok (VList vs)" "list_all (has_type t) vs"
    by (auto)
  from vs(2) RangeNode.IH [OF t(2) RangeNode.prems(2)] have "\<exists>x. append_results (map (exec fs root a) vs) = Ok x"
    by (intro append_results_total) (auto simp: list_all_iff)
  with vs(1) show ?case by simp
next
  case (Seq a b)
  then obtain xs ys where "exec fs root a dot = Ok xs" "exec fs root b dot = Ok ys" by (meson well_typed.simps(6))
  then show ?case by simp
qed auto

end

section \<open>Values cannot change the markup\<close>

text \<open>A text is whole when the scanner is back in text after it: no tag, attribute or raw element is left open.\<close>

definition whole :: "string \<Rightarrow> bool" where
  "whole s \<longleftrightarrow> scan HText s = HText"

text \<open>What is left of an output when its escaped values are taken out.\<close>

definition skeleton :: "piece list \<Rightarrow> piece list" where
  "skeleton ps = filter (\<lambda>p. case p of Val s \<Rightarrow> False | _ \<Rightarrow> True) ps"

lemma scan_simps [simp]: "scan h [] = h" "scan h (c # s) = scan (step h c) s"
  by (simp_all add: scan_def)

lemma scan_append [simp]: "scan h (s @ t) = scan (scan h s) t"
  by (simp add: scan_def)

lemma markup_append [simp]: "markup h (s @ t) = markup h s @ markup (scan h s) t"
  by (induction s arbitrary: h) simp_all

lemma text_of_simps [simp]: "text_of [] = []" "text_of (p # ps) = piece_text p @ text_of ps" "text_of (ps @ qs) = text_of ps @ text_of qs"
  by (simp_all add: text_of_def)

lemma skeleton_simps [simp]:
  "skeleton [] = []" "skeleton (Lit s # ps) = Lit s # skeleton ps" "skeleton (Val s # ps) = skeleton ps"
  "skeleton (Raw s # ps) = Raw s # skeleton ps" "skeleton (ps @ qs) = skeleton ps @ skeleton qs"
  by (simp_all add: skeleton_def)

lemma whole_Nil [simp]: "whole []"
  by (simp add: whole_def)

lemma whole_append: "whole s \<Longrightarrow> whole t \<Longrightarrow> whole (s @ t)"
  by (simp add: whole_def)

lemma markup_whole_append: "whole s \<Longrightarrow> markup HText (s @ t) = markup HText s @ markup HText t"
  by (simp add: whole_def)

lemma html_replaced: "CHR ''<'' \<notin> set (htmlReplacer s)" "dquote_char \<notin> set (htmlReplacer s)"
  by (auto simp: htmlReplacer_def html_replacement_def split: if_splits)

text \<open>In text, in raw text and in a quoted value, only the angle bracket or the quote leads out.\<close>

definition data_state :: "hstate \<Rightarrow> bool" where
  "data_state h \<longleftrightarrow> h = HText \<or> (\<exists>e. h = HRaw e \<and> e \<noteq> ''script'') \<or> (\<exists>e k. h = HValue e k)"

lemma inert_step: "data_state h \<Longrightarrow> c \<noteq> CHR ''<'' \<Longrightarrow> c \<noteq> dquote_char \<Longrightarrow> step h c = h \<and> emit h c = []"
  by (auto simp: data_state_def)

lemma inert:
  assumes "data_state h"
  shows "CHR ''<'' \<notin> set s \<Longrightarrow> dquote_char \<notin> set s \<Longrightarrow> scan h s = h \<and> markup h s = []"
proof (induction s)
  case (Cons c s)
  with inert_step [OF assms, of c] show ?case by auto
qed simp

lemma inert_text: "CHR ''<'' \<notin> set s \<Longrightarrow> whole s \<and> markup HText s = []"
  unfolding whole_def by (induction s) auto

lemma escapers_last: "escapers c = Some es \<Longrightarrow> \<exists>fs e. es = fs @ [e] \<and> e \<in> {HtmlEscaper, AttrEscaper, RcdataEscaper}"
  by (cases c rule: escapers.cases) (simp_all split: if_splits, force+)

lemma escaped_html: "escapers c = Some es \<Longrightarrow> \<exists>t. fold apply_escaper es s = htmlReplacer t"
  by (drule escapers_last) (auto simp: apply_escaper_def)

lemma escapers_inert: "escapers (h, u) = Some es \<Longrightarrow> data_state h"
  by (cases "(h, u)" rule: escapers.cases) (auto simp: data_state_def split: if_splits)

lemma escapers_html: "escapers (h, u) = Some [HtmlEscaper] \<Longrightarrow> h = HText"
  by (cases "(h, u)" rule: escapers.cases) (auto split: if_splits)

lemma escaped_value:
  assumes "escapers (h, u) = Some es"
  shows "scan h (fold apply_escaper es s) = h" and "markup h (fold apply_escaper es s) = []"
proof -
  from escaped_html [OF assms] obtain t where "fold apply_escaper es s = htmlReplacer t" by blast
  with inert [OF escapers_inert [OF assms] html_replaced, of t]
  show "scan h (fold apply_escaper es s) = h" "markup h (fold apply_escaper es s) = []" by simp_all
qed

lemma context_scan: "fst (foldl context_step c s) = scan (fst c) s"
  by (induction s arbitrary: c) (auto simp: split_paired_all)

lemma append_results_Cons:
  "append_results (r # rs) = Ok xs \<longleftrightarrow> (\<exists>ys zs. r = Ok ys \<and> append_results rs = Ok zs \<and> xs = ys @ zs)"
  by (auto split: sum.splits)

definition raws_whole :: "piece list \<Rightarrow> bool" where
  "raws_whole ps = list_all (\<lambda>p. case p of Raw r \<Rightarrow> whole r | _ \<Rightarrow> True) ps"

lemma raws_whole_simps [simp]:
  "raws_whole []" "raws_whole (Lit s # ps) = raws_whole ps" "raws_whole (Val s # ps) = raws_whole ps"
  "raws_whole (Raw s # ps) = (whole s \<and> raws_whole ps)" "raws_whole (ps @ qs) = (raws_whole ps \<and> raws_whole qs)"
  by (simp_all add: raws_whole_def)

text \<open>
  The output of an analysed template ends in the context the analysis computed, and has the markup of its
  skeleton.
\<close>

lemma exec_markup:
  "escape n (h, u) = Some (n', h', u') \<Longrightarrow> exec fs root n' dot = Ok ps \<Longrightarrow> raws_whole ps \<Longrightarrow>
   scan h (text_of ps) = h' \<and> scan h (text_of (skeleton ps)) = h' \<and> markup h (text_of ps) = markup h (text_of (skeleton ps))"
proof (induction n arbitrary: h u n' h' u' dot ps)
  case (TextNode s)
  then show ?case using context_scan [of "(h, u)" s] by (auto simp: Let_def split: if_splits)
next
  case (ActionNode p es)
  then obtain es' v where es: "escapers (h, u) = Some es'" "h' = h" "print_value es' v = Ok ps" by (auto split: sum.splits)
  from es(3) ActionNode.prems(3) escaped_value [OF es(1)] es(1,2) show ?case
    by (cases "(es', v)" rule: print_value.cases) (auto simp: whole_def split: if_splits dest!: escapers_html)
next
  case (IfNode p a b)
  then obtain a' b' where "escape a (h, u) = Some (a', h', u')" "escape b (h, u) = Some (b', h', u')" "n' = IfNode p a' b'"
    by (auto split: option.splits if_splits prod.splits)
  moreover from this IfNode.prems(2) have "exec fs root a' dot = Ok ps \<or> exec fs root b' dot = Ok ps"
    by (auto split: sum.splits if_splits)
  ultimately show ?case using IfNode.IH IfNode.prems(3) by blast
next
  case (RangeNode p a)
  then obtain a' vs where a: "escape a (h, u) = Some (a', h, u)" "h' = h" "append_results (map (exec fs root a') vs) = Ok ps"
    by (auto split: option.splits if_splits prod.splits sum.splits tvalue.splits)
  from a(3) RangeNode.prems(3) show ?case unfolding a(2)
  proof (induction vs arbitrary: ps)
    case (Cons v vs)
    then obtain xs ys where "exec fs root a' v = Ok xs" "append_results (map (exec fs root a') vs) = Ok ys" "ps = xs @ ys"
      by (auto simp only: list.map append_results_Cons)
    with Cons.IH RangeNode.IH [OF a(1)] Cons.prems(2) show ?case by simp
  qed simp
next
  case (Seq a b)
  then obtain a' h1 u1 b' where a: "escape a (h, u) = Some (a', h1, u1)" "escape b (h1, u1) = Some (b', h', u')" "n' = Seq a' b'"
    by (auto split: option.splits)
  with Seq.prems(2) obtain xs ys where "exec fs root a' dot = Ok xs" "exec fs root b' dot = Ok ys" "ps = xs @ ys"
    by (auto split: sum.splits)
  with Seq.IH(1) [OF a(1)] Seq.IH(2) [OF a(2)] Seq.prems(3) show ?case by simp
qed auto

text \<open>The markup that a template can write at all, with every branch taken, and the state it ends in.\<close>

fun add_events :: "event list \<Rightarrow> event list \<times> hstate \<Rightarrow> event list \<times> hstate" where
  "add_events xs (ys, h) = (xs @ ys, h)"

fun then_outline :: "event list \<times> hstate \<Rightarrow> (hstate \<Rightarrow> event list \<times> hstate) \<Rightarrow> event list \<times> hstate" where
  "then_outline (xs, h) k = add_events xs (k h)"

primrec outline :: "node \<Rightarrow> hstate \<Rightarrow> event list \<times> hstate" where
  "outline Skip h = ([], h)"
| "outline (TextNode s) h = (markup h s, scan h s)"
| "outline (ActionNode p es) h = ([], h)"
| "outline (IfNode p a b) h = add_events (fst (outline b h)) (outline a h)"
| "outline (RangeNode p a) h = (fst (outline a h), h)"
| "outline (Seq a b) h = then_outline (outline a h) (outline b)"

lemma add_events_pair [simp]: "fst (add_events xs p) = xs @ fst p" "snd (add_events xs p) = snd p"
  by (cases p; simp)+

lemma then_outline_pair [simp]: "fst (then_outline p k) = fst p @ fst (k (snd p))" "snd (then_outline p k) = snd (k (snd p))"
  by (cases p; simp)+

lemma escape_outline: "escape n (h, u) = Some (n', h', u') \<Longrightarrow> snd (outline n h) = h'"
proof (induction n arbitrary: h u n' h' u')
  case (TextNode s)
  then show ?case using context_scan [of "(h, u)" s] by (auto simp: Let_def split: if_splits)
qed (fastforce split: option.splits if_splits prod.splits)+

definition raws_in :: "event list \<Rightarrow> piece list \<Rightarrow> bool" where
  "raws_in L ps = list_all (\<lambda>p. case p of Raw r \<Rightarrow> whole r \<and> set (markup HText r) \<subseteq> set L | _ \<Rightarrow> True) ps"

lemma raws_in_simps [simp]:
  "raws_in L []" "raws_in L (Lit s # ps) = raws_in L ps" "raws_in L (Val s # ps) = raws_in L ps"
  "raws_in L (Raw s # ps) = (whole s \<and> set (markup HText s) \<subseteq> set L \<and> raws_in L ps)" "raws_in L (ps @ qs) = (raws_in L ps \<and> raws_in L qs)"
  by (auto simp: raws_in_def)

lemma raws_in_whole: "raws_in L ps \<Longrightarrow> raws_whole ps"
  unfolding raws_in_def raws_whole_def by (erule list.pred_mono_strong) (auto split: piece.splits)

lemma exec_outline:
  "escape n (h, u) = Some (n', h', u') \<Longrightarrow> exec fs root n' dot = Ok ps \<Longrightarrow> raws_in L ps \<Longrightarrow>
   set (markup h (text_of ps)) \<subseteq> set (fst (outline n h)) \<union> set L"
proof (induction n arbitrary: h u n' h' u' dot ps)
  case (ActionNode p es)
  then obtain es' v where es: "escapers (h, u) = Some es'" "print_value es' v = Ok ps" by (auto split: sum.splits)
  from es(2) ActionNode.prems(3) escaped_value [OF es(1)] es(1) show ?case
    by (cases "(es', v)" rule: print_value.cases) (auto split: if_splits dest!: escapers_html)
next
  case (IfNode p a b)
  then obtain a' b' where "escape a (h, u) = Some (a', h', u')" "escape b (h, u) = Some (b', h', u')" "n' = IfNode p a' b'"
    by (auto split: option.splits if_splits prod.splits)
  moreover from this IfNode.prems(2) have "exec fs root a' dot = Ok ps \<or> exec fs root b' dot = Ok ps"
    by (auto split: sum.splits if_splits)
  ultimately show ?case using IfNode.IH IfNode.prems(3) by fastforce
next
  case (RangeNode p a)
  then obtain a' vs where a: "escape a (h, u) = Some (a', h, u)" "append_results (map (exec fs root a') vs) = Ok ps"
    by (auto split: option.splits if_splits prod.splits sum.splits tvalue.splits)
  from a(2) RangeNode.prems(3) show ?case
  proof (induction vs arbitrary: ps)
    case (Cons v vs)
    then obtain xs ys where x: "exec fs root a' v = Ok xs" "append_results (map (exec fs root a') vs) = Ok ys" "ps = xs @ ys"
      by (auto simp only: list.map append_results_Cons)
    with Cons.prems(2) have "raws_whole xs" by (auto intro: raws_in_whole)
    with x exec_markup [OF a(1) x(1)] Cons.IH RangeNode.IH [OF a(1) x(1)] Cons.prems(2) show ?case by simp
  qed simp
next
  case (Seq a b)
  then obtain a' h1 u1 b' where a: "escape a (h, u) = Some (a', h1, u1)" "escape b (h1, u1) = Some (b', h', u')" "n' = Seq a' b'"
    by (auto split: option.splits)
  with Seq.prems(2) obtain xs ys where x: "exec fs root a' dot = Ok xs" "exec fs root b' dot = Ok ys" "ps = xs @ ys"
    by (auto split: sum.splits)
  with Seq.prems(3) have "raws_in L xs" "raws_in L ys" "raws_whole xs" by (auto intro: raws_in_whole)
  with Seq.IH(1) [OF a(1) x(1)] Seq.IH(2) [OF a(2) x(2)] exec_markup [OF a(1) x(1)] escape_outline [OF a(1)] x(3)
  show ?case by auto
qed (auto simp: Let_def split: if_splits)

text \<open>The skeleton does not depend on the escapers: it can be read off the template as it is written.\<close>

primrec bare :: "node \<Rightarrow> bool" where
  "bare Skip = True"
| "bare (TextNode s) = True"
| "bare (ActionNode p es) = (es = [])"
| "bare (IfNode p a b) = (bare a \<and> bare b)"
| "bare (RangeNode p a) = bare a"
| "bare (Seq a b) = (bare a \<and> bare b)"

lemma exec_bare:
  "bare n \<Longrightarrow> escape n c = Some (n', c') \<Longrightarrow> exec fs root n' dot = Ok ps \<Longrightarrow>
   \<exists>qs. exec fs root n dot = Ok qs \<and> skeleton qs = skeleton ps"
proof (induction n arbitrary: c n' c' dot ps)
  case (ActionNode p es)
  then obtain es' v where "eval fs root dot p = Ok v" "print_value es' v = Ok ps" by (auto split: sum.splits)
  with ActionNode.prems(1) show ?case
    by (cases "(es', v)" rule: print_value.cases) (auto split: if_splits)
next
  case (IfNode p a b)
  then obtain a' b' c1 where a: "escape a c = Some (a', c1)" "escape b c = Some (b', c1)" "n' = IfNode p a' b'"
    by (auto split: option.splits if_splits prod.splits)
  with IfNode.prems(3) obtain v where "eval fs root dot p = Ok v" "exec fs root (if truth v then a' else b') dot = Ok ps"
    by (auto split: sum.splits if_splits)
  with IfNode.IH(1) [OF _ a(1)] IfNode.IH(2) [OF _ a(2)] IfNode.prems(1) show ?case by (cases "truth v") auto
next
  case (RangeNode p a)
  then obtain a' vs where a: "escape a c = Some (a', c)" "eval fs root dot p = Ok (VList vs)" "append_results (map (exec fs root a') vs) = Ok ps"
    by (auto split: option.splits if_splits prod.splits sum.splits tvalue.splits)
  from a(3) have "\<exists>qs. append_results (map (exec fs root a) vs) = Ok qs \<and> skeleton qs = skeleton ps"
  proof (induction vs arbitrary: ps)
    case (Cons v vs)
    then obtain xs ys where x: "exec fs root a' v = Ok xs" "append_results (map (exec fs root a') vs) = Ok ys" "ps = xs @ ys"
      by (auto simp only: list.map append_results_Cons)
    with Cons.IH RangeNode.IH [OF _ a(1) x(1)] RangeNode.prems(1) show ?case by fastforce
  qed simp
  with a(2) show ?case by simp
next
  case (Seq a b)
  then obtain a' c1 b' where a: "escape a c = Some (a', c1)" "escape b c1 = Some (b', c')" "n' = Seq a' b'"
    by (auto split: option.splits)
  with Seq.prems(3) obtain xs ys where x: "exec fs root a' dot = Ok xs" "exec fs root b' dot = Ok ys" "ps = xs @ ys"
    by (auto split: sum.splits)
  with Seq.IH(1) [OF _ a(1) x(1)] Seq.IH(2) [OF _ a(2) x(2)] Seq.prems(1) show ?case by fastforce
qed (auto simp: Let_def split: if_splits)

text \<open>Only a value of type \<open>template.HTML\<close> is written as it is.\<close>

primrec html_free :: "tvalue \<Rightarrow> bool" where
  "html_free (VStr s) = True"
| "html_free (VHtml s) = False"
| "html_free (VInt i) = True"
| "html_free (VBool b) = True"
| "html_free (VList vs) = list_all (\<lambda>p. p) (map html_free vs)"
| "html_free (VStruct fs) = list_all snd (map (map_prod id html_free) fs)"

definition no_raws :: "piece list \<Rightarrow> bool" where
  "no_raws ps = list_all (\<lambda>p. case p of Raw r \<Rightarrow> False | _ \<Rightarrow> True) ps"

lemma no_raws_simps [simp]:
  "no_raws []" "no_raws (Lit s # ps) = no_raws ps" "no_raws (Val s # ps) = no_raws ps" "\<not> no_raws (Raw s # ps)"
  "no_raws (ps @ qs) = (no_raws ps \<and> no_raws qs)"
  by (simp_all add: no_raws_def)

lemma no_raws_in: "no_raws ps \<Longrightarrow> raws_in L ps"
  unfolding no_raws_def raws_in_def by (erule list.pred_mono_strong) (auto split: piece.splits)

definition html_free_funcs :: "func_map \<Rightarrow> bool" where
  "html_free_funcs fs \<longleftrightarrow> (\<forall>f vs v. fs f vs = Some v \<longrightarrow> html_free v)"

lemma field_html_free: "html_free v \<Longrightarrow> field_of v f = Ok w \<Longrightarrow> html_free w"
  by (cases v) (force simp: list_all_iff dest!: map_of_SomeD split: option.splits)+

lemma builtin_html_free: "builtin f vs = Some v \<Longrightarrow> html_free v"
  by (cases "(f, vs)" rule: builtin.cases) (auto split: if_splits)

lemma eval_html_free:
  assumes "html_free_funcs fs" "html_free root" "html_free dot" "eval fs root dot p = Ok v"
  shows "html_free v"
proof (cases p)
  case (Arg x)
  with assms show ?thesis by (cases x) (auto intro: field_html_free)
next
  case (Call f xs)
  with assms obtain vs where "call fs f vs = Ok v" by (auto split: sum.splits)
  with assms(1) show ?thesis by (auto simp: call_def html_free_funcs_def dest: builtin_html_free split: option.splits if_splits)
qed

lemma exec_html_free:
  "html_free_funcs fs \<Longrightarrow> html_free root \<Longrightarrow> html_free dot \<Longrightarrow> exec fs root n dot = Ok ps \<Longrightarrow> no_raws ps"
proof (induction n arbitrary: dot ps)
  case (ActionNode p es)
  then obtain v where v: "eval fs root dot p = Ok v" "print_value es v = Ok ps" by (auto split: sum.splits)
  with eval_html_free [OF ActionNode.prems(1-3) v(1)] show ?case by (cases "(es, v)" rule: print_value.cases) auto
next
  case (RangeNode p a)
  then obtain vs where a: "eval fs root dot p = Ok (VList vs)" "append_results (map (exec fs root a) vs) = Ok ps"
    by (auto split: sum.splits tvalue.splits)
  from eval_html_free [OF RangeNode.prems(1-3) a(1)] have "list_all html_free vs" by (simp add: list_all_iff)
  with a(2) show ?case
  proof (induction vs arbitrary: ps)
    case (Cons v vs)
    then obtain xs ys where "exec fs root a v = Ok xs" "append_results (map (exec fs root a) vs) = Ok ys" "ps = xs @ ys"
      by (auto simp only: list.map append_results_Cons)
    with Cons RangeNode.IH [OF RangeNode.prems(1,2), of v xs] show ?case by simp
  qed simp
qed (auto split: sum.splits if_splits)

text \<open>Where the output of a part of a template is found in the output of the whole.\<close>

lemma exec_block_append:
  "escape (block (xs @ ys)) c = Some (m, c') \<Longrightarrow> exec fs root m dot = Ok ps \<Longrightarrow>
   \<exists>m1 c1 m2 ps1 ps2. escape (block xs) c = Some (m1, c1) \<and> exec fs root m1 dot = Ok ps1
     \<and> escape (block ys) c1 = Some (m2, c') \<and> exec fs root m2 dot = Ok ps2 \<and> ps = ps1 @ ps2"
proof (induction xs arbitrary: c m ps)
  case Nil
  then show ?case by (intro exI [of _ Skip] exI [of _ c] exI [of _ m] exI [of _ "[]"] exI [of _ ps]) simp
next
  case (Cons x xs)
  then obtain x' c1 m2 where x: "escape x c = Some (x', c1)" "escape (block (xs @ ys)) c1 = Some (m2, c')" "m = Seq x' m2"
    by (auto split: option.splits)
  from Cons.prems(2) [unfolded x(3)] obtain p1 p2 where p: "exec fs root x' dot = Ok p1" "exec fs root m2 dot = Ok p2" "ps = p1 @ p2"
    by (auto simp: append_results_Cons simp del: append_results.simps(2))
  from Cons.IH [OF x(2) p(2)] obtain m1 d1 n' q1 q2 where "escape (block xs) c1 = Some (m1, d1)" "exec fs root m1 dot = Ok q1"
    "escape (block ys) d1 = Some (n', c')" "exec fs root n' dot = Ok q2" "p2 = q1 @ q2" by blast
  with x p show ?case
    by (intro exI [of _ "Seq x' m1"] exI [of _ d1] exI [of _ n'] exI [of _ "p1 @ q1"] exI [of _ q2]) simp
qed

lemma append_results_member:
  "append_results (map f vs) = Ok ps \<Longrightarrow> v \<in> set vs \<Longrightarrow>
   \<exists>us ps1 ps2 ps3. set us \<subseteq> set vs \<and> append_results (map f us) = Ok ps1 \<and> f v = Ok ps2 \<and> ps = ps1 @ ps2 @ ps3"
proof (induction vs arbitrary: ps)
  case (Cons u vs)
  from Cons.prems(1) obtain xs ys where x: "f u = Ok xs" "append_results (map f vs) = Ok ys" "ps = xs @ ys"
    by (auto simp: append_results_Cons simp del: append_results.simps(2))
  show ?case
  proof (cases "v = u")
    case True
    with x show ?thesis by (intro exI [of _ "[]"] exI [of _ "[]"] exI [of _ xs] exI [of _ ys]) simp
  next
    case False
    with Cons.IH [OF x(2)] Cons.prems(2) obtain us p1 p2 p3 where "set us \<subseteq> set vs" "append_results (map f us) = Ok p1" "f v = Ok p2" "ys = p1 @ p2 @ p3"
      by auto
    with x show ?thesis by (intro exI [of _ "u # us"] exI [of _ "xs @ p1"] exI [of _ p2] exI [of _ p3]) auto
  qed
qed simp

lemma append_results_scan:
  "append_results (map f vs) = Ok ps \<Longrightarrow> (\<And>v qs. v \<in> set vs \<Longrightarrow> f v = Ok qs \<Longrightarrow> scan h (text_of qs) = h) \<Longrightarrow> scan h (text_of ps) = h"
proof (induction vs arbitrary: ps)
  case (Cons u vs)
  from Cons.prems(1) obtain xs ys where x: "f u = Ok xs" "append_results (map f vs) = Ok ys" "ps = xs @ ys"
    by (auto simp: append_results_Cons simp del: append_results.simps(2))
  have "scan h (text_of xs) = h" using Cons.prems(2) [of u xs] x(1) by simp
  moreover have "scan h (text_of ys) = h" using Cons.IH [OF x(2)] Cons.prems(2) by (meson list.set_intros(2))
  ultimately show ?case using x(3) by simp
qed simp

section \<open>Executions\<close>

lemma Execute_cases:
  assumes "Execute fs n v = Ok ps"
  obtains n' u where "escape n (HText, UrlNone) = Some (n', HText, u)" "exec fs v n' v = Ok ps"
  using assms by (auto simp: Execute_def split: option.splits prod.splits hstate.splits)

lemma Execute_markup:
  assumes "Execute fs n v = Ok ps" and "raws_whole ps"
  shows "whole (text_of ps)" and "markup HText (text_of ps) = markup HText (text_of (skeleton ps))"
  using assms by (auto elim!: Execute_cases dest: exec_markup simp: whole_def)

lemma Execute_outline:
  assumes "Execute fs n v = Ok ps" and "raws_in L ps"
  shows "set (markup HText (text_of ps)) \<subseteq> set (fst (outline n HText)) \<union> set L"
  using assms(1) by (rule Execute_cases) (rule exec_outline [OF _ _ assms(2)])

lemma Execute_skeleton:
  assumes "bare n" and "Execute fs n v = Ok ps"
  shows "\<exists>qs. exec fs v n v = Ok qs \<and> skeleton qs = skeleton ps"
  using assms(2) by (rule Execute_cases) (rule exec_bare [OF assms(1)])

text \<open>A template fits a type when it passes the analysis and its escaped form respects the type.\<close>

definition fits :: "signature \<Rightarrow> node \<Rightarrow> ty \<Rightarrow> bool" where
  "fits sig n t \<longleftrightarrow>
     bare n \<and> (case escape n (HText, UrlNone) of Some (n', (HText, _)) \<Rightarrow> well_typed sig t n' t | _ \<Rightarrow> False)"

context template_functions
begin

lemma Execute_total:
  assumes "fits sig n t" and "has_type t v"
  shows "\<exists>ps. Execute fs n v = Ok ps"
  using assms by (auto simp: fits_def Execute_def intro: exec_total split: option.splits prod.splits hstate.splits)

end

end
