(* ===== verification/Pages.thy ===== *)
theory Pages
  imports Go_Template Go_Path
begin

text \<open>
  \<open>internal/browse/fragments.go\<close> and \<open>templates.go\<close>: the data of the page fragments, the templates themselves,
  node by node as they stand in the sources, and their execution. The checks of the last section run the
  analysis of \<open>html/template\<close> on every template, so that the error path of \<open>frag\<close> is known not to be taken.
\<close>

section \<open>Strings\<close>

definition LastIndex_char :: "char \<Rightarrow> string \<Rightarrow> nat option" where
  "LastIndex_char c s = (if c \<in> set s then Some (length s - Suc (length (takeWhile (\<lambda>x. x \<noteq> c) (rev s)))) else None)"

text \<open>\<open>html.EscapeString\<close>.\<close>

definition escape_html_char :: "char \<Rightarrow> string" where
  "escape_html_char c =
     (if c = CHR ''&'' then ''&amp;''
      else if c = quote_char then ''&#39;''
      else if c = CHR ''<'' then ''&lt;''
      else if c = CHR ''>'' then ''&gt;''
      else if c = dquote_char then ''&#34;''
      else [c])"

definition htmlEscape :: "string \<Rightarrow> string" where
  "htmlEscape s = concat (map escape_html_char s)"

definition parentPath :: "string \<Rightarrow> string" where
  "parentPath p = (case LastIndex_char slash p of None \<Rightarrow> [] | Some i \<Rightarrow> take i p)"

section \<open>The data of the templates\<close>

record commitItem =
  ci_Hash :: string
  ci_Short :: string
  ci_Author :: string
  ci_Date :: string
  ci_Msg :: string

record treeEntry =
  te_Type :: string
  te_Name :: string
  te_Path :: string

record refbarData =
  rb_Repo :: string
  rb_Ref :: string
  rb_Refs :: "string list"
  rb_Tab :: string

record commitListData =
  cl_Repo :: string
  cl_Ref :: string
  cl_Commits :: "commitItem list"
  cl_Page :: int
  cl_HasNext :: bool

record treeData =
  td_Repo :: string
  td_Ref :: string
  td_Path :: string
  td_Entries :: "treeEntry list"
  td_HasPath :: bool

record readmeData =
  rm_Repo :: string
  rm_Ref :: string
  rm_Name :: string
  rm_Body :: string
  rm_RawMarkdown :: string
  rm_IsMarkdown :: bool
  rm_Truncated :: bool
  rm_RenderMode :: string
  rm_SourceURL :: string

record blobData =
  bl_Repo :: string
  bl_Ref :: string
  bl_Path :: string
  bl_RawMarkdown :: string
  bl_Body :: string
  bl_IsMarkdown :: bool
  bl_Truncated :: bool
  bl_RenderMode :: string
  bl_RawURL :: string
  bl_Highlighted :: bool
  bl_Lang :: string

record diffData =
  df_Repo :: string
  df_Commit :: string
  df_Body :: string
  df_Truncated :: bool
  df_RawURL :: string

datatype fragment =
    Repolist "string list"
  | Refbar refbarData
  | Commitlist commitListData
  | TreeList treeData
  | Readme readmeData
  | Blob blobData
  | Diff diffData
  | Empty string

record pageData =
  pg_Title :: string
  pg_Repo :: string
  pg_RenderMode :: string
  pg_Version :: string
  pg_Body :: string

section \<open>The templates\<close>

abbreviation middle_dot :: string where "middle_dot \<equiv> [CHR 0xC2, CHR 0xB7]"
abbreviation em_dash :: string where "em_dash \<equiv> [CHR 0xE2, CHR 0x80, CHR 0x94]"

definition repolist_template :: node where
  "repolist_template = block
    [TextNode ''\<newline>'',
     TextNode ''<div class=\"repo-index\">\<newline>'',
     TextNode ''<h1>repositories</h1>\<newline>'',
     IfNode (Arg (Field ''Repos'')) (block
      [TextNode ''\<newline>'',
       TextNode ''<ul class=\"repo-list\">\<newline>'',
       RangeNode (Arg (Field ''Repos'')) (block
        [TextNode ''<li><a class=\"name\" href=\"/'',
         ActionNode (Arg (Field ''Name'')) [],
         TextNode ''\">'',
         ActionNode (Arg (Field ''Name'')) [],
         TextNode ''</a><span class=\"meta\">browse</span></li>'']),
       TextNode ''\<newline>'',
       TextNode ''</ul>\<newline>''])
      (block
      [TextNode ''\<newline>'',
       TextNode ''<div class=\"empty-repo\"><p>no repositories yet.</p><p>create one with <code>git init --bare</code> or push to a new name.</p></div>\<newline>'']),
     TextNode ''\<newline>'',
     TextNode ''</div>\<newline>'']"

definition refbar_template :: node where
  "refbar_template = block
    [TextNode ''\<newline>'',
     TextNode ''<div class=\"refbar\">\<newline>'',
     TextNode ''  <div class=\"tabs\">\<newline>'',
     TextNode ''    <a href=\"/'',
     ActionNode (Arg (Field ''Repo'')) [],
     TextNode ''\" class=\"'',
     IfNode (Call ''eq'' [Field ''Tab'', StrLit ''home'']) (TextNode ''active'') Skip,
     TextNode ''\">home</a>\<newline>'',
     TextNode ''    <a href=\"/'',
     ActionNode (Arg (Field ''Repo'')) [],
     TextNode ''/log?ref='',
     ActionNode (Arg (Field ''Ref'')) [],
     TextNode ''\" class=\"'',
     IfNode (Call ''eq'' [Field ''Tab'', StrLit ''log'']) (TextNode ''active'') Skip,
     TextNode ''\">log</a>\<newline>'',
     TextNode ''    <a href=\"/'',
     ActionNode (Arg (Field ''Repo'')) [],
     TextNode ''/tree?ref='',
     ActionNode (Arg (Field ''Ref'')) [],
     TextNode ''\" class=\"'',
     IfNode (Call ''eq'' [Field ''Tab'', StrLit ''tree'']) (TextNode ''active'') Skip,
     TextNode ''\">tree</a>\<newline>'',
     TextNode ''  </div>\<newline>'',
     TextNode ''  '',
     IfNode (Arg (Field ''Refs'')) (block
      [TextNode ''\<newline>'',
       TextNode ''  <label class=\"refsel\">ref\<newline>'',
       TextNode ''    <select onchange=\"if(this.value){location=this.value;}\">\<newline>'',
       TextNode ''      <option value=\"\">'',
       ActionNode (Arg (Field ''Ref'')) [],
       TextNode ''</option>\<newline>'',
       TextNode ''      '',
       RangeNode (Arg (Field ''Refs'')) (block
        [TextNode ''<option value=\"/'',
         ActionNode (Arg (RootField ''Repo'')) [],
         TextNode ''/tree?ref='',
         ActionNode (Arg Dot) [],
         TextNode ''\">'',
         ActionNode (Arg Dot) [],
         TextNode ''</option>'']),
       TextNode ''\<newline>'',
       TextNode ''    </select>\<newline>'',
       TextNode ''  </label>\<newline>'',
       TextNode ''  '']) Skip,
     TextNode ''\<newline>'',
     TextNode ''</div>\<newline>'']"

definition commitlist_template :: node where
  "commitlist_template = block
    [TextNode ''\<newline>'',
     TextNode ''<div class=\"panel\">\<newline>'',
     TextNode (''  <div class=\"panel-title\">commits '' @ middle_dot @ '' ''),
     ActionNode (Arg (Field ''Ref'')) [],
     TextNode ''</div>\<newline>'',
     TextNode ''  '',
     IfNode (Arg (Field ''Commits'')) (block
      [TextNode ''\<newline>'',
       TextNode ''  <ul class=\"commit-list\">\<newline>'',
       TextNode ''    '',
       RangeNode (Arg (Field ''Commits'')) (block
        [TextNode ''\<newline>'',
         TextNode ''    <li>\<newline>'',
         TextNode ''      <a class=\"commit-hash\" href=\"/'',
         ActionNode (Arg (RootField ''Repo'')) [],
         TextNode ''/diff?ref='',
         ActionNode (Arg (RootField ''Ref'')) [],
         TextNode ''&commit='',
         ActionNode (Arg (Field ''Hash'')) [],
         TextNode ''\" title=\"'',
         ActionNode (Arg (Field ''Hash'')) [],
         TextNode ''\">'',
         ActionNode (Arg (Field ''Short'')) [],
         TextNode ''</a>\<newline>'',
         TextNode ''      <span class=\"commit-msg\">'',
         ActionNode (Arg (Field ''Msg'')) [],
         TextNode ''</span>\<newline>'',
         TextNode ''      <span class=\"commit-meta\">'',
         ActionNode (Arg (Field ''Author'')) [],
         TextNode ('' '' @ middle_dot @ '' ''),
         ActionNode (Arg (Field ''Date'')) [],
         TextNode ''</span>\<newline>'',
         TextNode ''    </li>\<newline>'',
         TextNode ''    '']),
       TextNode ''\<newline>'',
       TextNode ''  </ul>\<newline>'',
       TextNode ''  <div class=\"pager\">\<newline>'',
       TextNode ''    '',
       IfNode (Arg (Field ''Page'')) (block
        [TextNode ''<a href=\"/'',
         ActionNode (Arg (Field ''Repo'')) [],
         TextNode ''/log?ref='',
         ActionNode (Arg (Field ''Ref'')) [],
         TextNode ''&page='',
         ActionNode (Call ''sub'' [Field ''Page'', IntLit 1]) [],
         TextNode ''\">&larr; newer</a>'']) Skip,
       TextNode ''\<newline>'',
       TextNode ''    '',
       IfNode (Arg (Field ''HasNext'')) (block
        [TextNode ''<a href=\"/'',
         ActionNode (Arg (Field ''Repo'')) [],
         TextNode ''/log?ref='',
         ActionNode (Arg (Field ''Ref'')) [],
         TextNode ''&page='',
         ActionNode (Call ''add'' [Field ''Page'', IntLit 1]) [],
         TextNode ''\">older &rarr;</a>'']) Skip,
       TextNode ''\<newline>'',
       TextNode ''  </div>\<newline>'',
       TextNode ''  ''])
      (block
      [TextNode ''\<newline>'',
       TextNode ''  <div class=\"panel-body\"><p class=\"notice\">no commits on this ref.</p></div>\<newline>'',
       TextNode ''  '']),
     TextNode ''\<newline>'',
     TextNode ''</div>\<newline>'']"

definition tree_entry_template :: node where
  "tree_entry_template = block
    [TextNode ''\<newline>'',
     TextNode ''  <li>\<newline>'',
     TextNode ''    '',
     IfNode (Call ''eq'' [Field ''Type'', StrLit ''tree'']) (block
      [TextNode ''<span class=\"tree-type dir\">d</span><a class=\"tree-link\" href=\"/'',
       ActionNode (Arg (RootField ''Repo'')) [],
       TextNode ''/tree?ref='',
       ActionNode (Arg (RootField ''Ref'')) [],
       TextNode ''&path='',
       ActionNode (Arg (Field ''Path'')) [],
       TextNode ''\">'',
       ActionNode (Arg (Field ''Name'')) [],
       TextNode ''/</a>\<newline>'',
       TextNode ''    ''])
      (block
      [TextNode ''<span class=\"tree-type\">f</span><a class=\"tree-link\" href=\"/'',
       ActionNode (Arg (RootField ''Repo'')) [],
       TextNode ''/blob?ref='',
       ActionNode (Arg (RootField ''Ref'')) [],
       TextNode ''&path='',
       ActionNode (Arg (Field ''Path'')) [],
       TextNode ''\">'',
       ActionNode (Arg (Field ''Name'')) [],
       TextNode ''</a>'']),
     TextNode ''\<newline>'',
     TextNode ''  </li>\<newline>'',
     TextNode ''  '']"

definition tree_nodes :: "node list" where
  "tree_nodes =
    [TextNode ''\<newline>'',
     TextNode ''<div class=\"panel\">\<newline>'',
     TextNode (''  <div class=\"panel-title\">tree '' @ middle_dot @ '' ''),
     ActionNode (Arg (Field ''Ref'')) [],
     IfNode (Arg (Field ''Path'')) (block [TextNode '' / '', ActionNode (Arg (Field ''Path'')) []]) Skip,
     TextNode ''</div>\<newline>'',
     TextNode ''  <ul class=\"tree-list\">\<newline>'',
     TextNode ''  '',
     IfNode (Arg (Field ''HasPath'')) (block
      [TextNode ''<li><span class=\"tree-type dir\">d</span><a class=\"tree-link\" href=\"/'',
       ActionNode (Arg (Field ''Repo'')) [],
       TextNode ''/tree?ref='',
       ActionNode (Arg (Field ''Ref'')) [],
       TextNode ''&path='',
       ActionNode (Call ''parent'' [Field ''Path'']) [],
       TextNode ''\">../</a></li>'']) Skip,
     TextNode ''\<newline>'',
     TextNode ''  '',
     RangeNode (Arg (Field ''Entries'')) tree_entry_template,
     TextNode ''\<newline>'',
     TextNode ''  </ul>\<newline>'',
     TextNode ''  '',
     IfNode (Call ''not'' [Field ''Entries'']) (IfNode (Call ''not'' [Field ''HasPath'']) (TextNode ''<div class=\"panel-body\"><p class=\"notice\">empty directory.</p></div>'') Skip) Skip,
     TextNode ''\<newline>'',
     TextNode ''</div>\<newline>'']"

definition tree_template :: node where
  "tree_template = block tree_nodes"

definition readme_template :: node where
  "readme_template = block
    [TextNode ''\<newline>'',
     TextNode ''<div class=\"panel readme\">\<newline>'',
     TextNode ''  <div class=\"panel-title\">'',
     ActionNode (Arg (Field ''Name'')) [],
     IfNode (Arg (Field ''Truncated'')) (block
      [TextNode ('' '' @ middle_dot @ '' truncated to 256KiB '' @ em_dash @ '' <a href=\"''),
       ActionNode (Arg (Field ''SourceURL'')) [],
       TextNode ''\">raw</a>'']) Skip,
     TextNode ''</div>\<newline>'',
     TextNode ''  '',
     IfNode (Call ''eq'' [Field ''RenderMode'', StrLit ''client'']) (block
      [TextNode ''\<newline>'',
       TextNode ''  <div class=\"markdown\" data-markdown=\"'',
       ActionNode (Arg (Field ''RawMarkdown'')) [],
       TextNode ''\"></div>\<newline>'',
       TextNode ''  ''])
      (block
      [TextNode ''\<newline>'',
       TextNode ''  <div class=\"markdown\">'',
       ActionNode (Arg (Field ''Body'')) [],
       TextNode ''</div>\<newline>'',
       TextNode ''  '']),
     TextNode ''\<newline>'',
     TextNode ''</div>\<newline>'']"

definition blob_nodes :: "node list" where
  "blob_nodes =
    [TextNode ''\<newline>'',
     TextNode ''<div class=\"panel\">\<newline>'',
     TextNode ''  <div class=\"panel-title blob-title\">\<newline>'',
     TextNode ''    <span class=\"blob-path\">'',
     ActionNode (Arg (Field ''Path'')) [],
     TextNode ''</span>\<newline>'',
     TextNode ''    '',
     IfNode (Arg (Field ''Truncated'')) (TextNode ''<span class=\"blob-trunc\">truncated to 256KiB</span>'') Skip,
     TextNode ''\<newline>'',
     TextNode ''    <a class=\"blob-download\" href=\"'',
     ActionNode (Arg (Field ''RawURL'')) [],
     TextNode ''\">download</a>\<newline>'',
     TextNode ''  </div>\<newline>'',
     TextNode ''  '',
     IfNode (Arg (Field ''IsMarkdown'')) (block
      [TextNode ''\<newline>'',
       TextNode ''    '',
       IfNode (Call ''eq'' [Field ''RenderMode'', StrLit ''client'']) (block
        [TextNode ''\<newline>'',
         TextNode ''    <div class=\"markdown\" data-markdown=\"'',
         ActionNode (Arg (Field ''RawMarkdown'')) [],
         TextNode ''\"></div>\<newline>'',
         TextNode ''    ''])
        (block
        [TextNode ''\<newline>'',
         TextNode ''    <div class=\"markdown\">'',
         ActionNode (Arg (Field ''Body'')) [],
         TextNode ''</div>\<newline>'',
         TextNode ''    '']),
       TextNode ''\<newline>'',
       TextNode ''  ''])
      (IfNode (Arg (Field ''Highlighted'')) (block
        [TextNode ''\<newline>'',
         TextNode ''    <div class=\"blob-hl\">'',
         ActionNode (Arg (Field ''Body'')) [],
         TextNode ''</div>\<newline>'',
         TextNode ''  ''])
        (IfNode (Arg (Field ''Lang'')) (block
          [TextNode ''\<newline>'',
           TextNode ''    <pre class=\"blob hljs\" data-lang=\"'',
           ActionNode (Arg (Field ''Lang'')) [],
           TextNode ''\">'',
           ActionNode (Arg (Field ''Body'')) [],
           TextNode ''</pre>\<newline>'',
           TextNode ''  ''])
          (block
          [TextNode ''\<newline>'',
           TextNode ''    <pre class=\"blob\">'',
           ActionNode (Arg (Field ''Body'')) [],
           TextNode ''</pre>\<newline>'',
           TextNode ''  '']))),
     TextNode ''\<newline>'',
     TextNode ''</div>\<newline>'']"

definition blob_template :: node where
  "blob_template = block blob_nodes"

definition diff_template :: node where
  "diff_template = block
    [TextNode ''\<newline>'',
     TextNode ''<div class=\"panel\">\<newline>'',
     TextNode (''  <div class=\"panel-title\">diff '' @ middle_dot @ '' ''),
     ActionNode (Arg (Field ''Commit'')) [],
     IfNode (Arg (Field ''Truncated'')) (block
      [TextNode ('' '' @ middle_dot @ '' truncated to 256KiB '' @ em_dash @ '' <a href=\"''),
       ActionNode (Arg (Field ''RawURL'')) [],
       TextNode ''\">raw diff</a>'']) Skip,
     TextNode ''</div>\<newline>'',
     TextNode ''  <div class=\"diff\"><pre>'',
     ActionNode (Arg (Field ''Body'')) [],
     TextNode ''</pre></div>\<newline>'',
     TextNode ''</div>\<newline>'']"

definition empty_template :: node where
  "empty_template = block
    [TextNode ''\<newline>'',
     TextNode ''<div class=\"empty-repo\">\<newline>'',
     TextNode ''<h1>'',
     ActionNode (Arg (Field ''Repo'')) [],
     TextNode ''</h1>\<newline>'',
     TextNode (''<p>This repository is empty '' @ em_dash @ '' no refs yet.</p>\<newline>''),
     TextNode ''<div class=\"hint\"><code>git remote add origin git@git.cmposer.cc:'',
     ActionNode (Arg (Field ''Repo'')) [],
     TextNode ''.git<br>git push -u origin main</code></div>\<newline>'',
     TextNode ''<p class=\"mirror-note\">Mirror state: no refs, bundle skipped.</p>\<newline>'',
     TextNode ''</div>\<newline>'']"

definition layout_template :: node where
  "layout_template = block
    [TextNode ''<!DOCTYPE html>\<newline>'',
     TextNode ''<html lang=\"en\">\<newline>'',
     TextNode ''<head>\<newline>'',
     TextNode ''<meta charset=\"utf-8\">\<newline>'',
     TextNode ''<meta name=\"viewport\" content=\"width=device-width, initial-scale=1\">\<newline>'',
     TextNode ''<title>'',
     ActionNode (Arg (Field ''Title'')) [],
     TextNode ''</title>\<newline>'',
     TextNode ''<link rel=\"stylesheet\" href=\"/static/vendor/chroma/gruvbox.css\">\<newline>'',
     IfNode (Call ''eq'' [Field ''RenderMode'', StrLit ''client'']) (block
      [TextNode ''\<newline>'',
       TextNode ''<link rel=\"stylesheet\" href=\"/static/vendor/highlight.js/gruvbox/gruvbox-dark.css\">\<newline>'']) Skip,
     TextNode ''\<newline>'',
     TextNode ''<link rel=\"stylesheet\" href=\"/static/style.css\">\<newline>'',
     TextNode ''</head>\<newline>'',
     TextNode ''<body>\<newline>'',
     TextNode ''<header class=\"mast\">\<newline>'',
     TextNode ''  <a class=\"wordmark\" href=\"/\">git.cmposer.cc</a>\<newline>'',
     TextNode ''  <span class=\"render-tag\">'',
     ActionNode (Arg (Field ''RenderMode'')) [],
     TextNode ''</span>\<newline>'',
     TextNode ''</header>\<newline>'',
     TextNode ''<main class=\"stage\">'',
     ActionNode (Arg (Field ''Body'')) [],
     TextNode ''</main>\<newline>'',
     TextNode (''<footer class=\"footer\">gitd '' @ em_dash @ '' personal git server '' @ middle_dot @ '' mTLS browse '' @ middle_dot @ '' ''),
     ActionNode (Arg (Field ''Version'')) [],
     TextNode ''</footer>\<newline>'',
     IfNode (Call ''eq'' [Field ''RenderMode'', StrLit ''client'']) (block
      [TextNode ''\<newline>'',
       TextNode ''<script src=\"/static/vendor/marked/12.0.2/marked.min.js\"></script>\<newline>'',
       TextNode ''<script src=\"/static/vendor/highlight.js/11.10.0/highlight.min.js\"></script>\<newline>'',
       TextNode ''<script src=\"/static/render-client.js\"></script>\<newline>'']) Skip,
     TextNode ''\<newline>'',
     TextNode ''</body>\<newline>'',
     TextNode ''</html>'']"


section \<open>Rendering\<close>

text \<open>The function map of the fragments; \<open>add\<close> and \<open>sub\<close> are Go's \<open>int\<close> operations.\<close>

fun fragFuncs :: func_map where
  "fragFuncs f [VInt a, VInt b] =
     (if f = ''add'' then Some (VInt (wrap64 (a + b))) else if f = ''sub'' then Some (VInt (wrap64 (a - b))) else None)"
| "fragFuncs f [VStr p] = (if f = ''parent'' then Some (VStr (parentPath p)) else None)"
| "fragFuncs f vs = None"

abbreviation no_funcs :: func_map where "no_funcs \<equiv> \<lambda>f vs. None"

definition commit_value :: "commitItem \<Rightarrow> tvalue" where
  "commit_value c = VStruct [(''Hash'', VStr (ci_Hash c)), (''Short'', VStr (ci_Short c)), (''Author'', VStr (ci_Author c)),
     (''Date'', VStr (ci_Date c)), (''Msg'', VStr (ci_Msg c))]"

definition entry_value :: "treeEntry \<Rightarrow> tvalue" where
  "entry_value e = VStruct [(''Type'', VStr (te_Type e)), (''Name'', VStr (te_Name e)), (''Path'', VStr (te_Path e))]"

definition page_value :: "pageData \<Rightarrow> tvalue" where
  "page_value p = VStruct [(''Title'', VStr (pg_Title p)), (''Repo'', VStr (pg_Repo p)), (''RenderMode'', VStr (pg_RenderMode p)),
     (''Version'', VStr (pg_Version p)), (''Body'', VHtml (pg_Body p))]"

fun frag_value :: "fragment \<Rightarrow> tvalue" where
  "frag_value (Repolist names) = VStruct [(''Repos'', VList (map (\<lambda>n. VStruct [(''Name'', VStr n)]) names))]"
| "frag_value (Refbar d) = VStruct [(''Repo'', VStr (rb_Repo d)), (''Ref'', VStr (rb_Ref d)), (''Refs'', VList (map VStr (rb_Refs d))), (''Tab'', VStr (rb_Tab d))]"
| "frag_value (Commitlist d) = VStruct [(''Repo'', VStr (cl_Repo d)), (''Ref'', VStr (cl_Ref d)), (''Commits'', VList (map commit_value (cl_Commits d))),
     (''Page'', VInt (cl_Page d)), (''HasNext'', VBool (cl_HasNext d))]"
| "frag_value (TreeList d) = VStruct [(''Repo'', VStr (td_Repo d)), (''Ref'', VStr (td_Ref d)), (''Path'', VStr (td_Path d)),
     (''Entries'', VList (map entry_value (td_Entries d))), (''HasPath'', VBool (td_HasPath d))]"
| "frag_value (Readme d) = VStruct [(''Repo'', VStr (rm_Repo d)), (''Ref'', VStr (rm_Ref d)), (''Name'', VStr (rm_Name d)), (''Body'', VHtml (rm_Body d)),
     (''RawMarkdown'', VStr (rm_RawMarkdown d)), (''IsMarkdown'', VBool (rm_IsMarkdown d)), (''Truncated'', VBool (rm_Truncated d)),
     (''RenderMode'', VStr (rm_RenderMode d)), (''SourceURL'', VStr (rm_SourceURL d))]"
| "frag_value (Blob d) = VStruct [(''Repo'', VStr (bl_Repo d)), (''Ref'', VStr (bl_Ref d)), (''Path'', VStr (bl_Path d)), (''RawMarkdown'', VStr (bl_RawMarkdown d)),
     (''Body'', VHtml (bl_Body d)), (''IsMarkdown'', VBool (bl_IsMarkdown d)), (''Truncated'', VBool (bl_Truncated d)), (''RenderMode'', VStr (bl_RenderMode d)),
     (''RawURL'', VStr (bl_RawURL d)), (''Highlighted'', VBool (bl_Highlighted d)), (''Lang'', VStr (bl_Lang d))]"
| "frag_value (Diff d) = VStruct [(''Repo'', VStr (df_Repo d)), (''Commit'', VStr (df_Commit d)), (''Body'', VHtml (df_Body d)),
     (''Truncated'', VBool (df_Truncated d)), (''RawURL'', VStr (df_RawURL d))]"
| "frag_value (Empty r) = VStruct [(''Repo'', VStr r)]"

fun fragTmpl :: "fragment \<Rightarrow> node" where
  "fragTmpl (Repolist _) = repolist_template"
| "fragTmpl (Refbar _) = refbar_template"
| "fragTmpl (Commitlist _) = commitlist_template"
| "fragTmpl (TreeList _) = tree_template"
| "fragTmpl (Readme _) = readme_template"
| "fragTmpl (Blob _) = blob_template"
| "fragTmpl (Diff _) = diff_template"
| "fragTmpl (Empty _) = empty_template"

definition ExecuteTemplate :: "fragment \<Rightarrow> piece list result" where
  "ExecuteTemplate f = Execute fragFuncs (fragTmpl f) (frag_value f)"

definition frag :: "fragment \<Rightarrow> string" where
  "frag f = (case ExecuteTemplate f of Inl e \<Rightarrow> htmlEscape (''template error: '' @ err_text e) | Inr ps \<Rightarrow> text_of ps)"

definition layout_Execute :: "pageData \<Rightarrow> bytes result" where
  "layout_Execute p = (case Execute no_funcs layout_template (page_value p) of Inl e \<Rightarrow> Fail e | Inr ps \<Rightarrow> Ok (text_of ps))"

section \<open>The templates fit their data\<close>

fun fragSig :: signature where
  "fragSig f [TInt, TInt] = (if f = ''add'' \<or> f = ''sub'' then Some TInt else None)"
| "fragSig f [TStr] = (if f = ''parent'' then Some TStr else None)"
| "fragSig f ts = None"

abbreviation no_sig :: signature where "no_sig \<equiv> \<lambda>f ts. None"

interpretation frag_functions: template_functions fragSig fragFuncs
proof
  fix f ts t vs
  assume "fragSig f ts = Some t" "list_all2 has_type ts vs"
  then show "\<exists>v. fragFuncs f vs = Some v \<and> has_type t v"
    by (cases "(f, ts)" rule: fragSig.cases) (auto simp: list_all2_Cons1 split: if_splits)
qed

interpretation layout_functions: template_functions no_sig no_funcs
  by unfold_locales simp

text \<open>The struct types of the sources.\<close>

definition commit_type :: ty where
  "commit_type = TStruct [(''Hash'', TStr), (''Short'', TStr), (''Author'', TStr), (''Date'', TStr), (''Msg'', TStr)]"

definition entry_type :: ty where
  "entry_type = TStruct [(''Type'', TStr), (''Name'', TStr), (''Path'', TStr)]"

definition page_type :: ty where
  "page_type = TStruct [(''Title'', TStr), (''Repo'', TStr), (''RenderMode'', TStr), (''Version'', TStr), (''Body'', THtml)]"

fun frag_type :: "fragment \<Rightarrow> ty" where
  "frag_type (Repolist _) = TStruct [(''Repos'', TList (TStruct [(''Name'', TStr)]))]"
| "frag_type (Refbar _) = TStruct [(''Repo'', TStr), (''Ref'', TStr), (''Refs'', TList TStr), (''Tab'', TStr)]"
| "frag_type (Commitlist _) = TStruct [(''Repo'', TStr), (''Ref'', TStr), (''Commits'', TList commit_type), (''Page'', TInt), (''HasNext'', TBool)]"
| "frag_type (TreeList _) = TStruct [(''Repo'', TStr), (''Ref'', TStr), (''Path'', TStr), (''Entries'', TList entry_type), (''HasPath'', TBool)]"
| "frag_type (Readme _) = TStruct [(''Repo'', TStr), (''Ref'', TStr), (''Name'', TStr), (''Body'', THtml), (''RawMarkdown'', TStr), (''IsMarkdown'', TBool),
     (''Truncated'', TBool), (''RenderMode'', TStr), (''SourceURL'', TStr)]"
| "frag_type (Blob _) = TStruct [(''Repo'', TStr), (''Ref'', TStr), (''Path'', TStr), (''RawMarkdown'', TStr), (''Body'', THtml), (''IsMarkdown'', TBool),
     (''Truncated'', TBool), (''RenderMode'', TStr), (''RawURL'', TStr), (''Highlighted'', TBool), (''Lang'', TStr)]"
| "frag_type (Diff _) = TStruct [(''Repo'', TStr), (''Commit'', TStr), (''Body'', THtml), (''Truncated'', TBool), (''RawURL'', TStr)]"
| "frag_type (Empty _) = TStruct [(''Repo'', TStr)]"

lemma commit_typed: "has_type commit_type (commit_value c)"
  by (simp add: commit_type_def commit_value_def)

lemma entry_typed: "has_type entry_type (entry_value e)"
  by (simp add: entry_type_def entry_value_def)

lemma page_typed: "has_type page_type (page_value p)"
  by (simp add: page_type_def page_value_def)

lemma frag_typed: "has_type (frag_type f) (frag_value f)"
  by (cases f) (simp_all add: list_all_iff commit_typed entry_typed)

lemma layout_fits: "fits no_sig layout_template page_type"
  by code_simp

lemma frag_fits: "fits fragSig (fragTmpl f) (frag_type f)"
  by (cases f; simp only: fragTmpl.simps frag_type.simps; code_simp)

text \<open>No fragment fails: what \<open>frag\<close> returns is always the output of the template.\<close>

lemma frag_pieces:
  obtains ps where "ExecuteTemplate f = Ok ps" "frag f = text_of ps"
  using frag_functions.Execute_total [OF frag_fits frag_typed] by (force simp: ExecuteTemplate_def frag_def)

lemma layout_pieces:
  obtains ps where "Execute no_funcs layout_template (page_value p) = Ok ps" "layout_Execute p = Ok (text_of ps)"
  using layout_functions.Execute_total [OF layout_fits page_typed] by (force simp: layout_Execute_def)

end
