(* ===== verification/Browse.thy ===== *)
theory Browse
  imports Repo Gitenv Serve Pages
begin

text \<open>
  \<open>internal/browse\<close>: the read-only web interface. Paths and hosts, the git calls, the parsers of their
  output, the escaping, the pages with every error path, the middlewares, the router and the static
  assets; the templates are in \<open>Pages\<close>. Markdown (goldmark), the lexers (chroma), SHA-256 and \<open>strconv.Quote\<close> are
  parameters, collected in records. A request carries its clean, decoded URL path, no segment of which
  has an escaped slash.
\<close>

section \<open>Paths and hosts\<close>

abbreviation errBadPath :: string where "errBadPath \<equiv> ''invalid path''"

abbreviation maxRenderBytes :: nat where "maxRenderBytes \<equiv> 256 * 1024"
abbreviation pageSizeCommits :: int where "pageSizeCommits \<equiv> 50"

text \<open>The part of \<open>strings.Contains\<close> that is used.\<close>

fun contains :: "string \<Rightarrow> string \<Rightarrow> bool" where
  "contains [] sub = (sub = [])"
| "contains (c # s) sub = (HasPrefix (c # s) sub \<or> contains s sub)"

definition cleanRepoPath :: "string \<Rightarrow> string result" where
  "cleanRepoPath p =
     (if p = [] then Ok []
      else let clean = Clean (TrimPrefix p ''/'') in
        if clean = ''.'' then Ok []
        else if clean = ''..'' \<or> HasPrefix clean ''../'' \<or> contains clean ''/../''
        then Fail (Wrapf ''%w: path escapes repo'' [] (Sentinel errBadPath))
        else Ok clean)"

definition index_bracket_colon :: "string \<Rightarrow> nat option" where
  "index_bracket_colon s = List.find (\<lambda>i. HasPrefix (drop i s) '']:'') [0..<length s]"

definition normalizeHost :: "string \<Rightarrow> string" where
  "normalizeHost host0 =
     (let host = ToLower (TrimSpace host0) in
      TrimSuffix
        (case LastIndex_char (CHR '':'') host of
           None \<Rightarrow> host
         | Some i \<Rightarrow>
             if CHR '']'' \<in> set (drop i host) then host
             else if HasPrefix host ''['' then
               (case index_bracket_colon host of None \<Rightarrow> host | Some j \<Rightarrow> take (Suc j) host)
             else take i host)
        ''.'')"

definition splitHostPort :: "string \<Rightarrow> string \<times> string" where
  "splitHostPort addr =
     (case LastIndex_char (CHR '':'') addr of
        None \<Rightarrow> (addr, [])
      | Some i \<Rightarrow>
          (case (if HasPrefix addr ''['' then index_bracket_colon addr else None) of
             Some j \<Rightarrow> (drop 1 (take j addr), drop (j + 2) addr)
           | None \<Rightarrow> (take i addr, drop (Suc i) addr)))"

definition fileBase :: "string \<Rightarrow> string" where
  "fileBase p = (case LastIndex_char slash p of None \<Rightarrow> p | Some i \<Rightarrow> drop (Suc i) p)"

section \<open>Parsing what git prints\<close>

fun parseCommits :: "string list \<Rightarrow> commitItem list" where
  "parseCommits [] = []"
| "parseCommits (line # ls) =
     (if line = [] then parseCommits ls
      else case split_on nul_char line of
        a # b # c # d # e # _ \<Rightarrow> \<lparr>ci_Hash = a, ci_Short = b, ci_Author = c, ci_Date = d, ci_Msg = e\<rparr> # parseCommits ls
      | _ \<Rightarrow> parseCommits ls)"

fun parseTree :: "string \<Rightarrow> string list \<Rightarrow> treeEntry list" where
  "parseTree base [] = []"
| "parseTree base (line # ls) =
     (case cut_at tab_char line of
        None \<Rightarrow> parseTree base ls
      | Some (meta, name) \<Rightarrow>
          (case Fields meta of
             _ # typ # _ \<Rightarrow>
               \<lparr>te_Type = typ, te_Name = name, te_Path = (if base = [] then name else base @ ''/'' @ name)\<rparr> # parseTree base ls
           | _ \<Rightarrow> parseTree base ls))"

definition splitNul :: "bytes \<Rightarrow> string list" where
  "splitNul b = filter (\<lambda>s. s \<noteq> []) (split_on nul_char b)"

definition diff_class :: "string \<Rightarrow> string" where
  "diff_class line =
     (if HasPrefix line ''+'' then ''add''
      else if HasPrefix line ''-'' then ''del''
      else if HasPrefix line ''@@'' \<or> HasPrefix line ''diff '' \<or> HasPrefix line ''index '' \<or> HasPrefix line ''---'' \<or> HasPrefix line ''+++''
      then ''meta''
      else [])"

definition diff_line :: "string \<Rightarrow> string" where
  "diff_line line =
     (let cls = diff_class line in
      (if cls \<noteq> [] then ''<span class='' @ [dquote_char] @ cls @ [dquote_char] @ ''>'' @ htmlEscape line @ ''</span>'' else htmlEscape line)
      @ [newline_char])"

definition trim_newlines :: "string \<Rightarrow> string" where
  "trim_newlines s = rev (dropWhile (\<lambda>c. c = newline_char) (rev s))"

definition highlightDiff :: "bytes \<Rightarrow> string" where
  "highlightDiff data = concat (map diff_line (split_on newline_char (trim_newlines data)))"

section \<open>Git calls\<close>

record Handler =
  bh_reposRoot :: string
  bh_git :: Runner
  bh_render :: string
  bh_serve :: ServeProc
  hostAllowlist :: "string list"

definition repoDir :: "Handler \<Rightarrow> string \<Rightarrow> string result io" where
  "repoDir h name =
     (if \<not> ValidName name then return (Fail (Wrapf ''%w: invalid repo name'' [] (Sentinel errBadPath)))
      else do {
        r \<leftarrow> RealpathUnder (bh_reposRoot h) (Join [bh_reposRoot h, name @ ''.git'']);
        return (case r of Inl e \<Rightarrow> Fail (Wrapf ''%w: %v'' [err_text e] (Sentinel errBadPath)) | Inr resolved \<Rightarrow> Ok resolved)
      })"

definition hasRef :: "git_prog \<Rightarrow> Handler \<Rightarrow> string \<Rightarrow> bool result io" where
  "hasRef git h dir = do {
     r \<leftarrow> RunIn git (bh_git h) dir [''for-each-ref'', ''--format=%(refname)''];
     return (case r of Inl e \<Rightarrow> Fail (Wrapf ''enumerate refs: %w'' [] e) | Inr output \<Rightarrow> Ok (TrimSpace output \<noteq> []))
   }"

definition browse_refs :: "git_prog \<Rightarrow> Handler \<Rightarrow> string \<Rightarrow> string list result io" where
  "browse_refs git h dir = do {
     r \<leftarrow> RunIn git (bh_git h) dir [''for-each-ref'', ''--format=%(refname:short)'', ''refs/heads'', ''refs/tags''];
     return (case r of
        Inl e \<Rightarrow> Fail (Wrapf ''list refs: %w'' [] e)
      | Inr output \<Rightarrow> Ok (filter (\<lambda>l. l \<noteq> []) (split_on newline_char (TrimSpace output))))
   }"

definition defaultRef :: "git_prog \<Rightarrow> Handler \<Rightarrow> string \<Rightarrow> string result io" where
  "defaultRef git h dir = do {
     r \<leftarrow> RunIn git (bh_git h) dir [''symbolic-ref'', ''--short'', ''HEAD''];
     case r of
       Inl e \<Rightarrow> return (Ok ''main'')
     | Inr output \<Rightarrow> let ref = TrimSpace output in do {
         rv \<leftarrow> RunIn git (bh_git h) dir [''rev-parse'', ''--verify'', ''--quiet'', ref];
         if (case rv of Inl e \<Rightarrow> True | Inr resolved \<Rightarrow> TrimSpace resolved = []) then do {
           rr \<leftarrow> browse_refs git h dir;
           return (Ok (case rr of Inr (x # _) \<Rightarrow> x | _ \<Rightarrow> ''main''))
         } else return (Ok ref) }
   }"

definition commitLog :: "git_prog \<Rightarrow> Handler \<Rightarrow> string \<Rightarrow> string \<Rightarrow> int \<Rightarrow> string list result io" where
  "commitLog git h dir ref skip = do {
     r \<leftarrow> RunIn git (bh_git h) dir
       [''log'', ''--format=%H%x00%h%x00%an%x00%ad%x00%s'', ''--date=short'', ''--skip'', show_int skip, ''-'' @ show_int pageSizeCommits, ref];
     return (case r of
        Inl e \<Rightarrow> Fail (Wrapf ''commit log: %w'' [] e)
      | Inr output \<Rightarrow> Ok (split_on newline_char (TrimSpace output)))
   }"

definition treeEntries :: "git_prog \<Rightarrow> Handler \<Rightarrow> string \<Rightarrow> string \<Rightarrow> string \<Rightarrow> string list result io" where
  "treeEntries git h dir ref path = do {
     r \<leftarrow> RunIn git (bh_git h) dir [''ls-tree'', ''-z'', if path = [] then ref else ref @ '':'' @ path];
     return (case r of Inl e \<Rightarrow> Fail (Wrapf ''list tree: %w'' [] e) | Inr output \<Rightarrow> Ok (splitNul output))
   }"

definition blobAt :: "git_prog \<Rightarrow> Handler \<Rightarrow> string \<Rightarrow> string \<Rightarrow> string \<Rightarrow> bytes result io" where
  "blobAt git h dir ref path = RunIn git (bh_git h) dir [''show'', ref @ '':'' @ path]"

definition diffOf :: "git_prog \<Rightarrow> Handler \<Rightarrow> string \<Rightarrow> string \<Rightarrow> (bytes \<times> bool) result io" where
  "diffOf git h dir commit = do {
     r \<leftarrow> RunIn git (bh_git h) dir [''show'', ''--format=fuller'', ''--stat'', ''--patch'', commit];
     return (case r of Inl e \<Rightarrow> Fail (Wrapf ''commit diff: %w'' [] e) | Inr output \<Rightarrow> Ok (output, maxRenderBytes < length output))
   }"

section \<open>What the pages rest on\<close>

text \<open>
  The libraries the pages rest on: a lexer is known by its name, a token is its type and its text, and
  \<open>wb_Format\<close> is the blob formatter with the style of the pages; \<open>wb_version\<close> is the version stamped at link time.
\<close>

record Web =
  wb_Convert :: "bytes \<Rightarrow> bytes result"
  wb_lexer_Get :: "string \<Rightarrow> string option"
  wb_lexer_Analyse :: "bytes \<Rightarrow> string option"
  wb_Tokenise :: "string \<Rightarrow> bytes \<Rightarrow> (string \<times> string) list result"
  wb_Format :: "(string \<times> string) list \<Rightarrow> string result"
  wb_Quote :: "string \<Rightarrow> string"
  wb_version :: string

text \<open>Every page carries the version in its footer.\<close>

definition renderPage :: "Web \<Rightarrow> pageData \<Rightarrow> bytes result" where
  "renderPage wb p = layout_Execute (p\<lparr>pg_Version := wb_version wb\<rparr>)"

definition renderMarkdownServer :: "Web \<Rightarrow> bytes \<Rightarrow> bytes result" where
  "renderMarkdownServer wb src =
     (case wb_Convert wb src of Inl e \<Rightarrow> Fail (Wrapf ''render markdown: %w'' [] e) | Inr x \<Rightarrow> Ok (take maxRenderBytes x))"

section \<open>Readme and blobs\<close>

definition readmeNames :: "string list" where
  "readmeNames = [''README.md'', ''README'', ''readme.md'', ''Readme.md'']"

definition entry_name :: "string \<Rightarrow> string" where
  "entry_name entry = (case cut_at tab_char entry of None \<Rightarrow> entry | Some (_, n) \<Rightarrow> n)"

fun readme_in :: "string list \<Rightarrow> string option" where
  "readme_in [] = None"
| "readme_in (e # es) = (if entry_name e \<in> set readmeNames then Some (entry_name e) else readme_in es)"

definition findReadme :: "git_prog \<Rightarrow> Handler \<Rightarrow> string \<Rightarrow> string \<Rightarrow> (string \<times> bytes) option result io" where
  "findReadme git h dir ref = do {
     r \<leftarrow> treeEntries git h dir ref [];
     case r of
       Inl e \<Rightarrow> return (Fail e)
     | Inr entries \<Rightarrow>
         (case readme_in entries of
            None \<Rightarrow> return (Ok None)
          | Some n \<Rightarrow> do {
              rd \<leftarrow> blobAt git h dir ref n;
              return (case rd of Inl e \<Rightarrow> Fail (Wrapf ''read README: %w'' [] e) | Inr data \<Rightarrow> Ok (Some (n, data))) })
   }"

record readmeResult =
  rr_name :: string
  rr_rendered :: bytes
  rr_truncated :: bool
  rr_isMarkdown :: bool

definition is_markdown :: "string \<Rightarrow> bool" where
  "is_markdown name \<longleftrightarrow> HasSuffix (ToLower name) ''.md''"

definition renderReadme :: "Web \<Rightarrow> git_prog \<Rightarrow> Handler \<Rightarrow> string \<Rightarrow> string \<Rightarrow> readmeResult option result io" where
  "renderReadme wb git h dir ref = do {
     r \<leftarrow> findReadme git h dir ref;
     return (case r of
        Inl e \<Rightarrow> Fail e
      | Inr None \<Rightarrow> Ok None
      | Inr (Some (name, data0)) \<Rightarrow>
          (let truncated = (maxRenderBytes < length data0); data = take maxRenderBytes data0; md = is_markdown name;
               res = (\<lambda>rendered. Ok (Some \<lparr>rr_name = name, rr_rendered = rendered, rr_truncated = truncated, rr_isMarkdown = md\<rparr>)) in
           if bh_render h = ''server'' then
             (if md then (case renderMarkdownServer wb data of Inl e \<Rightarrow> Fail e | Inr x \<Rightarrow> res x) else res (htmlEscape data))
           else if bh_render h = ''client'' then res data
           else res (htmlEscape data)))
   }"

definition isBinary :: "bytes \<Rightarrow> bool" where
  "isBinary data \<longleftrightarrow> nul_char \<in> set (take 8000 data)"

text \<open>The number of runes of a string; an invalid byte counts as one.\<close>

function rune_count :: "string \<Rightarrow> nat" where
  "rune_count s = (if s = [] then 0 else Suc (rune_count (drop (rune_len s) s)))"
  by pat_completeness auto
termination
proof (relation "measure length")
  fix s :: string
  assume "s \<noteq> []"
  then show "(drop (rune_len s) s, s) \<in> measure length" by (simp add: rune_len_def)
qed simp

declare rune_count.simps [simp del]

definition hasPathologicalLine :: "bytes \<Rightarrow> bool" where
  "hasPathologicalLine data = list_ex (\<lambda>line. 10000 < rune_count line) (split_on newline_char data)"

definition resolveBlobLexer :: "Web \<Rightarrow> string \<Rightarrow> bytes \<Rightarrow> string option" where
  "resolveBlobLexer wb path data =
     (if isBinary data then None
      else if hasPathologicalLine data then None
      else case wb_lexer_Get wb (Base path) of Some l \<Rightarrow> Some l | None \<Rightarrow> wb_lexer_Analyse wb data)"

definition highlightBlobServer :: "Web \<Rightarrow> string \<Rightarrow> bytes \<Rightarrow> string result" where
  "highlightBlobServer wb lexer data = (case wb_Tokenise wb lexer data of Inl e \<Rightarrow> Fail e | Inr it \<Rightarrow> wb_Format wb it)"

text \<open>The body of a blob page, whether it is a highlighted block, and the language hint.\<close>

definition blob_body :: "Web \<Rightarrow> Handler \<Rightarrow> string \<Rightarrow> bytes \<Rightarrow> (string \<times> bool \<times> string) result" where
  "blob_body wb h tp data =
     (if is_markdown tp then
        (if bh_render h = ''server'' then (case renderMarkdownServer wb data of Inl e \<Rightarrow> Fail e | Inr x \<Rightarrow> Ok (x, False, []))
         else Ok (htmlEscape data, False, []))
      else case resolveBlobLexer wb tp data of
        None \<Rightarrow> Ok (htmlEscape data, False, [])
      | Some l \<Rightarrow>
          if bh_render h = ''server'' then (case highlightBlobServer wb l data of Inl e \<Rightarrow> Fail e | Inr x \<Rightarrow> Ok (x, True, []))
          else if bh_render h = ''client'' then Ok (htmlEscape data, False, ToLower l)
          else Ok (htmlEscape data, False, []))"

section \<open>Requests and responses\<close>

record BrowseRequest =
  br_Method :: string
  br_Host :: string
  br_Path :: string
  br_Query :: "(string \<times> string) list"
  br_RemoteAddr :: string
  br_PeerCN :: "string option"
  br_Body :: bytes

record Response =
  rs_Status :: int
  rs_Headers :: "(string \<times> string) list"
  rs_Body :: bytes

definition query_Get :: "BrowseRequest \<Rightarrow> string \<Rightarrow> string" where
  "query_Get r k = (case map_of (br_Query r) k of None \<Rightarrow> [] | Some v \<Rightarrow> v)"

definition error_response :: "string \<Rightarrow> int \<Rightarrow> Response" where
  "error_response msg status =
     \<lparr>rs_Status = status, rs_Headers = [(''Content-Type'', ''text/plain; charset=utf-8''), (''X-Content-Type-Options'', ''nosniff'')],
      rs_Body = msg @ [newline_char]\<rparr>"

definition writeErr :: "gerror \<Rightarrow> Response" where
  "writeErr e =
     (if errors_Is e ErrBusy then error_response ''busy'' 503
      else if errors_Is e ErrShuttingDown then error_response ''shutting down'' 503
      else if errors_Is e errBadPath then error_response ''not found'' 404
      else error_response (err_text e) 500)"

definition writeHTML :: "bytes \<Rightarrow> Response" where
  "writeHTML body = \<lparr>rs_Status = 200, rs_Headers = [(''Content-Type'', ''text/html; charset=utf-8'')], rs_Body = body\<rparr>"

definition html_reply :: "bytes result \<Rightarrow> Response" where
  "html_reply r = (case r of Inl e \<Rightarrow> writeErr e | Inr body \<Rightarrow> writeHTML body)"

text \<open>
  A render action: refused by the channel, or run by the worker; \<open>gone\<close> says that the client left before
  the answer.
\<close>

definition renderAction :: "Submission \<Rightarrow> bool \<Rightarrow> 'a result io \<Rightarrow> 'a result io" where
  "renderAction sub gone fn =
     (case sub of
        NotQueued e \<Rightarrow> return (Fail e)
      | Queued \<Rightarrow> do { r \<leftarrow> fn; return (if gone then Fail (Sentinel ''context canceled'') else r) })"

definition with_ref :: "git_prog \<Rightarrow> Handler \<Rightarrow> string \<Rightarrow> string \<Rightarrow> (string \<Rightarrow> 'a result io) \<Rightarrow> 'a result io" where
  "with_ref git h dir ref k =
     (if ref \<noteq> [] then k ref
      else do { r \<leftarrow> defaultRef git h dir; case r of Inl e \<Rightarrow> return (Fail e) | Inr d \<Rightarrow> k d })"

text \<open>The value of \<open>strconv.Atoi\<close> when its error is ignored: 0 for no number, the nearest \<open>int\<close> when out of range.\<close>

definition Atoi_value :: "string \<Rightarrow> int" where
  "Atoi_value s =
     (let neg = (s \<noteq> [] \<and> hd s = CHR ''-''); ds = (if neg \<or> (s \<noteq> [] \<and> hd s = CHR ''+'') then tl s else s);
          v = (if neg then - int (dec_value ds) else int (dec_value ds)) in
      if ds = [] \<or> \<not> list_all is_digit ds then 0 else max (- (2 ^ 63)) (min (2 ^ 63 - 1) v))"

section \<open>Pages\<close>

definition page_of :: "Handler \<Rightarrow> string \<Rightarrow> string \<Rightarrow> string \<Rightarrow> pageData" where
  "page_of h title name body = \<lparr>pg_Title = title, pg_Repo = name, pg_RenderMode = bh_render h, pg_Version = [], pg_Body = body\<rparr>"

text \<open>The middle dot of the page titles.\<close>

abbreviation middot :: string where "middot \<equiv> '' '' @ [CHR 0xC2, CHR 0xB7] @ '' ''"

text \<open>Every handler of a repository page starts with \<open>resolveRepo\<close>, whose failure is the answer.\<close>

definition resolveRepo :: "Handler \<Rightarrow> string \<Rightarrow> (string \<Rightarrow> Response io) \<Rightarrow> Response io" where
  "resolveRepo h name k = do {
     r \<leftarrow> repoDir h name;
     case r of Inl e \<Rightarrow> return (writeErr e) | Inr dir \<Rightarrow> k dir
   }"

definition handleRepoIndex :: "Web \<Rightarrow> Handler \<Rightarrow> Submission \<Rightarrow> bool \<Rightarrow> BrowseRequest \<Rightarrow> Response io" where
  "handleRepoIndex wb h sub gone r =
     (if br_Path r \<noteq> ''/'' then return (error_response ''404 page not found'' 404)
      else do {
        x \<leftarrow> renderAction sub gone (do {
          rn \<leftarrow> ListBare (bh_reposRoot h);
          return (case rn of
             Inl e \<Rightarrow> Fail e
           | Inr names \<Rightarrow> renderPage wb
               \<lparr>pg_Title = ''git.cmposer.cc'', pg_Repo = [], pg_RenderMode = [], pg_Version = [], pg_Body = frag (Repolist names)\<rparr>)
        });
        return (html_reply x) })"

definition readme_fragment :: "Web \<Rightarrow> Handler \<Rightarrow> string \<Rightarrow> string \<Rightarrow> readmeResult option \<Rightarrow> string" where
  "readme_fragment wb h name ref rd =
     (case rd of
        None \<Rightarrow> []
      | Some x \<Rightarrow> frag (Readme
          \<lparr>rm_Repo = name, rm_Ref = ref, rm_Name = rr_name x, rm_Body = rr_rendered x, rm_RawMarkdown = rr_rendered x,
           rm_IsMarkdown = rr_isMarkdown x, rm_Truncated = rr_truncated x, rm_RenderMode = bh_render h,
           rm_SourceURL = ''/'' @ name @ ''/raw?ref='' @ ref @ ''&path='' @ rr_name x\<rparr>))"

definition home_page :: "Web \<Rightarrow> git_prog \<Rightarrow> Handler \<Rightarrow> string \<Rightarrow> string \<Rightarrow> string \<Rightarrow> bytes result io" where
  "home_page wb git h dir name ref = do {
     rr \<leftarrow> browse_refs git h dir;
     case rr of Inl e \<Rightarrow> return (Fail e) | Inr refs \<Rightarrow> do {
       rc \<leftarrow> commitLog git h dir ref 0;
       case rc of Inl e \<Rightarrow> return (Fail e) | Inr commits \<Rightarrow> do {
         rd \<leftarrow> renderReadme wb git h dir ref;
         case rd of Inl e \<Rightarrow> return (Fail e) | Inr readme \<Rightarrow> do {
           rt \<leftarrow> treeEntries git h dir ref [];
           return (case rt of Inl e \<Rightarrow> Fail e | Inr entries \<Rightarrow>
             renderPage wb (page_of h name name
               (''<div class='' @ [dquote_char] @ ''repo-home'' @ [dquote_char] @ ''><h1>'' @ htmlEscape name @ ''</h1>''
                @ frag (Refbar \<lparr>rb_Repo = name, rb_Ref = ref, rb_Refs = refs, rb_Tab = ''home''\<rparr>)
                @ frag (Commitlist \<lparr>cl_Repo = name, cl_Ref = ref, cl_Commits = parseCommits commits, cl_Page = 0, cl_HasNext = False\<rparr>)
                @ readme_fragment wb h name ref readme
                @ frag (TreeList \<lparr>td_Repo = name, td_Ref = ref, td_Path = [], td_Entries = parseTree [] entries, td_HasPath = False\<rparr>)
                @ ''</div>''))) } } } }"

definition handleRepoHome :: "Web \<Rightarrow> git_prog \<Rightarrow> Handler \<Rightarrow> Submission \<Rightarrow> bool \<Rightarrow> string \<Rightarrow> BrowseRequest \<Rightarrow> Response io" where
  "handleRepoHome wb git h sub gone name r = resolveRepo h name (\<lambda>dir. do {
     x \<leftarrow> renderAction sub gone (do {
       rh \<leftarrow> hasRef git h dir;
       case rh of
         Inl e \<Rightarrow> return (Fail e)
       | Inr any \<Rightarrow>
           if \<not> any then return (renderPage wb (page_of h name name (frag (Empty name))))
           else with_ref git h dir (query_Get r ''ref'') (home_page wb git h dir name) });
     return (html_reply x) })"

definition log_page :: "Web \<Rightarrow> git_prog \<Rightarrow> Handler \<Rightarrow> string \<Rightarrow> string \<Rightarrow> int \<Rightarrow> string \<Rightarrow> bytes result io" where
  "log_page wb git h dir name page ref = do {
     rr \<leftarrow> browse_refs git h dir;
     case rr of Inl e \<Rightarrow> return (Fail e) | Inr refs \<Rightarrow> do {
       rc \<leftarrow> commitLog git h dir ref (wrap64 (page * pageSizeCommits));
       return (case rc of Inl e \<Rightarrow> Fail e | Inr commits \<Rightarrow>
         (let items = parseCommits commits in
          renderPage wb (page_of h (name @ middot @ ''log'') name
            (frag (Refbar \<lparr>rb_Repo = name, rb_Ref = ref, rb_Refs = refs, rb_Tab = ''log''\<rparr>)
             @ frag (Commitlist \<lparr>cl_Repo = name, cl_Ref = ref, cl_Commits = items, cl_Page = page,
                 cl_HasNext = (int (length items) = pageSizeCommits)\<rparr>))))) } }"

definition handleLog :: "Web \<Rightarrow> git_prog \<Rightarrow> Handler \<Rightarrow> Submission \<Rightarrow> bool \<Rightarrow> string \<Rightarrow> BrowseRequest \<Rightarrow> Response io" where
  "handleLog wb git h sub gone name r = resolveRepo h name (\<lambda>dir. do {
     x \<leftarrow> renderAction sub gone
       (with_ref git h dir (query_Get r ''ref'') (log_page wb git h dir name (max 0 (Atoi_value (query_Get r ''page'')))));
     return (html_reply x) })"

definition tree_page :: "Web \<Rightarrow> git_prog \<Rightarrow> Handler \<Rightarrow> string \<Rightarrow> string \<Rightarrow> string \<Rightarrow> string \<Rightarrow> bytes result io" where
  "tree_page wb git h dir name tp ref = do {
     rr \<leftarrow> browse_refs git h dir;
     case rr of Inl e \<Rightarrow> return (Fail e) | Inr refs \<Rightarrow> do {
       rt \<leftarrow> treeEntries git h dir ref tp;
       return (case rt of Inl e \<Rightarrow> Fail e | Inr entries \<Rightarrow>
         renderPage wb (page_of h (name @ middot @ ''tree'') name
           (frag (Refbar \<lparr>rb_Repo = name, rb_Ref = ref, rb_Refs = refs, rb_Tab = ''tree''\<rparr>)
            @ frag (TreeList \<lparr>td_Repo = name, td_Ref = ref, td_Path = tp, td_Entries = parseTree tp entries, td_HasPath = (tp \<noteq> [])\<rparr>)))) } }"

definition handleTree :: "Web \<Rightarrow> git_prog \<Rightarrow> Handler \<Rightarrow> Submission \<Rightarrow> bool \<Rightarrow> string \<Rightarrow> BrowseRequest \<Rightarrow> Response io" where
  "handleTree wb git h sub gone name r = resolveRepo h name (\<lambda>dir.
     case cleanRepoPath (query_Get r ''path'') of
       Inl e \<Rightarrow> return (writeErr e)
     | Inr tp \<Rightarrow> do {
         x \<leftarrow> renderAction sub gone (with_ref git h dir (query_Get r ''ref'') (tree_page wb git h dir name tp));
         return (html_reply x) })"

definition blob_page :: "Web \<Rightarrow> git_prog \<Rightarrow> Handler \<Rightarrow> string \<Rightarrow> string \<Rightarrow> string \<Rightarrow> string \<Rightarrow> bytes result io" where
  "blob_page wb git h dir name tp ref = do {
     rd \<leftarrow> blobAt git h dir ref tp;
     return (case rd of
        Inl e \<Rightarrow> Fail e
      | Inr data0 \<Rightarrow>
          (let data = take maxRenderBytes data0 in
           case blob_body wb h tp data of
             Inl e \<Rightarrow> Fail e
           | Inr (body, highlighted, lang) \<Rightarrow>
               renderPage wb (page_of h (name @ middot @ tp) name (frag (Blob
                 \<lparr>bl_Repo = name, bl_Ref = ref, bl_Path = tp, bl_RawMarkdown = data, bl_Body = body, bl_IsMarkdown = is_markdown tp,
                  bl_Truncated = (maxRenderBytes < length data0), bl_RenderMode = bh_render h,
                  bl_RawURL = ''/'' @ name @ ''/raw?ref='' @ ref @ ''&path='' @ tp, bl_Highlighted = highlighted, bl_Lang = lang\<rparr>)))))
   }"

definition handleBlob :: "Web \<Rightarrow> git_prog \<Rightarrow> Handler \<Rightarrow> Submission \<Rightarrow> bool \<Rightarrow> string \<Rightarrow> BrowseRequest \<Rightarrow> Response io" where
  "handleBlob wb git h sub gone name r = resolveRepo h name (\<lambda>dir.
     case cleanRepoPath (query_Get r ''path'') of
       Inl e \<Rightarrow> return (writeErr e)
     | Inr tp \<Rightarrow>
         if tp = [] then return (writeErr (Sentinel errBadPath))
         else do {
           x \<leftarrow> renderAction sub gone (with_ref git h dir (query_Get r ''ref'') (blob_page wb git h dir name tp));
           return (html_reply x) })"

definition attachment :: "Web \<Rightarrow> string \<Rightarrow> string \<Rightarrow> bytes \<Rightarrow> Response" where
  "attachment wb file type data =
     \<lparr>rs_Status = 200, rs_Headers = [(''Content-Disposition'', ''attachment; filename='' @ wb_Quote wb file), (''Content-Type'', type)], rs_Body = data\<rparr>"

definition handleRaw :: "Web \<Rightarrow> git_prog \<Rightarrow> Handler \<Rightarrow> Submission \<Rightarrow> bool \<Rightarrow> string \<Rightarrow> BrowseRequest \<Rightarrow> Response io" where
  "handleRaw wb git h sub gone name r = resolveRepo h name (\<lambda>dir.
     case cleanRepoPath (query_Get r ''path'') of
       Inl e \<Rightarrow> return (writeErr e)
     | Inr tp \<Rightarrow> do {
         x \<leftarrow> renderAction sub gone (with_ref git h dir (query_Get r ''ref'') (\<lambda>ref. blobAt git h dir ref tp));
         return (case x of
            Inl e \<Rightarrow> writeErr e
          | Inr data \<Rightarrow> attachment wb (fileBase tp) ''application/octet-stream'' data) })"

text \<open>The diff page submits twice: for the diff, and for the page around its first 256 KiB.\<close>

definition diff_answer :: "Web \<Rightarrow> Handler \<Rightarrow> Submission \<Rightarrow> bool \<Rightarrow> string \<Rightarrow> BrowseRequest \<Rightarrow> string \<Rightarrow> (bytes \<times> bool) result \<Rightarrow> Response io" where
  "diff_answer wb h sub gone name r commit x =
     (case x of
        Inl e \<Rightarrow> return (writeErr e)
      | Inr (diff, truncated) \<Rightarrow>
          if query_Get r ''raw'' = ''1'' then return (attachment wb (commit @ ''.diff'') ''text/plain'' diff)
          else do {
            y \<leftarrow> renderAction sub gone (return (renderPage wb (page_of h (name @ middot @ ''diff'') name (frag (Diff
                   \<lparr>df_Repo = name, df_Commit = commit, df_Body = highlightDiff (if truncated then take maxRenderBytes diff else diff),
                    df_Truncated = truncated, df_RawURL = ''/'' @ name @ ''/diff?commit='' @ commit @ ''&raw=1''\<rparr>)))));
            return (html_reply y) })"

definition handleDiff :: "Web \<Rightarrow> git_prog \<Rightarrow> Handler \<Rightarrow> Submission \<times> Submission \<Rightarrow> bool \<Rightarrow> string \<Rightarrow> BrowseRequest \<Rightarrow> Response io" where
  "handleDiff wb git h subs gone name r = resolveRepo h name (\<lambda>dir.
     let commit = query_Get r ''commit'' in
     if commit = [] then return (writeErr (Sentinel errBadPath))
     else do {
       x \<leftarrow> renderAction (fst subs) gone (diffOf git h dir commit);
       diff_answer wb h (snd subs) gone name r commit x })"

section \<open>Static assets\<close>

text \<open>
  The embedded files by name, the hash, and the file server of \<open>net/http\<close> with the headers set before it.
  The memo table maps a name to its validator.
\<close>

record Assets =
  as_Open :: "string \<Rightarrow> bytes option"
  as_sha256 :: "bytes \<Rightarrow> bytes"
  as_FileServer :: "string \<Rightarrow> Response"

type_synonym staticETags = "(string \<times> string) list"

definition etag_of :: "Assets \<Rightarrow> string \<Rightarrow> string option" where
  "etag_of fs name = map_option (\<lambda>d. [dquote_char] @ hex_EncodeToString (as_sha256 fs d) @ [dquote_char]) (as_Open fs name)"

definition etags_get :: "Assets \<Rightarrow> staticETags \<Rightarrow> string \<Rightarrow> string option \<times> staticETags" where
  "etags_get fs m name =
     (case map_of m name of
        Some e \<Rightarrow> (Some e, m)
      | None \<Rightarrow> (case etag_of fs name of None \<Rightarrow> (None, m) | Some e \<Rightarrow> (Some e, AList.update name e m)))"

definition add_headers :: "(string \<times> string) list \<Rightarrow> Response \<Rightarrow> Response" where
  "add_headers hs resp = resp\<lparr>rs_Headers := rs_Headers resp @ filter (\<lambda>(k, v). map_of (rs_Headers resp) k = None) hs\<rparr>"

definition handleStatic :: "Assets \<Rightarrow> staticETags \<Rightarrow> BrowseRequest \<Rightarrow> Response \<times> staticETags" where
  "handleStatic fs m r =
     (if br_Method r \<noteq> ''GET'' \<and> br_Method r \<noteq> ''HEAD'' then (error_response ''method not allowed'' 405, m)
      else let name = TrimPrefix (br_Path r) ''/static/'' in
        if name = [] then (error_response ''not found'' 404, m)
        else case etags_get fs m name of
          (None, m') \<Rightarrow> (as_FileServer fs name, m')
        | (Some e, m') \<Rightarrow> (add_headers [(''Cache-Control'', ''public, max-age=86400''), (''ETag'', e)] (as_FileServer fs name), m'))"

section \<open>The router and the middlewares\<close>

text \<open>What one request meets: the channel, its client, and what other processes do while a job is waited for.\<close>

record Encounter =
  en_subs :: "Submission \<times> Submission"
  en_gone :: bool
  en_clock :: "nat \<Rightarrow> time"

definition of_reply :: "http_reply option \<Rightarrow> Response" where
  "of_reply r = (case r of
      None \<Rightarrow> \<lparr>rs_Status = 200, rs_Headers = [], rs_Body = []\<rparr>
    | Some (status, body) \<Rightarrow>
        if status = 200 then \<lparr>rs_Status = 200, rs_Headers = (if body = [] then [] else [(''Content-Type'', ''application/json'')]), rs_Body = body\<rparr>
        else \<lparr>rs_Status = status, rs_Headers = [(''Content-Type'', ''text/plain; charset=utf-8''), (''X-Content-Type-Options'', ''nosniff'')], rs_Body = body\<rparr>)"

definition browse_mux :: "Web \<Rightarrow> git_prog \<Rightarrow> Handler \<Rightarrow> Encounter \<Rightarrow> BrowseRequest \<Rightarrow> Response io" where
  "browse_mux wb git h en r =
     (let sub = fst (en_subs en); gone = en_gone en in
      if br_Path r = ''/v1/bundle'' \<or> br_Path r = ''/v1/deliver'' then do {
        x \<leftarrow> handler git (bh_serve h) (en_clock en) (br_Path r) (br_Body r) sub [] gone;
        return (of_reply x) }
      else case split_on slash (br_Path r) of
        [[], name] \<Rightarrow> if name = [] then handleRepoIndex wb h sub gone r else handleRepoHome wb git h sub gone name r
      | [[], name, verb] \<Rightarrow>
          if name = [] then handleRepoIndex wb h sub gone r
          else if verb = ''log'' then handleLog wb git h sub gone name r
          else if verb = ''tree'' then handleTree wb git h sub gone name r
          else if verb = ''blob'' then handleBlob wb git h sub gone name r
          else if verb = ''raw'' then handleRaw wb git h sub gone name r
          else if verb = ''diff'' then handleDiff wb git h (en_subs en) gone name r
          else handleRepoIndex wb h sub gone r
      | _ \<Rightarrow> handleRepoIndex wb h sub gone r)"

definition withStatic :: "Assets \<Rightarrow> staticETags \<Rightarrow> (BrowseRequest \<Rightarrow> Response io) \<Rightarrow> BrowseRequest \<Rightarrow> (Response \<times> staticETags) io" where
  "withStatic fs m inner r =
     (if HasPrefix (br_Path r) ''/static/'' then return (handleStatic fs m r)
      else do { x \<leftarrow> inner r; return (x, m) })"

definition withHostAllowlist :: "Handler \<Rightarrow> staticETags \<Rightarrow> (BrowseRequest \<Rightarrow> (Response \<times> staticETags) io) \<Rightarrow> BrowseRequest \<Rightarrow> (Response \<times> staticETags) io" where
  "withHostAllowlist h m inner r =
     (if normalizeHost (br_Host r) \<notin> set (hostAllowlist h) then return (error_response ''unknown host'' 400, m) else inner r)"

definition single_quoted :: "string \<Rightarrow> string" where
  "single_quoted s = [quote_char] @ s @ [quote_char]"

definition csp :: string where
  "csp = ''default-src '' @ single_quoted ''self'' @ ''; script-src '' @ single_quoted ''self'' @ ''; style-src '' @ single_quoted ''self''
     @ ''; img-src '' @ single_quoted ''self'' @ '' data:; object-src '' @ single_quoted ''none'' @ ''; base-uri '' @ single_quoted ''self''
     @ ''; form-action '' @ single_quoted ''self''"

definition security_headers :: "(string \<times> string) list" where
  "security_headers =
     [(''Content-Security-Policy'', csp), (''X-Content-Type-Options'', ''nosniff''), (''Referrer-Policy'', ''no-referrer''), (''X-Frame-Options'', ''DENY'')]"

definition withSecurity :: "(BrowseRequest \<Rightarrow> (Response \<times> staticETags) io) \<Rightarrow> BrowseRequest \<Rightarrow> (Response \<times> staticETags) io" where
  "withSecurity inner r = do { x \<leftarrow> inner r; return (add_headers security_headers (fst x), snd x) }"

record Audit =
  au_cn :: string
  au_ip :: string
  au_method :: string
  au_path :: string
  au_status :: int

definition clientCN :: "BrowseRequest \<Rightarrow> string" where
  "clientCN r = (case br_PeerCN r of None \<Rightarrow> ''unknown'' | Some cn \<Rightarrow> cn)"

definition browse_clientIP :: "BrowseRequest \<Rightarrow> string" where
  "browse_clientIP r = fst (splitHostPort (br_RemoteAddr r))"

definition withAudit :: "(BrowseRequest \<Rightarrow> (Response \<times> staticETags) io) \<Rightarrow> BrowseRequest \<Rightarrow> (Response \<times> staticETags \<times> Audit) io" where
  "withAudit inner r = do {
     x \<leftarrow> inner r;
     return (fst x, snd x, \<lparr>au_cn = clientCN r, au_ip = browse_clientIP r, au_method = br_Method r, au_path = br_Path r, au_status = rs_Status (fst x)\<rparr>)
   }"

definition browse_Mux :: "Web \<Rightarrow> Assets \<Rightarrow> git_prog \<Rightarrow> Handler \<Rightarrow> Encounter \<Rightarrow> staticETags \<Rightarrow> BrowseRequest \<Rightarrow> (Response \<times> staticETags \<times> Audit) io" where
  "browse_Mux wb fs git h en m =
     withAudit (withSecurity (withHostAllowlist h m (withStatic fs m (browse_mux wb git h en))))"

text \<open>\<open>New\<close>; that the runner, the serve instance and the TLS material are there is a matter of types.\<close>

definition browse_New :: "string \<Rightarrow> Runner \<Rightarrow> string \<Rightarrow> ServeProc \<Rightarrow> string list \<Rightarrow> Handler result" where
  "browse_New root git render sv allow =
     (if render \<noteq> ''server'' \<and> render \<noteq> ''client'' \<and> render \<noteq> ''none'' then Fail (Errf ''browse: invalid render mode %q'' [render])
      else Ok \<lparr>bh_reposRoot = root, bh_git = git, bh_render = render, bh_serve = sv, hostAllowlist = map normalizeHost allow\<rparr>)"

text \<open>
  \<open>Run\<close>: \<open>listen\<close> is the outcome of \<open>net.Listen\<close>, and \<open>failed\<close> the error of the server, or \<open>None\<close> when the
  context was canceled first and the server was shut down.
\<close>

definition browse_Run :: "string \<Rightarrow> unit result \<Rightarrow> gerror option \<Rightarrow> unit result" where
  "browse_Run addr listen failed =
     (case listen of
        Inl e \<Rightarrow> Fail (Wrapf ''browse: listen %s: %w'' [addr] e)
      | Inr _ \<Rightarrow> (case failed of Some e \<Rightarrow> Fail (Wrapf ''browse: server: %w'' [] e) | None \<Rightarrow> Ok ()))"

end
