(* ===== verification/Browse_Tls.thy ===== *)
theory Browse_Tls
  imports Go_Fs
begin

text \<open>
  \<open>internal/browse/tls.go\<close>: the mutual TLS gate of the web interface. The files that are read at start-up and
  again at each handshake, the checks on the client's certificate, and the handshake of \<open>crypto/tls\<close> as far as
  the configuration steers it: full handshakes and resumed ones. The parsers of \<open>crypto/x509\<close> and
  \<open>encoding/pem\<close> and the verification of a chain are a parameter record.
\<close>

section \<open>Certificates\<close>

datatype curve = P256 | OtherCurve

datatype public_key = ECDSA curve | NotECDSA

record Certificate =
  cert_PublicKey :: public_key
  cert_SerialNumber :: int
  cert_CommonName :: string

record X509 =
  x_X509KeyPair :: "bytes \<Rightarrow> bytes \<Rightarrow> bytes list result"
  x_ParseCertificate :: "bytes \<Rightarrow> Certificate result"
  x_CertsFromPEM :: "bytes \<Rightarrow> bytes list"
  x_ParseRevocationList :: "bytes \<Rightarrow> int list result"
  x_pem_Decode :: "bytes \<Rightarrow> bytes option"
  x_Verify :: "bytes list \<Rightarrow> bytes list \<Rightarrow> unit result"
  x_TicketValid :: "bytes list \<Rightarrow> bytes list \<Rightarrow> bool"

record TLSPaths =
  tls_Cert :: string
  tls_Key :: string
  tls_ClientCA :: string
  tls_RevocationList :: string

text \<open>\<open>requireP256\<close>, as the error it returns.\<close>

definition requireP256 :: "public_key \<Rightarrow> gerror option" where
  "requireP256 pub =
     (case pub of
        NotECDSA \<Rightarrow> Some (Errf ''public key is not ECDSA'' [])
      | ECDSA c \<Rightarrow> if c \<noteq> P256 then Some (Errf ''public key is not on curve P-256'' []) else None)"

definition parseLeaf :: "X509 \<Rightarrow> bytes list \<Rightarrow> Certificate result" where
  "parseLeaf x der =
     (case der of [] \<Rightarrow> Fail (Errf ''no certificate in bundle'' []) | d # _ \<Rightarrow> x_ParseCertificate x d)"

section \<open>Reading the material\<close>

text \<open>\<open>tls.LoadX509KeyPair\<close>: both files, then the pair.\<close>

definition LoadX509KeyPair :: "X509 \<Rightarrow> string \<Rightarrow> string \<Rightarrow> bytes list result io" where
  "LoadX509KeyPair x certFile keyFile = do {
     rc \<leftarrow> os_ReadFile certFile;
     case rc of
       Inl e \<Rightarrow> return (Fail e)
     | Inr cert \<Rightarrow> do {
         rk \<leftarrow> os_ReadFile keyFile;
         return (case rk of Inl e \<Rightarrow> Fail e | Inr key \<Rightarrow> x_X509KeyPair x cert key) }
   }"

definition loadServerCert :: "X509 \<Rightarrow> string \<Rightarrow> string \<Rightarrow> bytes list result io" where
  "loadServerCert x certPath keyPath = do {
     r \<leftarrow> LoadX509KeyPair x certPath keyPath;
     return (case r of
        Inl e \<Rightarrow> Fail (Wrapf ''load server cert %s: %w'' [certPath] e)
      | Inr cert \<Rightarrow>
          (case parseLeaf x cert of
             Inl e \<Rightarrow> Fail (Wrapf ''load server cert %s: %w'' [certPath] e)
           | Inr leaf \<Rightarrow>
               (case requireP256 (cert_PublicKey leaf) of
                  Some e \<Rightarrow> Fail (Wrapf ''server cert %s: %w'' [certPath] e)
                | None \<Rightarrow> Ok cert)))
   }"

definition loadClientCAs :: "X509 \<Rightarrow> string \<Rightarrow> bytes list result io" where
  "loadClientCAs x path = do {
     r \<leftarrow> os_ReadFile path;
     return (case r of
        Inl e \<Rightarrow> Fail (Wrapf ''read client CA %s: %w'' [path] e)
      | Inr data \<Rightarrow>
          if x_CertsFromPEM x data = [] then Fail (Errf ''client CA %s: no certificates parsed'' [path])
          else Ok (x_CertsFromPEM x data))
   }"

text \<open>The serial numbers a revocation list names, in DER or else in PEM; an empty file names none.\<close>

definition parse_revoked :: "X509 \<Rightarrow> bytes \<Rightarrow> int list result" where
  "parse_revoked x data =
     (if data = [] then Ok []
      else case x_ParseRevocationList x data of
        Inr crl \<Rightarrow> Ok crl
      | Inl e \<Rightarrow> (case x_pem_Decode x data of None \<Rightarrow> Fail e | Some block \<Rightarrow> x_ParseRevocationList x block))"

text \<open>The set of revoked serials, by their decimal form.\<close>

definition loadRevoked :: "X509 \<Rightarrow> string \<Rightarrow> string list result io" where
  "loadRevoked x path = do {
     r \<leftarrow> os_ReadFile path;
     return (case r of
        Inl e \<Rightarrow> Fail (Wrapf ''read revocation list %s: %w'' [path] e)
      | Inr data \<Rightarrow>
          (case parse_revoked x data of
             Inl e \<Rightarrow> Fail (Wrapf ''parse revocation list %s: %w'' [path] e)
           | Inr serials \<Rightarrow> Ok (map show_int serials)))
   }"

definition verifyClientCert :: "X509 \<Rightarrow> bytes list \<Rightarrow> string list \<Rightarrow> unit result" where
  "verifyClientCert x rawCerts revoked =
     (case rawCerts of
        [] \<Rightarrow> Fail (Errf ''browse tls: no client certificate presented'' [])
      | raw # _ \<Rightarrow>
          (case x_ParseCertificate x raw of
             Inl e \<Rightarrow> Fail (Wrapf ''browse tls: parse client cert: %w'' [] e)
           | Inr leaf \<Rightarrow>
               (case requireP256 (cert_PublicKey leaf) of
                  Some e \<Rightarrow> Fail e
                | None \<Rightarrow>
                    if show_int (cert_SerialNumber leaf) \<in> set revoked
                    then Fail (Errf ''browse tls: client certificate revoked (serial %s)'' [show_int (cert_SerialNumber leaf)])
                    else Ok ())))"

section \<open>The configuration and the handshake\<close>

definition NewTLSConfig :: "X509 \<Rightarrow> TLSPaths \<Rightarrow> unit result io" where
  "NewTLSConfig x p = do {
     rs \<leftarrow> loadServerCert x (tls_Cert p) (tls_Key p);
     case rs of
       Inl e \<Rightarrow> return (Fail (Wrapf ''browse tls: %w'' [] e))
     | Inr _ \<Rightarrow> do {
         rc \<leftarrow> loadClientCAs x (tls_ClientCA p);
         case rc of
           Inl e \<Rightarrow> return (Fail (Wrapf ''browse tls: %w'' [] e))
         | Inr _ \<Rightarrow> do {
             rr \<leftarrow> loadRevoked x (tls_RevocationList p);
             return (case rr of Inl e \<Rightarrow> Fail (Wrapf ''browse tls: %w'' [] e) | Inr _ \<Rightarrow> Ok ()) } }
   }"

text \<open>\<open>GetConfigForClient\<close>: the pool and the revoked serials of the configuration for one connection.\<close>

definition GetConfigForClient :: "X509 \<Rightarrow> TLSPaths \<Rightarrow> (bytes list \<times> string list) result io" where
  "GetConfigForClient x p = do {
     rc \<leftarrow> loadClientCAs x (tls_ClientCA p);
     case rc of
       Inl e \<Rightarrow> return (Fail e)
     | Inr clientCAs \<Rightarrow> do {
         rr \<leftarrow> loadRevoked x (tls_RevocationList p);
         return (case rr of Inl e \<Rightarrow> Fail e | Inr revoked \<Rightarrow> Ok (clientCAs, revoked)) }
   }"

text \<open>
  What a client offers: its highest version, its certificates, and a session ticket, which holds the
  certificates of the handshake that issued it. \<open>crypto/tls\<close> keeps ticket keys on the base configuration,
  so tickets outlive the configuration of a connection. A resumed connection is not asked for a
  certificate and does not call \<open>VerifyPeerCertificate\<close>; what it checks of the ticket against the current
  pool is \<open>x_TicketValid\<close>.
\<close>

record ClientHello =
  ch_TLS13 :: bool
  ch_Certs :: "bytes list"
  ch_Ticket :: "bytes list option"

definition client_certificates :: "X509 \<Rightarrow> bytes list \<times> string list \<Rightarrow> bytes list \<Rightarrow> bytes list result" where
  "client_certificates x cfg certs =
     (case map_result (x_ParseCertificate x) certs of
        Inl e \<Rightarrow> Fail (Errf ''tls: failed to parse client certificate'' [])
      | Inr _ \<Rightarrow>
          if certs = [] then Fail (Errf ''tls: client did not provide a certificate'' [])
          else (case x_Verify x (fst cfg) certs of
            Inl e \<Rightarrow> Fail e
          | Inr _ \<Rightarrow> (case verifyClientCert x certs (snd cfg) of Inl e \<Rightarrow> Fail e | Inr _ \<Rightarrow> Ok certs)))"

definition usable_ticket :: "X509 \<Rightarrow> bytes list \<Rightarrow> bytes list option \<Rightarrow> bool" where
  "usable_ticket x pool t = (case t of None \<Rightarrow> False | Some certs \<Rightarrow> certs \<noteq> [] \<and> x_TicketValid x pool certs)"

definition handshake :: "X509 \<Rightarrow> TLSPaths \<Rightarrow> ClientHello \<Rightarrow> bytes list result io" where
  "handshake x p ch = do {
     rc \<leftarrow> GetConfigForClient x p;
     case rc of
       Inl e \<Rightarrow> return (Fail e)
     | Inr cfg \<Rightarrow>
         if \<not> ch_TLS13 ch then return (Fail (Errf ''tls: client offered only unsupported versions'' []))
         else if usable_ticket x (fst cfg) (ch_Ticket ch) then return (Ok (the (ch_Ticket ch)))
         else do {
           rs \<leftarrow> loadServerCert x (tls_Cert p) (tls_Key p);
           return (case rs of Inl e \<Rightarrow> Fail e | Inr _ \<Rightarrow> client_certificates x cfg (ch_Certs ch)) }
   }"

section \<open>Facts\<close>

lemma show_int_inject [simp]: "show_int i = show_int j \<longleftrightarrow> i = j"
proof -
  have digits: "show_nat m \<noteq> CHR ''-'' # s" for m s
    using show_nat_digits [of m] by (auto simp: is_digit_def code_def)
  have inj: "show_nat m = show_nat n \<longleftrightarrow> m = n" for m n
    by (metis dec_value_show_nat)
  show ?thesis by (auto simp: show_int_def inj digits digits [symmetric])
qed

lemma wp_loadClientCAs:
  assumes "\<And>r w'. same_files w w' \<Longrightarrow>
      (\<forall>pool. r = Inr pool \<longrightarrow> (\<exists>d s. lookup (tree w) path = Some (File d s) \<and> pool = x_CertsFromPEM x d)) \<Longrightarrow> Q r w'"
  shows "wp (loadClientCAs x path) Q w"
  unfolding loadClientCAs_def wp_bind by (rule wp_os_ReadFile) (auto intro!: assms split: sum.split)

lemma wp_loadRevoked:
  assumes "\<And>r w'. same_files w w' \<Longrightarrow>
      (\<forall>revoked. r = Inr revoked \<longrightarrow>
        (\<exists>d s serials. lookup (tree w) path = Some (File d s) \<and> parse_revoked x d = Inr serials \<and> revoked = map show_int serials)) \<Longrightarrow>
      Q r w'"
  shows "wp (loadRevoked x path) Q w"
  unfolding loadRevoked_def wp_bind by (rule wp_os_ReadFile) (auto intro!: assms split: sum.split)

lemma wp_GetConfigForClient:
  assumes "\<And>r w'. same_files w w' \<Longrightarrow>
      (\<forall>pool revoked. r = Inr (pool, revoked) \<longrightarrow>
        (\<exists>ca s. lookup (tree w) (tls_ClientCA p) = Some (File ca s) \<and> pool = x_CertsFromPEM x ca)
        \<and> (\<exists>crl s serials. lookup (tree w) (tls_RevocationList p) = Some (File crl s) \<and> parse_revoked x crl = Inr serials
             \<and> revoked = map show_int serials)) \<Longrightarrow> Q r w'"
  shows "wp (GetConfigForClient x p) Q w"
  unfolding GetConfigForClient_def wp_bind
proof (rule wp_loadClientCAs, goal_cases)
  case ca: (1 r w1)
  show ?case
  proof (cases r)
    case (Inl e)
    with ca(1) show ?thesis by (auto intro!: assms)
  next
    case (Inr pool)
    show ?thesis
      unfolding Inr sum.case wp_bind
      by (rule wp_loadRevoked)
        (use ca(2) Inr in \<open>auto simp: same_files_fields [OF ca(1)] intro!: assms same_files_trans [OF ca(1)] split: sum.split\<close>)
  qed
qed

text \<open>What the checks on the presented certificates mean.\<close>

lemma verifyClientCert_Ok:
  "verifyClientCert x certs revoked = Inr u \<longleftrightarrow>
     (\<exists>raw rest leaf. certs = raw # rest \<and> x_ParseCertificate x raw = Inr leaf \<and> cert_PublicKey leaf = ECDSA P256
        \<and> show_int (cert_SerialNumber leaf) \<notin> set revoked)"
  by (auto simp: verifyClientCert_def requireP256_def split: list.splits sum.splits option.splits public_key.splits if_splits)

lemma client_certificates_Ok:
  "client_certificates x cfg certs = Inr r \<Longrightarrow>
     r = certs \<and> (\<exists>u. x_Verify x (fst cfg) certs = Inr u) \<and> (\<exists>u. verifyClientCert x certs (snd cfg) = Inr u)"
  by (auto simp: client_certificates_def split: sum.splits if_splits)

text \<open>
  C14. Who passes the mutual TLS gate in a full handshake, whatever calls fail: the client speaks TLS 1.3 and
  presents a chain that verifies against the certificate authorities in the file at that moment, its first
  certificate has an ECDSA key on P-256, and its serial number is not among those of the revocation list
  in the file at that moment. In particular nobody passes while either file cannot be read or parsed.
\<close>

theorem handshake_admits:
  assumes "run_state (handshake x p ch) w = (Inr certs, w')" and "ch_Ticket ch = None"
  shows "ch_TLS13 ch \<and> certs = ch_Certs ch
    \<and> (\<exists>ca s. lookup (tree w) (tls_ClientCA p) = Some (File ca s) \<and> (\<exists>u. x_Verify x (x_CertsFromPEM x ca) certs = Inr u))
    \<and> (\<exists>leaf crl s serials. certs \<noteq> [] \<and> x_ParseCertificate x (hd certs) = Inr leaf \<and> cert_PublicKey leaf = ECDSA P256
         \<and> lookup (tree w) (tls_RevocationList p) = Some (File crl s) \<and> parse_revoked x crl = Inr serials
         \<and> cert_SerialNumber leaf \<notin> set serials)"
proof -
  have "wp (handshake x p ch) (\<lambda>r _. \<forall>certs. r = Inr certs \<longrightarrow> ch_TLS13 ch
     \<and> (\<exists>ca s crl s' serials. lookup (tree w) (tls_ClientCA p) = Some (File ca s)
         \<and> lookup (tree w) (tls_RevocationList p) = Some (File crl s') \<and> parse_revoked x crl = Inr serials
         \<and> client_certificates x (x_CertsFromPEM x ca, map show_int serials) (ch_Certs ch) = Inr certs)) w"
    unfolding handshake_def wp_bind
  proof (rule wp_GetConfigForClient, goal_cases)
    case (1 r w1)
    show ?case
    proof (cases r)
      case (Inr cfg)
      with 1(2) obtain ca s crl s' serials where f: "lookup (tree w) (tls_ClientCA p) = Some (File ca s)"
          "lookup (tree w) (tls_RevocationList p) = Some (File crl s')" "parse_revoked x crl = Inr serials"
        and cfg: "cfg = (x_CertsFromPEM x ca, map show_int serials)" by (cases cfg) auto
      show ?thesis
        using Inr f assms(2) by (auto simp: cfg wp_simps usable_ticket_def intro!: wpI split: sum.splits)
    qed simp
  qed
  from wp_run [OF this assms(1)] obtain ca s crl s' serials
    where "ch_TLS13 ch" "lookup (tree w) (tls_ClientCA p) = Some (File ca s)"
      "lookup (tree w) (tls_RevocationList p) = Some (File crl s')" "parse_revoked x crl = Inr serials"
      "client_certificates x (x_CertsFromPEM x ca, map show_int serials) (ch_Certs ch) = Inr certs" by blast
  with client_certificates_Ok [OF this(5)] show ?thesis by (fastforce simp: verifyClientCert_Ok)
qed

section \<open>Concrete handshakes\<close>

text \<open>Certificates whose encoding says what they hold; a list that revokes the serial number 7.\<close>

definition sample_x509 :: X509 where
  "sample_x509 =
     \<lparr>x_X509KeyPair = (\<lambda>c k. Ok [c]),
      x_ParseCertificate = (\<lambda>d.
        if d = ''laptop'' then Ok \<lparr>cert_PublicKey = ECDSA P256, cert_SerialNumber = 7, cert_CommonName = d\<rparr>
        else Ok \<lparr>cert_PublicKey = ECDSA P256, cert_SerialNumber = 8, cert_CommonName = d\<rparr>),
      x_CertsFromPEM = (\<lambda>d. [d]),
      x_ParseRevocationList = (\<lambda>d. if d = ''crl'' then Ok [7] else Fail (Errf ''x509: malformed crl'' [])),
      x_pem_Decode = (\<lambda>d. None),
      x_Verify = (\<lambda>pool certs. if pool = [''ca''] then Ok () else Fail (Errf ''x509: unknown authority'' [])),
      x_TicketValid = (\<lambda>pool certs. pool = [''ca''])\<rparr>"

definition sample_tls :: TLSPaths where
  "sample_tls = \<lparr>tls_Cert = ''/c'', tls_Key = ''/k'', tls_ClientCA = ''/ca'', tls_RevocationList = ''/crl''\<rparr>"

definition tls_world :: world where
  "tls_world = \<lparr>tree = [(''/c'', File ''server'' True), (''/k'', File ''key'' True), (''/ca'', File ''ca'' True), (''/crl'', File ''crl'' True)],
     durable = [], faults = [], entropy = [], cwd = ''/'', execs = [], journal = [], written = [], objects = []\<rparr>"

definition hello_of :: "string \<Rightarrow> bytes list option \<Rightarrow> ClientHello" where
  "hello_of cert ticket = \<lparr>ch_TLS13 = True, ch_Certs = [cert], ch_Ticket = ticket\<rparr>"

lemmas tls_samples = sample_x509_def sample_tls_def tls_world_def hello_of_def

lemma run_ReadFile_nil:
  "faults w = [] \<Longrightarrow> lookup (tree w) p = Some (File d s) \<Longrightarrow> run_state (os_ReadFile p) w = (Inr d, w)"
  by (simp add: os_ReadFile_def)

lemma sample_handshake: "run_state (handshake sample_x509 sample_tls (hello_of ''phone'' None)) tls_world = (Inr [''phone''], tls_world)"
  by (simp add: handshake_def GetConfigForClient_def loadClientCAs_def loadRevoked_def loadServerCert_def LoadX509KeyPair_def
      parse_revoked_def parseLeaf_def requireP256_def client_certificates_def verifyClientCert_def usable_ticket_def
      run_ReadFile_nil tls_samples lookup_def)

lemma handshake_admits_witness:
  "ch_TLS13 (hello_of ''phone'' None)
   \<and> (\<exists>leaf serials. x_ParseCertificate sample_x509 ''phone'' = Inr leaf \<and> parse_revoked sample_x509 ''crl'' = Inr serials
        \<and> cert_PublicKey leaf = ECDSA P256 \<and> cert_SerialNumber leaf \<notin> set serials)"
proof -
  have "lookup (tree tls_world) (tls_RevocationList sample_tls) = Some (File ''crl'' True)" by (simp add: tls_samples lookup_def)
  with handshake_admits [OF sample_handshake] show ?thesis by (auto simp: hello_of_def)
qed



end
