(* ===== verification/Sshcmd.thy ===== *)
theory Sshcmd
  imports Repo Gitenv Disk
begin

text \<open>
  \<open>internal/sshcmd\<close>: the \<open>SSH_ORIGINAL_COMMAND\<close> gateway. The tokenizer of \<open>tokenize.go\<close>, the pusher
  identity and greeting of \<open>identity.go\<close>, and the ForceCommand handler \<open>Serve\<close> with push-to-create of
  \<open>gateway.go\<close>, over the file system and the git child processes.
\<close>

section \<open>The tokenizer\<close>

definition word_space :: "char \<Rightarrow> bool" where
  "word_space c \<longleftrightarrow> c = CHR '' '' \<or> c = tab_char \<or> c = newline_char \<or> c = return_char"

text \<open>The loop of \<open>ParseCommand\<close> over its four variables; \<open>None\<close> is the unterminated quote.\<close>

fun parse_words :: "string \<Rightarrow> string list \<Rightarrow> string \<Rightarrow> bool \<Rightarrow> bool \<Rightarrow> string list option" where
  "parse_words [] args cur inQuote started =
     (if inQuote then None else Some (if started then args @ [cur] else args))"
| "parse_words (c # cs) args cur inQuote started =
     (if c = quote_char then parse_words cs args cur (\<not> inQuote) True
      else if word_space c \<and> \<not> inQuote then
        (if started then parse_words cs (args @ [cur]) [] inQuote False
         else parse_words cs args cur inQuote started)
      else parse_words cs args (cur @ [c]) inQuote True)"

definition ParseCommand :: "string \<Rightarrow> string list result" where
  "ParseCommand s =
     (case parse_words s [] [] False False of
        None \<Rightarrow> Fail (Errf ''unterminated single quote in command %q'' [s])
      | Some args \<Rightarrow> Ok args)"

section \<open>Identity and greeting\<close>

record Identity =
  KeyFP :: string
  KeyType :: string
  CertID :: string
  ClientIP :: string

fun envGet :: "string list \<Rightarrow> string \<Rightarrow> string" where
  "envGet [] key = []"
| "envGet (kv # env) key =
     (if HasPrefix kv (key @ ''='') then TrimPrefix kv (key @ ''='') else envGet env key)"

definition clientIP :: "string \<Rightarrow> string" where
  "clientIP connection = (case Fields connection of [] \<Rightarrow> [] | f # _ \<Rightarrow> f)"

definition IdentityFromEnv :: "string list \<Rightarrow> Identity" where
  "IdentityFromEnv env =
     \<lparr>KeyFP = envGet env ''SSH_AUTH_KEY_FP'', KeyType = envGet env ''SSH_AUTH_KEY_TYPE'',
      CertID = envGet env ''SSH_AUTH_CERT_ID'', ClientIP = clientIP (envGet env ''SSH_CONNECTION'')\<rparr>"

definition Complete :: "Identity \<Rightarrow> bool" where
  "Complete i \<longleftrightarrow> KeyFP i \<noteq> [] \<and> CertID i \<noteq> []"

definition greeting_hint :: string where
  "greeting_hint =
     ''You have no shell access. Push to create or update repositories: git push git@git.cmposer.cc:<repo>.git'' @ [newline_char]"

definition Greeting :: "Identity \<Rightarrow> string" where
  "Greeting i =
     (let certID = if CertID i = [] then ''unknown identity'' else CertID i;
          keyFP = if KeyFP i = [] then ''unknown key'' else KeyFP i;
          ip = if ClientIP i = [] then ''unknown address'' else ClientIP i
      in ''Hello '' @ certID @ '' (key '' @ keyFP @ '' from '' @ ip @ '')!'' @ [newline_char] @ greeting_hint)"

section \<open>The gateway\<close>

abbreviation opUploadPack :: string where "opUploadPack \<equiv> ''git-upload-pack''"
abbreviation opReceivePack :: string where "opReceivePack \<equiv> ''git-receive-pack''"

record GatewayConfig =
  ReposRoot :: string
  HooksDir :: string
  gw_Git :: Runner
  gw_Headroom :: Headroom

definition RepoNameFromArg :: "string \<Rightarrow> string result" where
  "RepoNameFromArg arg =
     (let base = Base (Clean arg); name = Normalize base in
      if \<not> ValidName name then Fail (Errf ''invalid repository name %q'' [base]) else Ok name)"

definition writeDescription :: "string \<Rightarrow> string \<Rightarrow> unit result io" where
  "writeDescription repoDir name =
     os_WriteFile (Join [repoDir, ''description'']) (name @ '' repository on git.cmposer.cc'' @ [newline_char])"

definition verifyHooks :: "string \<Rightarrow> unit result io" where
  "verifyHooks hooksDir =
     (if hooksDir = [] then return (Ok ())
      else do {
        st \<leftarrow> os_Stat hooksDir;
        return (case st of
           Inl e \<Rightarrow> Fail (Wrapf ''hook shims missing at %s: %w'' [hooksDir] e)
         | Inr n \<Rightarrow> if n \<noteq> Directory then Fail (Errf ''hook shims path %s is not a directory'' [hooksDir])
                    else Ok ()) })"

definition pushToCreate :: "git_prog \<Rightarrow> GatewayConfig \<Rightarrow> string \<Rightarrow> string \<Rightarrow> unit result io" where
  "pushToCreate git cfg name repoDir = do {
     r \<leftarrow> os_Mkdir repoDir;
     case r of
       Inr _ \<Rightarrow> do {
         ri \<leftarrow> Run git (gw_Git cfg) [''init'', ''--bare'', repoDir];
         case ri of
           Inl e \<Rightarrow> return (Fail (Wrapf ''push-to-create %s: init: %w'' [name] e))
         | Inr _ \<Rightarrow> do {
             rd \<leftarrow> writeDescription repoDir name;
             case rd of
               Inl e \<Rightarrow> return (Fail (Wrapf ''push-to-create %s: %w'' [name] e))
             | Inr _ \<Rightarrow> do {
                 rh \<leftarrow> verifyHooks (HooksDir cfg);
                 return (case rh of
                    Inl e \<Rightarrow> Fail (Wrapf ''push-to-create %s: %w'' [name] e)
                  | Inr _ \<Rightarrow> Ok ()) } } }
     | Inl e \<Rightarrow>
         if errors_Is e ErrExist then do {
           rb \<leftarrow> IsBareRepo repoDir;
           return (case rb of
              Inl se \<Rightarrow> Fail (Wrapf ''push-to-create %s: %w'' [name] se)
            | Inr ok \<Rightarrow>
                if \<not> ok then Fail (Errf ''push-to-create %s: %s exists but is not a bare repository'' [name, repoDir])
                else Ok ()) }
         else return (Fail (Wrapf ''push-to-create %s: mkdir: %w'' [name] e))
   }"

text \<open>\<open>cmd.Run()\<close> with the session's standard output connected to the child's.\<close>

definition run_session :: "git_prog \<Rightarrow> cmd \<Rightarrow> gerror option io" where
  "run_session git c = do {
     rep \<leftarrow> exec_cmd git c;
     _ \<leftarrow> State (\<lambda>w. ((), w\<lparr>written := written w @ out rep\<rparr>));
     return (cmd_error rep)
   }"

text \<open>The tail of \<open>Serve\<close> after the identity check: headroom and push-to-create for a push, then git.\<close>

definition serve_pack :: "git_prog \<Rightarrow> statfs \<Rightarrow> GatewayConfig \<Rightarrow> string \<Rightarrow> string \<Rightarrow> unit result io" where
  "serve_pack git st cfg op name =
     (let repoDir = Join [ReposRoot cfg, name @ ''.git''] in do {
        pre \<leftarrow> (if op = opReceivePack then
                  (case fst (Headroom_Check st (gw_Headroom cfg) (ReposRoot cfg)) of
                     Inl e \<Rightarrow> return (Fail (Wrapf ''push rejected: %w'' [] e))
                   | Inr _ \<Rightarrow> pushToCreate git cfg name repoDir)
                else return (Ok ()));
        case pre of
          Inl e \<Rightarrow> return (Fail e)
        | Inr _ \<Rightarrow> do {
            re \<leftarrow> run_session git (Command (gw_Git cfg) op [repoDir]);
            return (case re of Some e \<Rightarrow> Fail (Wrapf ''%s %s: %w'' [op, repoDir] e) | None \<Rightarrow> Ok ()) }
      })"

definition greet :: "Identity \<Rightarrow> unit result io" where
  "greet ident = do {
     r \<leftarrow> write_stdout (Greeting ident);
     return (case r of Inl e \<Rightarrow> Fail (Wrapf ''write greeting: %w'' [] e) | Inr _ \<Rightarrow> Ok ())
   }"

definition Serve :: "git_prog \<Rightarrow> statfs \<Rightarrow> string list \<Rightarrow> GatewayConfig \<Rightarrow> unit result io" where
  "Serve git st env cfg =
     (let ident = IdentityFromEnv env; raw = envGet env ''SSH_ORIGINAL_COMMAND'' in
      if TrimSpace raw = [] then greet ident
      else case ParseCommand raw of
        Inl e \<Rightarrow> return (Fail e)
      | Inr [] \<Rightarrow> greet ident
      | Inr (op # rest) \<Rightarrow>
          if op \<noteq> opUploadPack \<and> op \<noteq> opReceivePack
          then return (Fail (Errf ''command rejected: only %s and %s are allowed, got %q'' [opUploadPack, opReceivePack, op]))
          else (case rest of
            [arg] \<Rightarrow>
              (case RepoNameFromArg arg of
                 Inl e \<Rightarrow> return (Fail e)
               | Inr name \<Rightarrow>
                   if \<not> Complete ident
                   then return (Fail (Errf ''command rejected: missing pusher identity (SSH_AUTH_KEY_FP/SSH_AUTH_CERT_ID); is sshd patched?'' []))
                   else serve_pack git st cfg op name)
          | _ \<Rightarrow> return (Fail (Errf ''command rejected: %s takes exactly one repository argument'' [op]))))"

section \<open>Tokenizer: facts\<close>

lemma parse_words_quotes:
  "parse_words s args cur q started = None \<longleftrightarrow> odd (length (filter (\<lambda>c. c = quote_char) s) + of_bool q)"
  by (induction s args cur q started rule: parse_words.induct) auto

lemma parse_words_clean:
  "parse_words s args cur q started = Some ws \<Longrightarrow> quote_char \<notin> set cur \<Longrightarrow>
     list_all (\<lambda>a. quote_char \<notin> set a) args \<Longrightarrow> list_all (\<lambda>a. quote_char \<notin> set a) ws"
  by (induction s args cur q started rule: parse_words.induct) (auto split: if_splits)

text \<open>
  \<open>ParseCommand\<close> fails exactly on the commands with an odd number of single quotes, and no word of
  a successful parse contains a quote: quoting is always resolved.
\<close>

theorem ParseCommand_quotes:
  "case ParseCommand s of
     Inl _ \<Rightarrow> odd (length (filter (\<lambda>c. c = quote_char) s))
   | Inr ws \<Rightarrow> even (length (filter (\<lambda>c. c = quote_char) s)) \<and> list_all (\<lambda>a. quote_char \<notin> set a) ws"
  using parse_words_quotes [of s "[]" "[]" False False] parse_words_clean [of s "[]" "[]" False False]
  by (auto simp: ParseCommand_def split: option.split)

text \<open>How a client quotes the words of a command: each in single quotes, separated by blanks.\<close>

definition quote_word :: "string \<Rightarrow> string" where
  "quote_word a = quote_char # a @ [quote_char]"

lemma parse_words_quoted:
  "quote_char \<notin> set a \<Longrightarrow> parse_words (a @ quote_char # s) args cur True True = parse_words s args (cur @ a) False True"
  by (induction a arbitrary: cur) auto

lemma parse_quote_word:
  "quote_char \<notin> set a \<Longrightarrow> parse_words (quote_word a @ s) args [] False started = parse_words s args a False True"
  using parse_words_quoted [of a s args "[]"] by (simp add: quote_word_def)

lemma parse_quoted_words:
  "list_all (\<lambda>a. quote_char \<notin> set a) ws \<Longrightarrow>
     parse_words (join_with '' '' (map quote_word ws)) args [] False False = Some (args @ ws)"
proof (induction ws arbitrary: args)
  case (Cons a ws)
  then show ?case
    using parse_quote_word [of a "[]" args False]
    by (cases ws) (auto simp: join_with_Cons parse_quote_word word_space_def)
qed simp

text \<open>
  Round trip: any argument vector whose words contain no single quote, quoted word by word the way
  a git client quotes the repository path, is what \<open>ParseCommand\<close> returns.
\<close>

theorem ParseCommand_quoted:
  assumes "list_all (\<lambda>a. quote_char \<notin> set a) ws"
  shows "ParseCommand (join_with '' '' (map quote_word ws)) = Inr ws"
  using parse_quoted_words [OF assms, of "[]"] by (simp add: ParseCommand_def)

theorem ParseCommand_quoted_witness:
  "list_all (\<lambda>a. quote_char \<notin> set a) [''git-upload-pack'', ''a b.git'', []]
   \<and> ParseCommand (join_with '' '' (map quote_word [''git-upload-pack'', ''a b.git'', []]))
       = Inr [''git-upload-pack'', ''a b.git'', []]"
  using ParseCommand_quoted [of "[''git-upload-pack'', ''a b.git'', []]"] by simp

section \<open>The gateway: facts\<close>

lemma RepoNameFromArg_valid: "RepoNameFromArg arg = Inr name \<Longrightarrow> ValidName name"
  by (auto simp: RepoNameFromArg_def Let_def split: if_splits)

lemma starts_nothing_stat_all [frame]: "starts_nothing (stat_all d ns)"
  by (induction ns) (auto intro!: frame)

lemma starts_nothing_gateway [frame]:
  "starts_nothing (IsBareRepo d)" "starts_nothing (writeDescription d n)" "starts_nothing (verifyHooks d)"
  "starts_nothing (greet i)"
  unfolding IsBareRepo_def writeDescription_def verifyHooks_def greet_def by (intro frame)+

definition init_cmd :: "GatewayConfig \<Rightarrow> string \<Rightarrow> cmd" where
  "init_cmd cfg dir = Git (gw_Git cfg) [''init'', ''--bare'', dir]"

lemma init_cmd_dir: "(Git (gw_Git cfg) [''init'', ''--bare'', dir])\<lparr>cmd_dir := []\<rparr> = init_cmd cfg dir"
  by (simp add: init_cmd_def Git_def command_def)

lemma wp_Run:
  assumes "\<And>r w'. execs w' = (Git R args)\<lparr>cmd_dir := []\<rparr> # execs w \<Longrightarrow> Q r w'"
  shows "wp (Run git R args) Q w"
  unfolding Run_def runner_run_def wp_bind wp_exec_cmd
  by (auto simp: assms Git_def split: prod.split)

lemma pushToCreate_execs:
  "wp (pushToCreate git cfg name dir) (\<lambda>r w'. execs w' = execs w \<or> execs w' = init_cmd cfg dir # execs w) w"
  unfolding pushToCreate_def wp_bind
proof (rule wp_starts_nothing, (intro frame), goal_cases)
  case (1 r w1)
  have s: "wp m (\<lambda>r w'. execs w' = execs w \<or> execs w' = init_cmd cfg dir # execs w) w2"
    if "starts_nothing m" "execs w2 = execs w \<or> execs w2 = init_cmd cfg dir # execs w" for m :: "unit result io" and w2
    using that by (auto intro!: wp_starts_nothing)
  show ?case
  proof (cases r)
    case (Inl e)
    with 1 show ?thesis by (auto intro!: s frame)
  next
    case (Inr u)
    show ?thesis
      unfolding Inr sum.case wp_bind
      by (rule wp_Run) (use 1 in \<open>auto simp: init_cmd_dir split: sum.split intro!: s frame\<close>)
  qed
qed

text \<open>
  The programs the gateway may start for a request: git's own pack server on a valid repository, and
  for a push that passes the headroom check also the creation of that repository.
\<close>

definition gateway_may_start :: "statfs \<Rightarrow> GatewayConfig \<Rightarrow> cmd \<Rightarrow> bool" where
  "gateway_may_start st cfg c \<longleftrightarrow> (\<exists>name. ValidName name \<and>
     (let dir = Join [ReposRoot cfg, name @ ''.git''] in
      c = Command (gw_Git cfg) opUploadPack [dir]
      \<or> (fst (Headroom_Check st (gw_Headroom cfg) (ReposRoot cfg)) = Inr ()
         \<and> (c = Command (gw_Git cfg) opReceivePack [dir] \<or> c = init_cmd cfg dir))))"

definition gateway_started :: "statfs \<Rightarrow> GatewayConfig \<Rightarrow> world \<Rightarrow> world \<Rightarrow> bool" where
  "gateway_started st cfg w w' \<longleftrightarrow> (\<exists>cs. execs w' = cs @ execs w \<and> list_all (gateway_may_start st cfg) cs)"

lemma gateway_started_same: "execs w' = execs w \<Longrightarrow> gateway_started st cfg w w'"
  by (simp add: gateway_started_def)

lemma gateway_started_Cons:
  "gateway_started st cfg w w1 \<Longrightarrow> execs w' = c # execs w1 \<Longrightarrow> gateway_may_start st cfg c \<Longrightarrow> gateway_started st cfg w w'"
  unfolding gateway_started_def by (metis append_Cons list.pred_inject(2))

lemma run_session_execs:
  assumes "\<And>r w'. execs w' = c # execs w \<Longrightarrow> Q r w'"
  shows "wp (run_session git c) Q w"
  unfolding run_session_def wp_bind wp_exec_cmd by (auto simp: wp_def split: prod.split intro!: assms)

lemma serve_pack_execs:
  assumes "ValidName name" "op = opUploadPack \<or> op = opReceivePack"
  shows "wp (serve_pack git st cfg op name) (\<lambda>r w'. gateway_started st cfg w w') w"
proof -
  let ?dir = "Join [ReposRoot cfg, name @ ''.git'']"
  let ?post = "\<lambda>r w'. gateway_started st cfg w w'"
  let ?ok = "fst (Headroom_Check st (gw_Headroom cfg) (ReposRoot cfg)) = Inr ()"
  have tail: "wp (case pre of
          Inl e \<Rightarrow> return (Fail e)
        | Inr _ \<Rightarrow> do {
            re \<leftarrow> run_session git (Command (gw_Git cfg) op [?dir]);
            return (case re of Some e \<Rightarrow> Fail (Wrapf ''%s %s: %w'' [op, ?dir] e) | None \<Rightarrow> Ok ()) }) ?post w1"
    if "gateway_started st cfg w w1" "op = opReceivePack \<longrightarrow> (\<exists>u. pre = Inr u) \<longrightarrow> ?ok" for pre :: "unit result" and w1
  proof (cases pre)
    case (Inr u)
    with that assms have "gateway_may_start st cfg (Command (gw_Git cfg) op [?dir])"
      unfolding gateway_may_start_def Let_def by blast
    with that Inr show ?thesis
      by (auto simp: wp_bind intro!: run_session_execs elim: gateway_started_Cons)
  qed (use that in simp)
  show ?thesis
  proof (cases "op = opReceivePack \<and> ?ok")
    case True
    then have op: "op = opReceivePack" by simp
    from True have "gateway_may_start st cfg (init_cmd cfg ?dir)"
      using assms unfolding gateway_may_start_def Let_def by blast
    then show ?thesis using True
      unfolding serve_pack_def Let_def wp_bind
      by (auto intro!: wp_mono [OF pushToCreate_execs] tail [unfolded op]
          intro: gateway_started_same gateway_started_Cons [OF gateway_started_same [OF refl]])
  next
    case False
    then show ?thesis
      unfolding serve_pack_def Let_def wp_bind
      using tail [of w "Inr ()"] by (auto simp: gateway_started_same split: sum.split)
  qed
qed

lemma Serve_execs:
  "wp (Serve git st env cfg) (\<lambda>r w'. gateway_started st cfg w w' \<and> (\<not> Complete (IdentityFromEnv env) \<longrightarrow> execs w' = execs w)) w"
proof -
  define post where "post = (\<lambda>(r :: unit result) w'. gateway_started st cfg w w' \<and>
     (\<not> Complete (IdentityFromEnv env) \<longrightarrow> execs w' = execs w))"
  have greet: "wp (greet i) post w" for i
    by (auto simp: post_def intro!: wp_starts_nothing gateway_started_same frame)
  have pack: "wp (serve_pack git st cfg op name) post w"
    if "Complete (IdentityFromEnv env)" "ValidName name" "op = opUploadPack \<or> op = opReceivePack" for op name
    using serve_pack_execs [OF that(2,3)] that(1) by (auto simp: post_def elim: wp_mono)
  have ret: "post r w" for r by (simp add: post_def gateway_started_same)
  have "wp (Serve git st env cfg) post w"
    unfolding Serve_def Let_def
    by (auto intro!: pack simp: greet ret dest: RepoNameFromArg_valid split: sum.split list.split)
  then show ?thesis by (simp add: post_def)
qed

text \<open>
  C1. Fail-closed gateway: whatever the client asks for and whatever fails on the way, the gateway
  starts no program other than \<open>git-upload-pack\<close>, \<open>git-receive-pack\<close> and \<open>git init --bare\<close>, each with
  the pinned environment and on one directory \<open>root/<name>.git\<close> whose name passes the allowlist; a push
  starts anything only with disk headroom, and nothing at all starts without a complete identity.
\<close>

theorem Serve_fail_closed:
  assumes "run_state (Serve git st env cfg) w = (r, w')"
  shows "gateway_started st cfg w w' \<and> (\<not> Complete (IdentityFromEnv env) \<longrightarrow> execs w' = execs w)"
  using wp_run [OF Serve_execs assms] .

text \<open>A complete identity asking for a fetch: exactly the pack server runs.\<close>

definition sample_gateway :: GatewayConfig where
  "sample_gateway = \<lparr>ReposRoot = ''/srv'', HooksDir = [],
     gw_Git = \<lparr>gitBin = ''git'', runner_home = ''/h'', runner_path = ''/bin'', objectFormat = []\<rparr>,
     gw_Headroom = \<lparr>MinFree = 0, WarnFree = 0\<rparr>\<rparr>"

definition quiet_git :: git_prog where
  "quiet_git c t = (\<lparr>out = [], err_out = [], exit_status = Exited 0\<rparr>, t)"

theorem Serve_fail_closed_witness:
  "\<exists>w'. run_state (Serve quiet_git (\<lambda>_. Inr (0, 0)) [''SSH_AUTH_KEY_FP=f'', ''SSH_AUTH_CERT_ID=c'',
        ''SSH_ORIGINAL_COMMAND=git-upload-pack alpha.git''] sample_gateway) sample_repos = (Inr (), w')
     \<and> length (execs w') = 1 \<and> gateway_started (\<lambda>_. Inr (0, 0)) sample_gateway sample_repos w'"
proof -
  let ?run = "run_state (Serve quiet_git (\<lambda>_. Inr (0, 0)) [''SSH_AUTH_KEY_FP=f'', ''SSH_AUTH_CERT_ID=c'',
        ''SSH_ORIGINAL_COMMAND=git-upload-pack alpha.git''] sample_gateway) sample_repos"
  have c: "fst ?run = Inr ()" "length (execs (snd ?run)) = 1" by code_simp+
  from Serve_fail_closed [OF run_result [OF c(1)]] c run_result [OF c(1)] show ?thesis by blast
qed

section \<open>Push-to-create: facts\<close>

text \<open>
  The push-to-create race check, with no fault: an existing directory is used as it is, exactly
  when it has the bare layout, and nothing is written and nothing is started; a missing one is
  created by one \<open>git init --bare\<close> in the directory that \<open>Mkdir\<close> just made.
\<close>

theorem pushToCreate_race_check:
  assumes "faults w = []" "run_state (pushToCreate git cfg name dir) w = (r, w')" "dir \<noteq> ''/''"
  shows "(lookup (tree w) dir \<noteq> None \<longrightarrow> w' = w \<and> (r = Inr () \<longleftrightarrow> bare_layout (tree w) dir))
    \<and> (lookup (tree w) dir = None \<and> lookup (tree w) (Dir dir) = Some Directory \<longrightarrow>
         execs w' = init_cmd cfg dir # execs w)
    \<and> (lookup (tree w) dir = None \<and> lookup (tree w) (Dir dir) \<noteq> Some Directory \<longrightarrow>
         w' = w \<and> (\<exists>e. r = Inl e))"
proof (cases "lookup (tree w) dir")
  case None
  show ?thesis
  proof (cases "lookup (tree w) (Dir dir) = Some Directory")
    case True
    let ?w1 = "w\<lparr>tree := AList.update dir Directory (tree w),
        journal := (AList.update dir Directory (tree w), durable w) # journal w\<rparr>"
    have "run_state (os_Mkdir dir) w = (Inr (), ?w1)"
      using None True assms(1) by (simp add: os_Mkdir_def)
    moreover have "wp (Run git (gw_Git cfg) [''init'', ''--bare'', dir] \<bind> (\<lambda>ri. case ri of
           Inl e \<Rightarrow> return (Fail (Wrapf ''push-to-create %s: init: %w'' [name] e))
         | Inr _ \<Rightarrow> do {
             rd \<leftarrow> writeDescription dir name;
             case rd of
               Inl e \<Rightarrow> return (Fail (Wrapf ''push-to-create %s: %w'' [name] e))
             | Inr _ \<Rightarrow> do {
                 rh \<leftarrow> verifyHooks (HooksDir cfg);
                 return (case rh of
                    Inl e \<Rightarrow> Fail (Wrapf ''push-to-create %s: %w'' [name] e)
                  | Inr _ \<Rightarrow> Ok ()) } }))
       (\<lambda>r w'. execs w' = init_cmd cfg dir # execs w) ?w1"
      unfolding wp_bind init_cmd_dir [symmetric]
      by (rule wp_Run) (auto simp: init_cmd_dir intro!: wp_starts_nothing frame split: sum.split)
    ultimately show ?thesis using assms(2) None True
      by (auto simp: pushToCreate_def dest: wp_run)
  next
    case False
    with None assms show ?thesis by (auto simp: pushToCreate_def os_Mkdir_def)
  qed
next
  case (Some n)
  obtain b where b: "run_state (IsBareRepo dir) w = (b, w)" "b = Inr True \<longleftrightarrow> bare_layout (tree w) dir"
    using IsBareRepo_nil [OF assms(1)] by blast
  have "run_state (os_Mkdir dir) w = (Inl (PathError ''mkdir'' dir EEXIST), w)"
    using Some assms(1) by (simp add: os_Mkdir_def)
  with Some b assms(2) show ?thesis by (cases b) (auto simp: pushToCreate_def split: if_splits)
qed

theorem pushToCreate_race_check_witness:
  "faults sample_repos = []
   \<and> fst (run_state (pushToCreate quiet_git sample_gateway ''alpha'' ''/srv/alpha.git'') sample_repos) = Inr ()
   \<and> bare_layout (tree sample_repos) ''/srv/alpha.git''"
proof -
  let ?run = "run_state (pushToCreate quiet_git sample_gateway ''alpha'' ''/srv/alpha.git'') sample_repos"
  have c: "fst ?run = Inr ()" "faults sample_repos = []" "lookup (tree sample_repos) ''/srv/alpha.git'' \<noteq> None"
    by code_simp+
  from pushToCreate_race_check [OF c(2) run_result [OF c(1)]] c show ?thesis by simp
qed

end
