(* ===== verification/Cli.thy ===== *)
theory Cli
  imports Hooks Browse Browse_Tls Serve_Jobs Sshcmd
begin

text \<open>
  \<open>internal/cli\<close>: the verbs of the \<open>gitd\<close> program apart from the two hooks, their flags and usage errors, and the
  dispatch that turns an error into an exit code; \<open>internal/version\<close>. What the process gets from outside,
  beyond the record of the hooks: the clock, the X.509 functions, the transport of the plugins, the
  file watcher, the version stamped at link time, and how the two servers of the daemon end.
\<close>

section \<open>Usage texts\<close>

definition text_lines :: "string list \<Rightarrow> string" where
  "text_lines ls = concat (map (\<lambda>l. l @ [newline_char]) ls)"

definition spoolUsageText :: string where
  "spoolUsageText = text_lines
     [''usage: gitd spool <command> [args]'', [],
      ''commands:'',
      ''  list                emit the queued webhook events as NDJSON (one object per'',
      ''                      event: envelope + internal state block). Default'',
      ''                      destination is the configured spool dir (/var/spool/gitd)'',
      ''  replay <event-id>   re-deliver one event to every configured webhook plugin'',
      ''                      synchronously via the serve socket (POST /v1/deliver);'',
      ''                      fails loudly if serve is down'',
      ''  purge               remove events already delivered past the spool retention'',
      ''                      TTL (spool.retention)'',
      ''  help                print this reference'', [],
      ''exit codes: 0 ok, 1 runtime error, 2 usage error'']"

definition mirrorUsageText :: string where
  "mirrorUsageText = text_lines
     [''usage: gitd mirror <command> [args]'', [],
      ''commands:'',
      ''  list [<repo>]         list S3 bundle mirrors; with no <repo>, lists every'',
      ''                        repo that has mirrors (one NDJSON object per repo)'',
      ''  delete <repo>         delete all bundle mirrors for <repo>'',
      ''  restore <repo>        restore <repo> from its latest bundle into'',
      ''                        /srv/git/<repo>.git (submitted to the gitd-serve'',
      ''                        socket; serve stages the job and the gitd-restore'',
      ''                        agent writes /srv/git as git)'', [],
      ''exit codes: 0 ok, 1 runtime error, 2 usage error'']"

definition repoUsageText :: string where
  "repoUsageText = text_lines
     [''usage: gitd repo <command> [args]'', [],
      ''commands:'',
      ''  list                list the live bare repositories under /srv/git'',
      ''                      (read-only; one repo name per line)'',
      ''  delete --yes <repo> remove /srv/git/<repo>.git from the live repo store'',
      ''                      (submitted to the gitd-serve socket; the gitd-restore'',
      ''                      agent performs the /srv/git removal as git). S3 bundle'',
      ''                      mirrors are retained, so the repo can be recreated with'',
      ''                      gitd mirror restore <repo>. Requires gitd-serve +'',
      ''                      gitd-restore running and the mandatory --yes gate'',
      ''  help                print this reference'', [],
      ''exit codes: 0 ok, 1 runtime error, 2 usage error'']"

text \<open>The help of a verb: its write is not checked.\<close>

definition print_usage :: "string \<Rightarrow> unit result io" where
  "print_usage t = do { _ \<leftarrow> write_stdout t; return (Ok ()) }"

section \<open>The spool verb\<close>

fun emit_records :: "Record list \<Rightarrow> unit result io" where
  "emit_records [] = return (Ok ())"
| "emit_records (rec # recs) = do {
     r \<leftarrow> write_stdout (encode_record rec @ [newline_char]);
     case r of
       Inl e \<Rightarrow> return (Fail (Wrapf ''spool list: encode: %w'' [] e))
     | Inr _ \<Rightarrow> emit_records recs
   }"

definition spoolList :: "Store \<Rightarrow> unit result io" where
  "spoolList s = do {
     r \<leftarrow> List_records s;
     case r of Inl e \<Rightarrow> return (Fail e) | Inr recs \<Rightarrow> emit_records recs
   }"

fun replay_to :: "Client \<Rightarrow> string \<Rightarrow> PluginConfig list \<Rightarrow> unit result io" where
  "replay_to c eid [] = return (Ok ())"
| "replay_to c eid (p # ps) = do {
     r \<leftarrow> Client_Deliver c (plugin_ID p) eid;
     case r of
       Inl e \<Rightarrow> return (Fail (Wrapf ''spool replay %s: %w'' [eid] e))
     | Inr _ \<Rightarrow> replay_to c eid ps
   }"

definition spoolReplay :: "Host \<Rightarrow> string \<Rightarrow> Store \<Rightarrow> string \<Rightarrow> Client \<Rightarrow> unit result io" where
  "spoolReplay h gitd_file s eid c = do {
     r \<leftarrow> Read s eid;
     case r of
       Inl e \<Rightarrow> return (Fail e)
     | Inr _ \<Rightarrow> do {
         rw \<leftarrow> LoadWebhooks (yaml_webhooks h) (webhooksPathFor gitd_file);
         case rw of Inl e \<Rightarrow> return (Fail e) | Inr webhooks \<Rightarrow> replay_to c eid (Plugins webhooks) }
   }"

definition spool_usage_error :: "string \<Rightarrow> string list \<Rightarrow> gerror option" where
  "spool_usage_error sub subArgs =
     (if sub = ''list'' \<or> sub = ''purge'' then
        (if subArgs \<noteq> [] then Some (errUsage ''usage: gitd spool %s (no arguments)'' [sub]) else None)
      else if sub = ''replay'' then
        (if length subArgs \<noteq> 1 then Some (errUsage ''usage: gitd spool replay <event-id>'' []) else None)
      else Some (errUsage ''unknown spool subcommand %q (list|replay|purge|help)'' [sub]))"

definition spool_verb :: "Host \<Rightarrow> time \<Rightarrow> string \<Rightarrow> Store \<Rightarrow> string \<Rightarrow> string list \<Rightarrow> unit result io" where
  "spool_verb h now cfg s sub subArgs =
     (if sub = ''list'' then spoolList s
      else if sub = ''replay'' then spoolReplay h cfg s (hd subArgs) (socket_client h)
      else if sub = ''purge'' then do {
        rp \<leftarrow> Purge s now;
        case rp of
          (n, Some e) \<Rightarrow> return (Fail e)
        | (n, None) \<Rightarrow> write_stdout (''purged '' @ show_nat n @ '' events'' @ [newline_char]) }
      else return (Ok ()))"

definition runSpool :: "Host \<Rightarrow> time \<Rightarrow> string list \<Rightarrow> unit result io" where
  "runSpool h now args =
     (case parseConfigFlag args of
        Inl e \<Rightarrow> return (Fail e)
      | Inr (cfg, []) \<Rightarrow> return (Fail (errUsage ''%s'' [spoolUsageText]))
      | Inr (cfg, sub # subArgs) \<Rightarrow>
          if sub = ''help'' then
            (if subArgs \<noteq> [] then return (Fail (errUsage ''usage: gitd spool help'' [])) else print_usage spoolUsageText)
          else case spool_usage_error sub subArgs of
            Some e \<Rightarrow> return (Fail e)
          | None \<Rightarrow> do {
              rg \<leftarrow> LoadGitd (yaml_gitd h) cfg;
              case rg of
                Inl e \<Rightarrow> return (Fail e)
              | Inr gitd \<Rightarrow>
                  (case NewLogger gitd of
                     Inl e \<Rightarrow> return (Fail e)
                   | Inr log \<Rightarrow> spool_verb h now cfg (NewStore cli_spoolDir (Retention (cfg_Spool gitd))) sub subArgs) })"

section \<open>The repo verb\<close>

abbreviation repo_formal :: "(string \<times> flag_kind) list" where
  "repo_formal \<equiv> [(''yes'', BoolFlag), (''config'', StringFlag)]"

lemma flag_Parse_step:
  assumes "flag_Parse formal vals (s # args) = Inr r"
  shows "snd r = s # args \<or> snd r = args \<or> (\<exists>v. flag_Parse formal v args = Inr r)
    \<or> (\<exists>x rest v. args = x # rest \<and> flag_Parse formal v rest = Inr r)"
  using assms unfolding flag_Parse.simps(2)
  by (auto simp del: flag_Parse.simps split: option.splits if_splits prod.splits flag_kind.splits list.splits)

lemma flag_Parse_shorter: "flag_Parse formal vals args = Inr r \<Longrightarrow> length (snd r) \<le> length args"
proof (induction args arbitrary: vals rule: length_induct)
  case (1 args)
  show ?case
  proof (cases args)
    case Nil
    with 1 show ?thesis by auto
  next
    case (Cons s as)
    have IH: "length (snd r) \<le> length ys" if "flag_Parse formal v ys = Inr r" "length ys \<le> length as" for v ys
      using "1.IH" Cons that by (auto simp del: flag_Parse.simps simp: less_Suc_eq_le)
    from flag_Parse_step [OF "1.prems" [unfolded Cons]] Cons show ?thesis
      by (auto simp del: flag_Parse.simps dest!: IH)
  qed
qed

text \<open>The loop of \<open>parseRepoFlags\<close>: parsing resumes past each positional argument.\<close>

function repo_flags :: "flag_values \<Rightarrow> string list \<Rightarrow> string list \<Rightarrow> (flag_values \<times> string list) result" where
  "repo_flags vals remaining positional =
     (case flag_Parse repo_formal vals remaining of
        Inl e \<Rightarrow> Fail (errUsage ''bad flags: %v'' [err_text e])
      | Inr (vals', got) \<Rightarrow>
          (case got of
             [] \<Rightarrow> Ok (vals', positional)
           | g # rest \<Rightarrow> repo_flags vals' rest (positional @ [g])))"
  by pat_completeness auto
termination by (relation "measure (\<lambda>(vals, remaining, positional). length remaining)") (auto dest!: flag_Parse_shorter)

declare repo_flags.simps [simp del]

definition parseRepoFlags :: "string list \<Rightarrow> (bool \<times> string \<times> string list) result" where
  "parseRepoFlags args =
     (case repo_flags [(''yes'', ''false''), (''config'', cli_defaultConfig)] args [] of
        Inl e \<Rightarrow> Fail e
      | Inr (vals, positional) \<Rightarrow> Ok (the_value vals ''yes'' = ''true'', the_value vals ''config'', positional))"

fun print_names :: "string list \<Rightarrow> unit result io" where
  "print_names [] = return (Ok ())"
| "print_names (n # ns) = do {
     r \<leftarrow> write_stdout (n @ [newline_char]);
     case r of Inl e \<Rightarrow> return (Fail e) | Inr _ \<Rightarrow> print_names ns
   }"

definition repoList :: "unit result io" where
  "repoList = do {
     r \<leftarrow> ListBare cli_reposRoot;
     case r of Inl e \<Rightarrow> return (Fail e) | Inr names \<Rightarrow> print_names names
   }"

definition repoDelete :: "Host \<Rightarrow> string \<Rightarrow> unit result io" where
  "repoDelete h repoName = Client_DeleteRepo (socket_client h) repoName"

definition repo_usage_error :: "bool \<Rightarrow> string \<Rightarrow> string list \<Rightarrow> gerror option" where
  "repo_usage_error yes sub subArgs =
     (if sub = ''list'' then (if subArgs \<noteq> [] then Some (errUsage ''usage: gitd repo list'' []) else None)
      else if sub = ''delete'' then
        (if \<not> yes then Some (errUsage (''gitd repo delete requires the --yes confirmation gate:'' @ [newline_char] @ ''%s'') [repoUsageText])
         else if length subArgs \<noteq> 1 then Some (errUsage ''usage: gitd repo delete --yes <repo>'' [])
         else None)
      else Some (errUsage ''unknown repo subcommand %q (list|delete|help)'' [sub]))"

definition runRepo :: "Host \<Rightarrow> string list \<Rightarrow> unit result io" where
  "runRepo h args =
     (case parseRepoFlags args of
        Inl e \<Rightarrow> return (Fail e)
      | Inr (yes, cfg, []) \<Rightarrow> return (Fail (errUsage ''%s'' [repoUsageText]))
      | Inr (yes, cfg, sub # subArgs) \<Rightarrow>
          if sub = ''help'' then
            (if subArgs \<noteq> [] then return (Fail (errUsage ''usage: gitd repo help'' [])) else print_usage repoUsageText)
          else case repo_usage_error yes sub subArgs of
            Some e \<Rightarrow> return (Fail e)
          | None \<Rightarrow>
              if sub = ''list'' then repoList
              else if \<not> ValidName (hd subArgs) then return (Fail (errUsage ''invalid repo name %q'' [hd subArgs]))
              else repoDelete h (hd subArgs))"

section \<open>The mirror verb\<close>

text \<open>A store that finds no key returns a nil slice, which encodes as \<open>null\<close>.\<close>

definition mirror_json :: "string \<Rightarrow> string list \<Rightarrow> json" where
  "mirror_json repoName bundles =
     JObj [(''repo'', JStr repoName), (''bundles'', if bundles = [] then JNull else JArr (map JStr bundles))]"

definition emitMirror :: "string \<Rightarrow> string list \<Rightarrow> unit result io" where
  "emitMirror repoName bundles = do {
     r \<leftarrow> write_stdout (print_json (mirror_json repoName bundles) @ [newline_char]);
     return (case r of Inl e \<Rightarrow> Fail (Wrapf ''mirror list: encode: %w'' [] e) | Inr _ \<Rightarrow> Ok ())
   }"

definition mirrorList :: "Mirror \<Rightarrow> string \<Rightarrow> unit result io" where
  "mirrorList m repoName = do {
     r \<leftarrow> Mirror_List m repoName;
     case r of Inl e \<Rightarrow> return (Fail e) | Inr keys \<Rightarrow> emitMirror repoName keys
   }"

fun emit_mirrors :: "(string \<times> string list) list \<Rightarrow> string list \<Rightarrow> unit result io" where
  "emit_mirrors repos [] = return (Ok ())"
| "emit_mirrors repos (name # names) = do {
     r \<leftarrow> emitMirror name (case map_of repos name of None \<Rightarrow> [] | Some ks \<Rightarrow> ks);
     case r of Inl e \<Rightarrow> return (Fail e) | Inr _ \<Rightarrow> emit_mirrors repos names
   }"

definition mirrorListAll :: "Mirror \<Rightarrow> unit result io" where
  "mirrorListAll m = do {
     r \<leftarrow> ListAllRepos m;
     case r of Inl e \<Rightarrow> return (Fail e) | Inr repos \<Rightarrow> emit_mirrors repos (sort (map fst repos))
   }"

definition mirrorRestore :: "Host \<Rightarrow> string \<Rightarrow> unit result io" where
  "mirrorRestore h repoName = Client_Restore (socket_client h) repoName"

definition storeFor :: "Host \<Rightarrow> GitdConfig \<Rightarrow> ObjectStore result" where
  "storeFor h gitd = host_store h (Bucket (Storage gitd)) (Region (Storage gitd))"

definition mirror_for :: "Host \<Rightarrow> GitdConfig \<Rightarrow> ObjectStore \<Rightarrow> Mirror" where
  "mirror_for h gitd store = Mirror_New store (runner_for h gitd) cli_reposRoot (Prefix (Storage gitd)) cli_spoolDir"

definition mirror_usage_error :: "string \<Rightarrow> string list \<Rightarrow> gerror option" where
  "mirror_usage_error sub subArgs =
     (if sub = ''list'' then (if 1 < length subArgs then Some (errUsage ''usage: gitd mirror list [<repo>]'' []) else None)
      else if sub = ''delete'' then (if length subArgs \<noteq> 1 then Some (errUsage ''usage: gitd mirror %s <repo>'' [sub]) else None)
      else if sub = ''restore'' then (if length subArgs \<noteq> 1 then Some (errUsage ''usage: gitd mirror restore <repo>'' []) else None)
      else Some (errUsage ''unknown mirror subcommand %q (list|delete|restore)'' [sub]))"

definition mirror_verb :: "Host \<Rightarrow> GitdConfig \<Rightarrow> string \<Rightarrow> string list \<Rightarrow> unit result io" where
  "mirror_verb h gitd sub subArgs =
     (if sub = ''restore'' then mirrorRestore h (hd subArgs)
      else case NewLogger gitd of
        Inl e \<Rightarrow> return (Fail e)
      | Inr log \<Rightarrow>
          (case storeFor h gitd of
             Inl e \<Rightarrow> return (Fail e)
           | Inr store \<Rightarrow>
               let m = mirror_for h gitd store in
               if sub = ''list'' then (if length subArgs = 1 then mirrorList m (hd subArgs) else mirrorListAll m)
               else Mirror_Delete m (hd subArgs)))"

definition runMirror :: "Host \<Rightarrow> string list \<Rightarrow> unit result io" where
  "runMirror h args =
     (case parseConfigFlag args of
        Inl e \<Rightarrow> return (Fail e)
      | Inr (cfg, []) \<Rightarrow> return (Fail (errUsage ''%s'' [mirrorUsageText]))
      | Inr (cfg, sub # subArgs) \<Rightarrow>
          if sub = ''help'' then
            (if subArgs \<noteq> [] then return (Fail (errUsage ''usage: gitd mirror help'' [])) else print_usage mirrorUsageText)
          else case mirror_usage_error sub subArgs of
            Some e \<Rightarrow> return (Fail e)
          | None \<Rightarrow> do {
              rg \<leftarrow> LoadGitd (yaml_gitd h) cfg;
              case rg of Inl e \<Rightarrow> return (Fail e) | Inr gitd \<Rightarrow> mirror_verb h gitd sub subArgs })"

section \<open>The ddns verb\<close>

text \<open>
  The two regular expressions of \<open>ddnsSuccess\<close>, case-insensitive for ASCII letters: whether the reply holds
  the tag, and the digits of the first \<open>ErrCount\<close> element.
\<close>

definition re_space :: "char \<Rightarrow> bool" where
  "re_space c \<longleftrightarrow> c \<in> {tab_char, newline_char, CHR 0x0C, return_char, CHR '' ''}"

definition errcount_at :: "string \<Rightarrow> string option" where
  "errcount_at s =
     (if \<not> HasPrefix (ToLower s) ''<errcount>'' then None
      else let body = dropWhile re_space (drop 10 s); digits = takeWhile is_digit body;
               rest = dropWhile re_space (dropWhile is_digit body) in
        if digits \<noteq> [] \<and> HasPrefix (ToLower rest) ''</errcount>'' then Some digits else None)"

fun errcount :: "string \<Rightarrow> string option" where
  "errcount [] = None"
| "errcount (c # s) = (case errcount_at (c # s) of Some d \<Rightarrow> Some d | None \<Rightarrow> errcount s)"

definition ddnsSuccess :: "string \<Rightarrow> bool \<times> string" where
  "ddnsSuccess reply =
     (if HasPrefix reply ''Good'' \<or> HasPrefix reply ''OK'' \<or> HasPrefix reply ''No change'' then (True, reply)
      else if \<not> contains (ToLower reply) ''<interface-response>'' then (False, reply)
      else if errcount reply = Some ''0'' then (True, ''interface-response ErrCount=0 (record updated)'')
      else (False, reply))"

definition query_char :: "char \<Rightarrow> bool" where
  "query_char c \<longleftrightarrow> (97 \<le> code c \<and> code c \<le> 122) \<or> (65 \<le> code c \<and> code c \<le> 90) \<or> is_digit c \<or> c \<in> set ''-_.~''"

definition QueryEscape :: "string \<Rightarrow> string" where
  "QueryEscape s = concat (map (\<lambda>c.
     if query_char c then [c] else if c = CHR '' '' then ''+''
     else [CHR ''%'', upper_hex (code c div 16), upper_hex (code c mod 16)]) s)"

abbreviation ddnsEndpoint :: string where "ddnsEndpoint \<equiv> ''https://dynamicdns.park-your-domain.com/update''"

definition ddns_url :: "DDNSConfig \<Rightarrow> string \<Rightarrow> string" where
  "ddns_url d password = ddnsEndpoint @ ''?host='' @ QueryEscape (ddns_Host d) @ ''&domain='' @ QueryEscape (ddns_Domain d)
     @ ''&password='' @ QueryEscape password"

definition ddns_update :: "Host \<Rightarrow> DDNSConfig \<Rightarrow> string \<Rightarrow> unit result io" where
  "ddns_update h d password = do {
     r \<leftarrow> host_Get h (ddns_url d password);
     return (case r of
        Inl e \<Rightarrow> Fail (Wrapf ''ddns: update: %w'' [] e)
      | Inr resp \<Rightarrow>
          (case resp_ReadErr resp of
             Some e \<Rightarrow> Fail (Wrapf ''ddns: read response: %w'' [] e)
           | None \<Rightarrow>
               (let reply = filter (\<lambda>c. c \<noteq> nul_char) (TrimSpace (limit_body (resp_Body resp))) in
                if fst (ddnsSuccess reply) then Ok ()
                else Fail (Errf ''ddns: update failed (HTTP %d): %s'' [show_int (StatusCode resp), reply]))))
   }"

definition runDDNS :: "Host \<Rightarrow> string list \<Rightarrow> unit result io" where
  "runDDNS h args =
     (case parseConfigFlag args of
        Inl e \<Rightarrow> return (Fail e)
      | Inr (cfg, rest) \<Rightarrow>
          if rest \<noteq> [] then return (Fail (errUsage ''ddns takes no arguments'' []))
          else do {
            rg \<leftarrow> LoadGitd (yaml_gitd h) cfg;
            case rg of
              Inl e \<Rightarrow> return (Fail e)
            | Inr gitd \<Rightarrow>
                (case NewLogger gitd of
                   Inl e \<Rightarrow> return (Fail e)
                 | Inr log \<Rightarrow> do {
                     rp \<leftarrow> os_ReadFile (PasswordFile (DDNS gitd));
                     case rp of
                       Inl e \<Rightarrow> return (Fail (Wrapf ''ddns: read password_file: %w'' [] e))
                     | Inr raw \<Rightarrow>
                         if TrimSpace raw = []
                         then return (Fail (Errf ''ddns: password_file %s is empty'' [PasswordFile (DDNS gitd)]))
                         else ddns_update h (DDNS gitd) (TrimSpace raw) }) })"

section \<open>The daemons\<close>

record Daemon =
  dm_runtime :: Runtime
  dm_spool :: Store
  dm_serve :: ServeProc
  dm_browse :: Handler

text \<open>
  The process. \<open>pc_daemon\<close> is the first value that the two servers of the daemon send on the error channel,
  \<open>None\<close> while both run; \<open>pc_watch\<close> the results of the file watcher and what it reports.
\<close>

record Proc =
  pc_host :: Host
  pc_clock :: "nat \<Rightarrow> time"
  pc_x509 :: X509
  pc_http :: HttpEnv
  pc_watch :: "unit result \<times> unit result \<times> AgentSignal list"
  pc_daemon :: "Daemon \<Rightarrow> unit result option io"
  pc_version :: string

definition done_with :: "unit result io \<Rightarrow> unit result option io" where
  "done_with m = do { r \<leftarrow> m; return (Some r) }"

definition runMirrorAgent :: "Proc \<Rightarrow> string list \<Rightarrow> unit result option io" where
  "runMirrorAgent p args =
     (let h = pc_host p in
      case parseConfigFlag args of
        Inl e \<Rightarrow> return (Some (Fail e))
      | Inr (cfg, rest) \<Rightarrow>
          if rest \<noteq> [] then return (Some (Fail (errUsage ''mirror-agent takes no arguments'' [])))
          else do {
            rg \<leftarrow> LoadGitd (yaml_gitd h) cfg;
            case rg of
              Inl e \<Rightarrow> return (Some (Fail e))
            | Inr gitd \<Rightarrow>
                (case NewLogger gitd of
                   Inl e \<Rightarrow> return (Some (Fail e))
                 | Inr log \<Rightarrow>
                     (case storeFor h gitd of
                        Inl e \<Rightarrow> return (Some (Fail (Wrapf ''mirror-agent: storage: %w'' [] e)))
                      | Inr store \<Rightarrow>
                          Agent_Run (host_git h) (NewAgent (mirror_for h gitd store) (Join [cli_spoolDir, ''restore'']) cli_reposRoot)
                            (fst (pc_watch p)) (fst (snd (pc_watch p))) (snd (snd (pc_watch p))))) })"

definition gateway_for :: "Host \<Rightarrow> GitdConfig \<Rightarrow> GatewayConfig" where
  "gateway_for h gitd = \<lparr>ReposRoot = cli_reposRoot, HooksDir = cli_hooksDir, gw_Git = runner_for h gitd,
     gw_Headroom = \<lparr>MinFree = of_nat (DiskMinFreeBytes gitd), WarnFree = 1073741824\<rparr>\<rparr>"

definition serve_proc :: "Proc \<Rightarrow> GitdConfig \<Rightarrow> Runtime \<Rightarrow> ObjectStore \<Rightarrow> Store \<Rightarrow> ServeProc" where
  "serve_proc p gitd rt store spoolStore =
     (let h = pc_host p; plugins = Plugins (rt_webhooks rt);
          reg = (case Default_registry (pc_http p) of None \<Rightarrow> [] | Some r \<Rightarrow> r);
          deliverer = NewDeliverer plugins spoolStore reg in
      Serve_New (ActionsBufferSize (cfg_Serve gitd)) (mirror_for h gitd store) spoolStore plugins
        (Deliver deliverer (pc_clock p 0)) cli_reposRoot (Join [cli_spoolDir, ''restore'']) cli_socketPath
        (RestoreOnStart (cfg_Mirror gitd)))"

definition tls_paths :: "GitdConfig \<Rightarrow> TLSPaths" where
  "tls_paths gitd = \<lparr>tls_Cert = Cert (cfg_TLS gitd), tls_Key = Key (cfg_TLS gitd), tls_ClientCA = ClientCA (cfg_TLS gitd),
     tls_RevocationList = RevocationList (cfg_TLS gitd)\<rparr>"

text \<open>The daemon role up to the start of the two servers.\<close>

definition start_daemon :: "Proc \<Rightarrow> string \<Rightarrow> GitdConfig \<Rightarrow> Daemon result io" where
  "start_daemon p cfg gitd = do {
     rl \<leftarrow> Load (yaml_gitd (pc_host p)) (yaml_webhooks (pc_host p)) cfg (webhooksPathFor cfg);
     case rl of
       Inl e \<Rightarrow> return (Fail e)
     | Inr rt \<Rightarrow>
         (case storeFor (pc_host p) gitd of
            Inl e \<Rightarrow> return (Fail (Wrapf ''serve: storage: %w'' [] e))
          | Inr store \<Rightarrow>
              let spoolStore = NewStore cli_spoolDir (Retention (cfg_Spool gitd)); srv = serve_proc p gitd rt store spoolStore in do {
                rt' \<leftarrow> NewTLSConfig (pc_x509 p) (tls_paths gitd);
                return (case rt' of
                   Inl e \<Rightarrow> Fail e
                 | Inr _ \<Rightarrow>
                     (case browse_New cli_reposRoot (runner_for (pc_host p) gitd) (Render gitd) srv (HostAllowlist gitd) of
                        Inl e \<Rightarrow> Fail e
                      | Inr bh \<Rightarrow> Ok \<lparr>dm_runtime = rt, dm_spool = spoolStore, dm_serve = srv, dm_browse = bh\<rparr>)) })
   }"

definition runServe :: "Proc \<Rightarrow> string list \<Rightarrow> unit result option io" where
  "runServe p args =
     (let h = pc_host p in
      case parseConfigFlag args of
        Inl e \<Rightarrow> return (Some (Fail e))
      | Inr (cfg, rest) \<Rightarrow>
          if rest \<noteq> [] then return (Some (Fail (errUsage ''serve takes no arguments'' [])))
          else do {
            rg \<leftarrow> LoadGitd (yaml_gitd h) cfg;
            case rg of
              Inl e \<Rightarrow> return (Some (Fail e))
            | Inr gitd \<Rightarrow>
                (case NewLogger gitd of
                   Inl e \<Rightarrow> return (Some (Fail e))
                 | Inr log \<Rightarrow>
                     if envGet (host_environ h) ''SSH_CONNECTION'' \<noteq> []
                     then done_with (Serve (host_git h) (host_statfs h) (host_environ h) (gateway_for h gitd))
                     else do {
                       rd \<leftarrow> start_daemon p cfg gitd;
                       case rd of Inl e \<Rightarrow> return (Some (Fail e)) | Inr d \<Rightarrow> pc_daemon p d }) })"

text \<open>On SIGHUP: the reload and, when it succeeds, the new retention of the spool.\<close>

definition applyReload :: "Host \<Rightarrow> Runtime \<Rightarrow> Store \<Rightarrow> (unit result \<times> Runtime \<times> Store) io" where
  "applyReload h rt s = do {
     r \<leftarrow> Reload (yaml_gitd h) (yaml_webhooks h) rt;
     return (case r of
        (Inl e, rt') \<Rightarrow> (Fail e, rt', s)
      | (Inr _, rt') \<Rightarrow> (Ok (), rt', SetRetention (Retention (cfg_Spool (rt_gitd rt'))) s))
   }"

section \<open>Dispatch\<close>

definition runVersion :: "Proc \<Rightarrow> string list \<Rightarrow> unit result io" where
  "runVersion p args =
     (if args \<noteq> [] then return (Fail (errUsage ''version takes no arguments'' []))
      else write_stdout (pc_version p @ [newline_char]))"

abbreviation ExitOK :: int where "ExitOK \<equiv> 0"
abbreviation ExitRuntime :: int where "ExitRuntime \<equiv> 1"
abbreviation ExitUsage :: int where "ExitUsage \<equiv> 2"

type_synonym verb = "Proc \<Rightarrow> string list \<Rightarrow> unit result option io"

definition cli_commands :: "(string \<times> string \<times> verb) list" where
  "cli_commands =
     [(''serve'', ''run the git gateway service'', runServe),
      (''notify'', ''handle a post-receive webhook notification'', \<lambda>p args. done_with (runNotify (pc_host p) (pc_clock p) args)),
      (''pre-receive'', ''enforce pre-receive push policies'', \<lambda>p args. done_with (runPreReceive (pc_host p) args)),
      (''spool'', ''inspect, replay, and purge the webhook event spool'', \<lambda>p args. done_with (runSpool (pc_host p) (pc_clock p 0) args)),
      (''ddns'', ''refresh the dynamic DNS record'', \<lambda>p args. done_with (runDDNS (pc_host p) args)),
      (''mirror'', ''inspect and manage S3 bundle mirrors'', \<lambda>p args. done_with (runMirror (pc_host p) args)),
      (''repo'', ''manage live repositories under /srv/git'', \<lambda>p args. done_with (runRepo (pc_host p) args)),
      (''mirror-agent'', ''restore agent daemon (background role; runs in the gitd-restore container)'', runMirrorAgent),
      (''version'', ''print the gitd version'', \<lambda>p args. done_with (runVersion p args))]"

definition pad_right :: "nat \<Rightarrow> string \<Rightarrow> string" where
  "pad_right n s = s @ replicate (n - length s) (CHR '' '')"

definition usage :: string where
  "usage = text_lines ([''usage: gitd <command> [args]'', [], ''commands:'']
     @ map (\<lambda>(name, summary, _). ''  '' @ pad_right 12 name @ '' '' @ summary) cli_commands
     @ [[], ''exit codes: 0 ok, 1 runtime error, 2 usage error''])"

text \<open>The exit code and what is written to the standard error; \<open>None\<close> while a daemon runs.\<close>

definition Cli_Run :: "Proc \<Rightarrow> string list \<Rightarrow> (int \<times> string) option io" where
  "Cli_Run p argv =
     (case argv of
        [] \<Rightarrow> return (Some (ExitUsage, usage))
      | verb # args \<Rightarrow>
          (case map_of cli_commands verb of
             None \<Rightarrow> return (Some (ExitUsage, sprintf ''gitd: unknown command %q'' [verb] [] @ [newline_char] @ usage))
           | Some (_, run) \<Rightarrow> do {
               r \<leftarrow> run p args;
               return (case r of
                  None \<Rightarrow> None
                | Some (Inr _) \<Rightarrow> Some (ExitOK, [])
                | Some (Inl e) \<Rightarrow> Some (if errors_As_usage e then ExitUsage else ExitRuntime,
                    ''gitd: '' @ verb @ '': '' @ err_text e @ [newline_char])) }))"

section \<open>Entry points\<close>

text \<open>
  The three programs of \<open>cmd/\<close>: the exit code and what the program itself writes to the standard error.
\<close>

definition gitd_main :: "Proc \<Rightarrow> string list \<Rightarrow> (int \<times> string) option io" where
  "gitd_main p argv = Cli_Run p (drop 1 argv)"

definition hookshim_main :: "Host \<Rightarrow> string list \<Rightarrow> int io" where
  "hookshim_main h argv = Shim_Run (host_git h) (host_environ h) argv"

definition nologin_main :: "int \<times> string" where
  "nologin_main = (1, ''This account is currently not available.'' @ [newline_char])"

end
