(* ===== verification/Browse_Facts.thy ===== *)
theory Browse_Facts
  imports Browse
begin

text \<open>
  What the web interface guarantees: which programs a request can start and where, what every answer
  carries and who gets one, what the escaping of the pages ensures, and how far a request can steer git.
\<close>

section \<open>The programs a request starts\<close>

text \<open>The git commands of the pages: reading subcommands, in a directory that is under the root.\<close>

definition reading_verbs :: "string list" where
  "reading_verbs = [''for-each-ref'', ''symbolic-ref'', ''rev-parse'', ''log'', ''ls-tree'', ''show'']"

definition confined_dir :: "Handler \<Rightarrow> string \<Rightarrow> bool" where
  "confined_dir h d \<longleftrightarrow> below (Clean (bh_reposRoot h)) d \<and> ''..'' \<notin> set (split_on slash d)"

definition browse_command :: "Handler \<Rightarrow> cmd \<Rightarrow> bool" where
  "browse_command h c \<longleftrightarrow> cmd_prog c = gitBin (bh_git h) \<and> cmd_env c = runner_env (bh_git h) \<and> confined_dir h (cmd_dir c)
     \<and> hd (cmd_args c) \<in> set reading_verbs"

abbreviation page_starts :: "Handler \<Rightarrow> 'a io \<Rightarrow> bool" where
  "page_starts h \<equiv> starts_only (browse_command h)"

lemma starts_nothing_realpath [frame]: "starts_nothing (RealpathUnder root dir)"
  unfolding RealpathUnder_def Let_def by (intro frame)

lemma page_starts_ListBare [frame]: "page_starts h (ListBare root)"
proof -
  have s: "starts_nothing (stat_all d ns)" for d ns
    by (induction ns) (auto intro!: frame)
  have b: "starts_nothing (bare_loop root es acc)" for es acc
    by (induction es arbitrary: acc) (auto simp: IsBareRepo_def Let_def split: prod.split intro!: frame s)
  show ?thesis unfolding ListBare_def by (intro starts_only_nothing frame b)
qed

lemma page_RunIn [frame]:
  "confined_dir h dir \<Longrightarrow> v \<in> set reading_verbs \<Longrightarrow> page_starts h (RunIn git (bh_git h) dir (v # args))"
  by (rule starts_only_RunIn) (simp add: browse_command_def Git_def command_def)

lemma reading_verbs [frame]:
  "''for-each-ref'' \<in> set reading_verbs" "''symbolic-ref'' \<in> set reading_verbs" "''rev-parse'' \<in> set reading_verbs"
  "''log'' \<in> set reading_verbs" "''ls-tree'' \<in> set reading_verbs" "''show'' \<in> set reading_verbs"
  by (simp_all add: reading_verbs_def)

lemma repoDir_confined:
  assumes "is_rooted (bh_reposRoot h)" "run_state (repoDir h name) w = (Inr dir, w')"
  shows "confined_dir h dir"
proof -
  from assms(2) obtain w0 where "run_state (RealpathUnder (bh_reposRoot h) (Join [bh_reposRoot h, name @ ''.git''])) w = (Inr dir, w0)"
    by (auto simp: repoDir_def split: if_splits sum.splits prod.splits)
  from realpath_below [OF assms(1) this] show ?thesis by (simp add: confined_dir_def)
qed

lemma page_calls [frame]:
  assumes "confined_dir h dir"
  shows "page_starts h (hasRef git h dir)" "page_starts h (browse_refs git h dir)" "page_starts h (defaultRef git h dir)"
    "page_starts h (commitLog git h dir ref skip)" "page_starts h (treeEntries git h dir ref path)"
    "page_starts h (blobAt git h dir ref path)" "page_starts h (diffOf git h dir commit)"
proof -
  show r: "page_starts h (browse_refs git h dir)" unfolding browse_refs_def by (intro frame assms)
  show "page_starts h (defaultRef git h dir)" unfolding defaultRef_def Let_def by (intro frame r assms)
  show "page_starts h (hasRef git h dir)" "page_starts h (commitLog git h dir ref skip)"
    "page_starts h (treeEntries git h dir ref path)" "page_starts h (blobAt git h dir ref path)"
    "page_starts h (diffOf git h dir commit)"
    unfolding hasRef_def commitLog_def treeEntries_def blobAt_def diffOf_def by (intro frame assms)+
qed

lemma page_renderReadme [frame]: "confined_dir h dir \<Longrightarrow> page_starts h (renderReadme wb git h dir ref)"
  unfolding renderReadme_def findReadme_def by (intro frame)

lemma page_renderAction [frame]: "page_starts h fn \<Longrightarrow> page_starts h (renderAction sub gone fn)"
  unfolding renderAction_def by (auto intro!: frame split: Submission.split)

lemma page_with_ref [frame]:
  "confined_dir h dir \<Longrightarrow> (\<And>ref. page_starts h (k ref)) \<Longrightarrow> page_starts h (with_ref git h dir ref k)"
  unfolding with_ref_def by (intro frame)

lemma page_resolveRepo [frame]:
  assumes "is_rooted (bh_reposRoot h)" "\<And>dir. confined_dir h dir \<Longrightarrow> page_starts h (k dir)"
  shows "page_starts h (resolveRepo h name k)"
  unfolding resolveRepo_def
proof (intro frame)
  show "page_starts h (repoDir h name)" unfolding repoDir_def by (intro frame starts_only_nothing)
  show "page_starts h (k y)" if "run_state (repoDir h name) w = (x, w')" "x = Inr y" for x y w w'
    using that repoDir_confined [OF assms(1)] by (auto intro!: assms(2))
qed

lemma page_bodies [frame]:
  assumes "confined_dir h dir"
  shows "page_starts h (home_page wb git h dir name ref)" "page_starts h (log_page wb git h dir name page ref)"
    "page_starts h (tree_page wb git h dir name tp ref)" "page_starts h (blob_page wb git h dir name tp ref)"
  unfolding home_page_def log_page_def tree_page_def blob_page_def by (intro frame assms)+

lemma page_handlers [frame]:
  assumes "is_rooted (bh_reposRoot h)"
  shows "page_starts h (handleRepoIndex wb h sub gone r)" "page_starts h (handleRepoHome wb git h sub gone name r)"
    "page_starts h (handleLog wb git h sub gone name r)" "page_starts h (handleTree wb git h sub gone name r)"
    "page_starts h (handleBlob wb git h sub gone name r)" "page_starts h (handleRaw wb git h sub gone name r)"
    "page_starts h (handleDiff wb git h subs gone name r)"
  unfolding handleRepoIndex_def handleRepoHome_def handleLog_def handleTree_def handleBlob_def handleRaw_def handleDiff_def diff_answer_def Let_def
  by (intro frame assms | assumption)+

lemma page_mux:
  assumes "is_rooted (bh_reposRoot h)" "br_Path r \<notin> {''/v1/bundle'', ''/v1/deliver''}"
  shows "page_starts h (browse_mux wb git h en r)"
  using assms(2) by (auto simp: browse_mux_def Let_def intro!: page_handlers [OF assms(1)] split: list.split)


section \<open>Every answer\<close>

text \<open>Whatever state it starts in, a run of \<open>m\<close> returns a value that satisfies \<open>P\<close>.\<close>

definition returns_only :: "('a \<Rightarrow> bool) \<Rightarrow> 'a io \<Rightarrow> bool" where
  "returns_only P m \<longleftrightarrow> (\<forall>w. P (fst (run_state m w)))"

lemma returns_only_run: "returns_only P m \<Longrightarrow> run_state m w = (x, w') \<Longrightarrow> P x"
  by (auto simp: returns_only_def dest!: spec [of _ w])

lemma returns_only_return [frame]: "P x \<Longrightarrow> returns_only P (return x)"
  by (simp add: returns_only_def)

lemma returns_only_bind [frame]: "(\<And>x. returns_only P (f x)) \<Longrightarrow> returns_only P (m \<bind> f)"
  by (simp add: returns_only_def split: prod.split)

lemma returns_only_if [frame]: "returns_only P m \<Longrightarrow> returns_only P n \<Longrightarrow> returns_only P (if b then m else n)"
  by simp

lemma returns_only_case [frame]:
  "(\<And>x. returns_only P (g x)) \<Longrightarrow> (\<And>x. returns_only P (h x)) \<Longrightarrow> returns_only P (case s of Inl x \<Rightarrow> g x | Inr x \<Rightarrow> h x)"
  "(\<And>x y. returns_only P (k x y)) \<Longrightarrow> returns_only P (case z of (x, y) \<Rightarrow> k x y)"
  by (simp_all split: sum.split prod.split)

text \<open>A response that sets no security header, or sets it to the value it has anyway.\<close>

definition plain_response :: "Response \<Rightarrow> bool" where
  "plain_response resp \<longleftrightarrow>
     list_all (\<lambda>(k, v). map_of (rs_Headers resp) k = None \<or> map_of (rs_Headers resp) k = Some v) security_headers"

lemma plain_made [frame]:
  "plain_response (error_response msg status)" "plain_response (writeErr e)" "plain_response (html_reply b)"
  "plain_response (attachment wb file type d)" "plain_response (of_reply rp)"
  by (simp_all add: plain_response_def security_headers_def error_response_def writeErr_def html_reply_def writeHTML_def
      attachment_def of_reply_def split: sum.split option.split)

lemma plain_handlers [frame]:
  "returns_only plain_response (handleRepoIndex wb h sub gone r)" "returns_only plain_response (handleRepoHome wb git h sub gone name r)"
  "returns_only plain_response (handleLog wb git h sub gone name r)" "returns_only plain_response (handleTree wb git h sub gone name r)"
  "returns_only plain_response (handleBlob wb git h sub gone name r)"
  "returns_only plain_response (handleDiff wb git h subs gone name r)"
  unfolding handleRepoIndex_def handleRepoHome_def handleLog_def handleTree_def handleBlob_def handleDiff_def diff_answer_def Let_def resolveRepo_def
  by (intro frame)+

lemma plain_handleRaw [frame]: "returns_only plain_response (handleRaw wb git h sub gone name r)"
  unfolding handleRaw_def resolveRepo_def by (intro frame) (auto intro!: frame split: sum.split)

lemma plain_mux [frame]: "returns_only plain_response (browse_mux wb git h en r)"
  by (auto simp: browse_mux_def Let_def intro!: frame split: list.split)

text \<open>The file server of \<open>net/http\<close> sets none of the security headers to another value.\<close>

definition plain_FileServer :: "Assets \<Rightarrow> bool" where
  "plain_FileServer fs \<longleftrightarrow> (\<forall>name. plain_response (as_FileServer fs name))"

lemma map_of_add_headers:
  "map_of (rs_Headers (add_headers hs resp)) k = (case map_of (rs_Headers resp) k of Some v \<Rightarrow> Some v | None \<Rightarrow> map_of hs k)"
proof -
  have "map_of (filter (\<lambda>(k, v). map_of (rs_Headers resp) k = None) hs) k
      = (if map_of (rs_Headers resp) k = None then map_of hs k else None)"
    by (rule map_of_filter_key [where P = "\<lambda>k. map_of (rs_Headers resp) k = None"])
  then show ?thesis by (simp add: add_headers_def map_add_def split: option.split)
qed

lemma plain_static:
  assumes "plain_FileServer fs"
  shows "plain_response (fst (handleStatic fs m r))"
proof -
  have "plain_response (add_headers [(''Cache-Control'', a), (''ETag'', e)] (as_FileServer fs name))" for a e name
    using assms unfolding plain_FileServer_def plain_response_def
    by (auto simp: map_of_add_headers security_headers_def split: option.split dest!: spec [of _ name])
  moreover have "plain_response (as_FileServer fs name)" for name using assms by (simp add: plain_FileServer_def)
  ultimately show ?thesis
    by (auto simp: handleStatic_def Let_def intro!: frame split: prod.split option.split)
qed

lemma plain_inner:
  assumes "plain_FileServer fs"
  shows "returns_only (\<lambda>x. plain_response (fst x)) (withHostAllowlist h m (withStatic fs m (browse_mux wb git h en)) r)"
proof -
  have "returns_only (\<lambda>x. plain_response (fst x)) (do { x \<leftarrow> browse_mux wb git h en r; return (x, m) })"
    using plain_mux by (auto simp: returns_only_def split: prod.split) (metis fst_conv)
  then show ?thesis
    unfolding withHostAllowlist_def withStatic_def
    by (auto intro!: frame plain_static [OF assms])
qed

lemma secured:
  "plain_response resp \<Longrightarrow> list_all (\<lambda>(k, v). map_of (rs_Headers (add_headers security_headers resp)) k = Some v) security_headers"
  by (auto simp: plain_response_def map_of_add_headers security_headers_def)

text \<open>
  C22. Every answer of the web interface, on every path and for every request, carries the content security
  policy, \<open>nosniff\<close>, \<open>no-referrer\<close> and the frame denial; the audit line has the status that was sent; and a
  request whose host is not allowed gets a 400 with nothing read, run or remembered.
\<close>

theorem browse_answers:
  assumes "plain_FileServer fs"
    and "run_state (browse_Mux wb fs git h en m r) w = ((resp, m', audit), w')"
  shows "list_all (\<lambda>(k, v). map_of (rs_Headers resp) k = Some v) security_headers
    \<and> au_status audit = rs_Status resp \<and> au_method audit = br_Method r \<and> au_path audit = br_Path r
    \<and> (normalizeHost (br_Host r) \<notin> set (hostAllowlist h) \<longrightarrow> rs_Status resp = 400 \<and> m' = m \<and> w' = w)"
proof -
  let ?inner = "withHostAllowlist h m (withStatic fs m (browse_mux wb git h en)) r"
  obtain x w1 where x: "run_state ?inner w = (x, w1)" by fastforce
  with assms(2) have resp: "resp = add_headers security_headers (fst x)" "m' = snd x" "w' = w1"
    and audit: "au_status audit = rs_Status resp" "au_method audit = br_Method r" "au_path audit = br_Path r"
    by (auto simp: browse_Mux_def withAudit_def withSecurity_def)
  from returns_only_run [OF plain_inner [OF assms(1)] x] have "plain_response (fst x)" .
  then have "list_all (\<lambda>(k, v). map_of (rs_Headers resp) k = Some v) security_headers"
    unfolding resp(1) by (rule secured)
  moreover have "normalizeHost (br_Host r) \<notin> set (hostAllowlist h) \<longrightarrow> rs_Status resp = 400 \<and> m' = m \<and> w' = w"
    using x by (auto simp: withHostAllowlist_def resp add_headers_def error_response_def)
  ultimately show ?thesis using audit by blast
qed

section \<open>Escaping\<close>

text \<open>What a browser reads back: the character references that the escaping functions write.\<close>

function html_unescape :: "string \<Rightarrow> string" where
  "html_unescape s =
     (if HasPrefix s ''&amp;'' then CHR ''&'' # html_unescape (drop 5 s)
      else if HasPrefix s ''&#39;'' then quote_char # html_unescape (drop 5 s)
      else if HasPrefix s ''&lt;'' then CHR ''<'' # html_unescape (drop 4 s)
      else if HasPrefix s ''&gt;'' then CHR ''>'' # html_unescape (drop 4 s)
      else if HasPrefix s ''&#34;'' then dquote_char # html_unescape (drop 5 s)
      else if HasPrefix s ''&#43;'' then CHR ''+'' # html_unescape (drop 5 s)
      else case s of [] \<Rightarrow> [] | c # t \<Rightarrow> c # html_unescape t)"
  by pat_completeness auto
termination by (relation "measure length") (auto simp: HasPrefix_iff)

declare html_unescape.simps [simp del]

text \<open>The text of a document: everything outside the angle brackets of its tags.\<close>

fun strip_tags :: "bool \<Rightarrow> string \<Rightarrow> string" where
  "strip_tags tag [] = []"
| "strip_tags tag (c # s) =
     (if c = CHR ''<'' then strip_tags True s
      else if tag then strip_tags (c \<noteq> CHR ''>'') s
      else c # strip_tags False s)"

lemma html_unescape_char [simp]: "html_unescape (escape_html_char c @ s) = c # html_unescape s"
  by (simp add: escape_html_char_def html_unescape.simps [of "_ # _"])

lemma html_unescape_Nil [simp]: "html_unescape [] = []"
  by (simp add: html_unescape.simps)

lemma html_unescape_append: "html_unescape (htmlEscape s @ t) = s @ html_unescape t"
  by (induction s) (simp_all add: htmlEscape_def)

lemma escaped_chars:
  "c \<in> set (htmlEscape s) \<Longrightarrow> c \<notin> {CHR ''<'', CHR ''>'', quote_char, dquote_char}"
  by (auto simp: htmlEscape_def escape_html_char_def split: if_splits)

lemma strip_text: "CHR ''<'' \<notin> set t \<Longrightarrow> strip_tags False (t @ s) = t @ strip_tags False s"
  by (induction t) auto

lemma strip_escaped: "strip_tags False (htmlEscape t @ s) = htmlEscape t @ strip_tags False s"
  using escaped_chars [of "CHR ''<''" t] by (intro strip_text) auto

lemma htmlEscape_newline: "htmlEscape (t @ [newline_char]) = htmlEscape t @ [newline_char]"
  by (simp add: htmlEscape_def escape_html_char_def)

lemma strip_diff_line:
  "strip_tags False (diff_line line @ s) = htmlEscape (line @ [newline_char]) @ strip_tags False s"
proof -
  have "diff_class line \<in> {''add'', ''del'', ''meta'', []}" by (simp add: diff_class_def)
  then show ?thesis
    by (auto simp: diff_line_def Let_def htmlEscape_newline strip_escaped)
qed

lemma strip_highlight:
  "html_unescape (strip_tags False (concat (map diff_line ls))) = concat (map (\<lambda>l. l @ [newline_char]) ls)"
  by (induction ls) (simp_all add: strip_diff_line html_unescape_append)

lemma concat_lines: "ls \<noteq> [] \<Longrightarrow> concat (map (\<lambda>l. l @ [newline_char]) ls) = join_with [newline_char] ls @ [newline_char]"
  by (induction ls rule: induct_list012) auto

text \<open>
  The diff page shows the diff and nothing else: read as HTML, the markup of \<open>highlightDiff\<close> has the diff
  without its trailing newlines as its text, and escaped text brings in no angle bracket and no
  quote of its own, so that a diff cannot open or close a tag.
\<close>

theorem highlightDiff_text:
  "html_unescape (strip_tags False (highlightDiff d)) = trim_newlines d @ [newline_char]
   \<and> set (htmlEscape d) \<inter> {CHR ''<'', CHR ''>'', quote_char, dquote_char} = {}"
  using escaped_chars [of _ d]
  by (auto simp: highlightDiff_def strip_highlight concat_lines join_split_on)

section \<open>How far a request steers git\<close>

lemma diff_answer_still: "run_state (diff_answer wb h sub gone name r commit x) w = (resp, w') \<Longrightarrow> w' = w"
  by (auto simp: diff_answer_def renderAction_def split: sum.splits prod.splits if_splits Submission.splits)

definition show_command :: "Handler \<Rightarrow> string \<Rightarrow> string \<Rightarrow> cmd" where
  "show_command h dir commit = (Git (bh_git h) [''show'', ''--format=fuller'', ''--stat'', ''--patch'', commit])\<lparr>cmd_dir := dir\<rparr>"

lemma run_handleDiff:
  assumes "run_state (repoDir h name) w = (Inr dir, w1)" "query_Get r ''commit'' \<noteq> []" "fst subs = Queued"
  shows "execs (snd (run_state (handleDiff wb git h subs gone name r) w)) = show_command h dir (query_Get r ''commit'') # execs w1
    \<and> tree (snd (run_state (handleDiff wb git h subs gone name r) w)) = snd (git (show_command h dir (query_Get r ''commit'')) (tree w1))"
proof -
  obtain x w2 where d: "run_state (renderAction Queued gone (diffOf git h dir (query_Get r ''commit''))) w1 = (x, w2)" by fastforce
  then have c: "execs w2 = show_command h dir (query_Get r ''commit'') # execs w1"
      "tree w2 = snd (git (show_command h dir (query_Get r ''commit'')) (tree w1))"
    by (auto simp: renderAction_def diffOf_def RunIn_def runner_run_def Git_def show_command_def split: prod.splits)
  obtain resp w3 where a: "run_state (diff_answer wb h (snd subs) gone name r (query_Get r ''commit'') x) w2 = (resp, w3)" by fastforce
  have "run_state (handleDiff wb git h subs gone name r) w = (resp, w3)"
    using assms d a by (simp add: handleDiff_def resolveRepo_def Let_def)
  with c diff_answer_still [OF a] show ?thesis by simp
qed

text \<open>
  C36. The \<open>commit\<close> parameter of a diff request is handed to \<open>git show\<close> as it stands, in the position where git
  takes options and with no separator before it: a value such as \<open>--output=FILE\<close> reaches git as an option,
  and the files are left as git leaves them when it runs with this option.
\<close>

theorem diff_option_injection:
  assumes "run_state (repoDir h name) w = (Inr dir, w1)" and "query_Get r ''commit'' = ''--output='' @ file"
    and "fst subs = Queued"
  shows "\<exists>c. execs (snd (run_state (handleDiff wb git h subs gone name r) w)) = c # execs w1
     \<and> cmd_prog c = gitBin (bh_git h) \<and> cmd_dir c = dir
     \<and> cmd_args c = [''show'', ''--format=fuller'', ''--stat'', ''--patch'', ''--output='' @ file]
     \<and> tree (snd (run_state (handleDiff wb git h subs gone name r) w)) = snd (git c (tree w1))"
  using run_handleDiff [OF assms(1) _ assms(3), of r wb git gone] assms(2)
  by (intro exI [of _ "show_command h dir (''--output='' @ file)"]) (simp add: show_command_def Git_def command_def)

section \<open>Concrete requests\<close>

text \<open>
  A git that knows what the manual says of \<open>--output\<close>: the patch goes to the file instead of the standard
  output. Every other call prints nothing.
\<close>

definition output_of :: "string list \<Rightarrow> string option" where
  "output_of args = CutPrefix (last args) ''--output=''"

definition writing_git :: git_prog where
  "writing_git c t =
     (case output_of (cmd_args c) of
        None \<Rightarrow> (\<lparr>out = ''x'', err_out = [], exit_status = Exited 0\<rparr>, t)
      | Some f \<Rightarrow> (\<lparr>out = [], err_out = [], exit_status = Exited 0\<rparr>, AList.update f (File ''patch'' False) t))"

definition sample_web :: Web where
  "sample_web = \<lparr>wb_Convert = Ok, wb_lexer_Get = (\<lambda>n. None),
     wb_lexer_Analyse = (\<lambda>d. None), wb_Tokenise = (\<lambda>l d. Ok [([], d)]), wb_Format = (\<lambda>ts. Ok (concat (map snd ts))), wb_Quote = (\<lambda>s. s), wb_version = []\<rparr>"

definition sample_assets :: Assets where
  "sample_assets = \<lparr>as_Open = (\<lambda>n. None), as_sha256 = (\<lambda>d. d), as_FileServer = (\<lambda>n. error_response ''404 page not found'' 404)\<rparr>"

definition no_store :: ObjectStore where
  "no_store = \<lparr>obj_Put = (\<lambda>k d. return (Ok ())), obj_Get = (\<lambda>k. return (Ok [])), obj_List = (\<lambda>p. return (Ok [])), obj_Delete = (\<lambda>k. return (Ok ()))\<rparr>"

definition sample_runner :: Runner where
  "sample_runner = NewRunner ''/bin'' ''git'' ''/h'' []"

definition sample_handler :: Handler where
  "sample_handler = \<lparr>bh_reposRoot = ''/srv'', bh_git = sample_runner, bh_render = ''none'',
     bh_serve = Serve_New 0 (Mirror_New no_store sample_runner ''/srv'' ''p'' ''/w'') (NewStore ''/w'' 0) [] (\<lambda>p e. return (Ok ())) ''/srv'' ''/w/r'' ''/w/s'' False,
     hostAllowlist = [''git'']\<rparr>"

definition sample_request :: "string \<Rightarrow> string \<Rightarrow> (string \<times> string) list \<Rightarrow> BrowseRequest" where
  "sample_request host path query = \<lparr>br_Method = ''GET'', br_Host = host, br_Path = path, br_Query = query,
     br_RemoteAddr = ''::1'', br_PeerCN = None, br_Body = []\<rparr>"

definition sample_encounter :: Encounter where
  "sample_encounter = \<lparr>en_subs = (Queued, Queued), en_gone = False, en_clock = (\<lambda>n. sample_now)\<rparr>"

definition inject_request :: BrowseRequest where
  "inject_request = sample_request ''git'' ''/alpha/diff'' [(''commit'', ''--output=/srv/alpha.git/HEAD'')]"

lemmas browse_samples = sample_handler_def sample_web_def sample_assets_def sample_request_def sample_encounter_def inject_request_def

lemma run_browse_Mux:
  assumes "normalizeHost (br_Host r) \<in> set (hostAllowlist h)" "\<not> HasPrefix (br_Path r) ''/static/''"
  shows "snd (run_state (browse_Mux wb fs git h en m r) w) = snd (run_state (browse_mux wb git h en r) w)"
  using assms by (simp add: browse_Mux_def withAudit_def withSecurity_def withHostAllowlist_def withStatic_def split: prod.split)


lemma browse_answers_witness:
  "plain_FileServer sample_assets
   \<and> rs_Status (fst (fst (run_state (browse_Mux sample_web sample_assets writing_git sample_handler sample_encounter []
        (sample_request ''evil'' ''/'' [])) sample_repos))) = 400"
proof -
  let ?run = "run_state (browse_Mux sample_web sample_assets writing_git sample_handler sample_encounter [] (sample_request ''evil'' ''/'' [])) sample_repos"
  have p: "plain_FileServer sample_assets" by (simp add: plain_FileServer_def sample_assets_def plain_made)
  have h: "normalizeHost (br_Host (sample_request ''evil'' ''/'' [])) \<notin> set (hostAllowlist sample_handler)" by code_simp
  obtain resp m a w where run: "?run = ((resp, m, a), w)" by (metis prod.exhaust)
  from browse_answers [OF p run] p h run show ?thesis by simp
qed

lemma sample_repoDir: "run_state (repoDir sample_handler ''alpha'') sample_repos = (Inr ''/srv/alpha.git'', sample_repos)"
proof -
  have "resolve (tree sample_repos) ''/srv/alpha.git'' = Inr ''/srv/alpha.git''" "is_rooted ''/srv''" "faults sample_repos = []"
    "below (Clean ''/srv'') (Clean ''/srv/alpha.git'')" "Clean ''/srv/alpha.git'' = ''/srv/alpha.git''"
    "Join [''/srv'', ''alpha.git''] = ''/srv/alpha.git''" "ValidName ''alpha''" by code_simp+
  then show ?thesis
    using run_RealpathUnder_nil [of sample_repos "''/srv''" "''/srv/alpha.git''" "''/srv/alpha.git''"]
    by (simp add: repoDir_def sample_handler_def)
qed

lemma diff_option_injection_witness:
  "query_Get inject_request ''commit'' = ''--output=/srv/alpha.git/HEAD''
   \<and> lookup (tree (snd (run_state (handleDiff sample_web writing_git sample_handler (Queued, Queued) False ''alpha'' inject_request) sample_repos)))
       ''/srv/alpha.git/HEAD'' = Some (File ''patch'' False)"
proof -
  have q: "query_Get inject_request ''commit'' = ''--output='' @ ''/srv/alpha.git/HEAD''" by code_simp
  from diff_option_injection [OF sample_repoDir q, of "(Queued, Queued)" sample_web writing_git False]
  obtain c where c: "cmd_args c = [''show'', ''--format=fuller'', ''--stat'', ''--patch'', ''--output='' @ ''/srv/alpha.git/HEAD'']"
    "tree (snd (run_state (handleDiff sample_web writing_git sample_handler (Queued, Queued) False ''alpha'' inject_request) sample_repos))
       = snd (writing_git c (tree sample_repos))" by auto
  have "output_of (cmd_args c) = Some ''/srv/alpha.git/HEAD''" unfolding c(1) by code_simp
  with c(2) q show ?thesis by (simp add: writing_git_def)
qed

end
