(* ===== verification/Hooks_Facts.thy ===== *)
theory Hooks_Facts
  imports Hooks
begin

text \<open>
  What the hooks guarantee: the two parsers of the reference lines agree on every push that is accepted, the
  pre-receive gate accepts exactly the pushes it should, and the events that are built are well typed.
\<close>

section \<open>Reference lines\<close>

lemma strict_lines_lenient: "strict_lines ls = Inr rs \<Longrightarrow> lenient_lines ls = rs"
  by (induction ls arbitrary: rs) (auto simp: Let_def split: if_splits option.splits sum.splits)

definition line_ok :: "string \<Rightarrow> bool" where
  "line_ok l \<longleftrightarrow> TrimSpace l = [] \<or> ref_fields (TrimSpace l) \<noteq> None"

lemma strict_lines_ok: "(\<exists>rs. strict_lines ls = Inr rs) \<longleftrightarrow> list_all line_ok ls"
  by (induction ls) (auto simp: line_ok_def Let_def split: if_splits option.splits sum.splits)

lemma parseStrict_iff:
  "parseStrict input = Inr rs \<longleftrightarrow>
     snd (scan_read (fst input) (snd input)) = None \<and> list_all line_ok (fst (scan_read (fst input) (snd input)))
     \<and> parseRefLines input = rs"
proof -
  obtain ls err where s: "scan_read (fst input) (snd input) = (ls, err)" by fastforce
  show ?thesis
    using strict_lines_ok [of ls] strict_lines_lenient [of ls]
    by (auto simp: parseStrict_def parseRefLines_def s split: sum.splits option.splits)
qed

text \<open>
  C7. The pre-receive hook accepts a push exactly when the whole input could be read, every line of it that
  is not blank is well formed, the disk has headroom, and no configured policy objects to any of the
  updates. The updates the policies see are those that the post-receive hook extracts from the same input
  with its own, lenient parser: no update is announced that was not vetted.
\<close>

theorem prereceive_gate:
  "fst (run_state (PreReceive_Run st p dir input) w) = Inr () \<longleftrightarrow>
     snd (scan_read (fst input) (snd input)) = None \<and> list_all line_ok (fst (scan_read (fst input) (snd input)))
     \<and> fst (Headroom_Check st (pr_headroom p) dir) = Inr ()
     \<and> (case pr_engine p of
          None \<Rightarrow> True
        | Some engine \<Rightarrow> fst (run_state (PolicyEngine_Evaluate engine (map update_of (parseRefLines input))) w) = None)"
proof (cases "parseStrict input")
  case (Inl e)
  with parseStrict_iff [of input "parseRefLines input"] show ?thesis by (auto simp: PreReceive_Run_def)
next
  case (Inr rs)
  with parseStrict_iff [of input rs]
  have "snd (scan_read (fst input) (snd input)) = None" "list_all line_ok (fst (scan_read (fst input) (snd input)))"
    "parseRefLines input = rs" by auto
  with Inr show ?thesis
    by (auto simp: PreReceive_Run_def split: sum.splits option.splits prod.splits)
qed

lemma lenient_shape: "ln \<in> set (lenient_lines ls) \<Longrightarrow>
    validSHA (rl_old ln) \<and> validSHA (rl_new ln) \<and> HasPrefix (rl_ref ln) ''refs/''"
  by (induction ls) (auto simp: Let_def ref_fields_def split: if_splits option.splits list.splits)

section \<open>Events\<close>

text \<open>An event that every reader of the spool and of the webhooks accepts.\<close>

definition event_typed :: "Event \<Rightarrow> bool" where
  "event_typed ev \<longleftrightarrow> ev_SchemaVersion ev = SchemaVersion \<and> known_type (ev_Type ev) \<and> parse_RFC3339 (CreatedAt ev) \<noteq> None
     \<and> HasPrefix (Ref ev) ''refs/''
     \<and> (case Commits ev of
          None \<Rightarrow> True
        | Some cs \<Rightarrow> ev_Type ev \<noteq> TypeRefDeleted \<and> cs \<noteq> []
            \<and> list_all (\<lambda>c. list_all (\<lambda>s. nul_char \<notin> set s \<and> newline_char \<notin> set s) [SHA c, Subject c, Author c]) cs)"

lemma split_on_three:
  assumes "split_on c line = [a, b, d]"
  shows "c \<notin> set a \<and> c \<notin> set b \<and> c \<notin> set d \<and> set a \<union> set b \<union> set d \<subseteq> set line"
proof -
  have "join_with [c] [a, b, d] = line" using join_split_on [of c line] assms by simp
  moreover have "c \<notin> set x" if "x \<in> {a, b, d}" for x
    using split_on_pieces [of x c line] that assms by auto
  ultimately show ?thesis by (auto simp: )
qed

lemma summary_lines_shape:
  assumes "summary_lines ls acc = Inr cs" "list_all (\<lambda>l. newline_char \<notin> set l) ls"
    and "list_all (\<lambda>c. list_all (\<lambda>s. nul_char \<notin> set s \<and> newline_char \<notin> set s) [SHA c, Subject c, Author c]) acc"
  shows "list_all (\<lambda>c. list_all (\<lambda>s. nul_char \<notin> set s \<and> newline_char \<notin> set s) [SHA c, Subject c, Author c]) cs"
  using assms
proof (induction ls arbitrary: acc)
  case (Cons line ls)
  show ?case
  proof (cases "line = [] \<or> HasPrefix line ''commit ''")
    case True
    with Cons show ?thesis by auto
  next
    case False
    with Cons.prems(1) obtain a b d where abd: "split_on nul_char line = [a, b, d]"
      by (auto split: list.splits)
    with False Cons.prems(1) have s: "summary_lines ls (acc @ [\<lparr>SHA = a, Subject = b, Author = d\<rparr>]) = Inr cs" by simp
    from split_on_three [OF abd] Cons.prems(2)
    have "list_all (\<lambda>s. nul_char \<notin> set s \<and> newline_char \<notin> set s) [a, b, d]" by auto
    with Cons.prems show ?thesis by (intro Cons.IH [OF s]) auto
  qed
qed simp

lemma commitSummaries_shape:
  assumes "run_state (commitSummaries git r dir old new) w = (Inr (Some cs), w')"
  shows "\<not> isZeroSHA new \<and> cs \<noteq> []
    \<and> list_all (\<lambda>c. list_all (\<lambda>s. nul_char \<notin> set s \<and> newline_char \<notin> set s) [SHA c, Subject c, Author c]) cs"
proof -
  from assms obtain outp where "summary_lines (split_on newline_char outp) [] = Inr cs" and r: "\<not> isZeroSHA new" "cs \<noteq> []"
    by (auto simp: commitSummaries_def Let_def split: if_splits sum.splits prod.splits)
  moreover have "list_all (\<lambda>l. newline_char \<notin> set l) (split_on newline_char outp)"
    by (auto simp: list_all_iff dest: split_on_pieces)
  ultimately show ?thesis using summary_lines_shape [of "split_on newline_char outp" "[]" cs] by simp
qed

text \<open>
  C21. Every event the post-receive hook builds from a line it accepted is well typed, whatever git prints: it has
  the schema version, one of the three types, a creation time that parses, a full reference name, and
  commits only if the reference still exists, each with its three fields separated cleanly. Its type
  says which end of the update was the zero identifier.
\<close>

theorem notify_event_typed:
  assumes "ln \<in> set (parseRefLines input)"
    and "0 \<le> year_of_day (local_secs (time_UTC now) div 86400)" and "year_of_day (local_secs (time_UTC now) div 86400) \<le> 9999"
    and "run_state (buildEvent git n now repoDir repoName ln) w = (Inr ev, w')"
  shows "event_typed ev \<and> ev_Repo ev = repoName \<and> Ref ev = rl_ref ln
    \<and> (ev_Type ev = TypeRefCreated \<longleftrightarrow> isZeroSHA (rl_old ln) \<and> \<not> isZeroSHA (rl_new ln))
    \<and> (ev_Type ev = TypeRefDeleted \<longleftrightarrow> \<not> isZeroSHA (rl_old ln) \<and> isZeroSHA (rl_new ln))"
proof -
  from assms(1) have ref: "HasPrefix (rl_ref ln) ''refs/''" unfolding parseRefLines_def using lenient_shape by blast
  have "zone_ok (t_off (time_UTC now))" by (simp add: time_UTC_def zone_ok_def)
  from parse_format_RFC3339 [OF this assms(2,3)] have time: "parse_RFC3339 (format_RFC3339 (time_UTC now)) \<noteq> None" by simp
  obtain rc where c: "run_state (commitSummaries git (nt_git n) repoDir (rl_old ln) (rl_new ln)) w = (Inr rc, w')"
    and ev: "ev = \<lparr>ev_SchemaVersion = SchemaVersion, EventID = [], CreatedAt = format_RFC3339 (time_UTC now), ev_Repo = repoName,
           Ref = rl_ref ln, ev_Type = event_type ln, Commits = rc\<rparr>"
    using assms(4) by (auto simp: buildEvent_def split: prod.splits sum.splits)
  show ?thesis
    using ref time commitSummaries_shape [of git "nt_git n" repoDir "rl_old ln" "rl_new ln" w _ w'] c
    by (auto simp: ev event_typed_def event_type_def known_type_def split: option.split)
qed

section \<open>A concrete push\<close>

definition sample_line :: refLine where
  "sample_line = \<lparr>rl_old = replicate 40 (CHR ''0''), rl_new = replicate 40 (CHR ''a''), rl_ref = ''refs/heads/main'',
     rl_raw = replicate 40 (CHR ''0'') @ '' '' @ replicate 40 (CHR ''a'') @ '' refs/heads/main''\<rparr>"

text \<open>A git that lists one commit.\<close>

definition listing_git :: git_prog where
  "listing_git c t =
     (\<lparr>out = ''commit a'' @ [newline_char] @ ''a'' @ [nul_char] @ ''fix'' @ [nul_char] @ ''me'' @ [newline_char], err_out = [], exit_status = Exited 0\<rparr>, t)"

definition sample_notifier :: Notifier where
  "sample_notifier = \<lparr>nt_webhooks = [], nt_reposRoot = ''/srv'', nt_git = NewRunner ''/bin'' ''git'' ''/h'' [], nt_spool = sample_store,
     nt_client = \<lparr>sock_path = ''/s'', sock_Do = (\<lambda>r. return (Fail (Errf [] [])))\<rparr>\<rparr>"

lemma notify_event_typed_witness:
  "sample_line \<in> set (parseRefLines (rl_raw sample_line, None))
   \<and> (\<exists>ev w'. run_state (buildEvent listing_git sample_notifier sample_now ''/srv/alpha.git'' ''alpha'' sample_line) sample_repos = (Inr ev, w')
        \<and> event_typed ev \<and> ev_Type ev = TypeRefCreated \<and> Commits ev = Some [\<lparr>SHA = ''a'', Subject = ''fix'', Author = ''me''\<rparr>])"
proof -
  let ?run = "run_state (buildEvent listing_git sample_notifier sample_now ''/srv/alpha.git'' ''alpha'' sample_line) sample_repos"
  have l: "sample_line \<in> set (parseRefLines (rl_raw sample_line, None))" by code_simp
  have y: "0 \<le> year_of_day (local_secs (time_UTC sample_now) div 86400)" "year_of_day (local_secs (time_UTC sample_now) div 86400) \<le> 9999"
    by code_simp+
  have z: "isZeroSHA (rl_old sample_line)" "\<not> isZeroSHA (rl_new sample_line)" by code_simp+
  have "map_sum id Commits (fst ?run) = Inr (Some [\<lparr>SHA = ''a'', Subject = ''fix'', Author = ''me''\<rparr>])" by code_simp
  then obtain ev w' where r: "?run = (Inr ev, w')" and c: "Commits ev = Some [\<lparr>SHA = ''a'', Subject = ''fix'', Author = ''me''\<rparr>]"
    by (cases ?run) (auto simp: map_sum_def split: sum.splits)
  from notify_event_typed [OF l y r] l r c z show ?thesis by auto
qed

end
