(* ===== verification/Cli_Facts.thy ===== *)
theory Cli_Facts
  imports Cli Browse_Facts Hooks_Facts
begin

text \<open>
  What the program guarantees as a whole: a live repository is deleted only on explicit confirmation, a session
  that sshd starts stays inside the gateway, and the listing of the spool can be read back.
\<close>

section \<open>Confirmation\<close>

text \<open>The argument sets the flag of that name.\<close>

definition sets_flag :: "string \<Rightarrow> string \<Rightarrow> bool" where
  "sets_flag name s \<longleftrightarrow> (case flag_name s of None \<Rightarrow> False | Some n \<Rightarrow> fst (flag_value n) = name)"

lemma flag_Parse_values:
  assumes "flag_Parse formal vals (s # args) = Inr r"
  shows "(fst r = vals \<and> set (snd r) \<subseteq> set (s # args))
    \<or> (\<exists>name x rest. sets_flag name s \<and> set rest \<subseteq> set args \<and> length rest \<le> length args
          \<and> flag_Parse formal (AList.update name x vals) rest = Inr r)"
proof (cases "flag_name s")
  case None
  with assms show ?thesis by auto
next
  case (Some n)
  obtain name v where nv: "flag_value n = (name, v)" by fastforce
  with Some have s: "sets_flag name s" by (simp add: sets_flag_def)
  from assms Some nv
  have "fst r = vals \<and> set (snd r) \<subseteq> set (s # args)
    \<or> (\<exists>x. flag_Parse formal (AList.update name x vals) args = Inr r)
    \<or> (\<exists>x y rest. args = y # rest \<and> flag_Parse formal (AList.update name x vals) rest = Inr r)"
    unfolding flag_Parse.simps(2)
    by (auto simp del: flag_Parse.simps split: option.splits if_splits flag_kind.splits list.splits)
  moreover have "set args \<subseteq> set args" "length args \<le> length args" by simp_all
  moreover have "set rest \<subseteq> set (y # rest)" "length rest \<le> length (y # rest)" for y :: string and rest by auto
  ultimately show ?thesis using s by metis
qed

lemma flag_Parse_keeps:
  assumes "flag_Parse formal vals args = Inr r" "\<not> list_ex (sets_flag name) args"
  shows "map_of (fst r) name = map_of vals name \<and> set (snd r) \<subseteq> set args"
  using assms
proof (induction args arbitrary: vals rule: length_induct)
  case (1 args)
  show ?case
  proof (cases args)
    case Nil
    with 1 show ?thesis by auto
  next
    case (Cons s as)
    with "1.prems"(1) consider "fst r = vals" "set (snd r) \<subseteq> set args"
      | nm x rest where "sets_flag nm s" "set rest \<subseteq> set as" "length rest \<le> length as"
          "flag_Parse formal (AList.update nm x vals) rest = Inr r"
      using flag_Parse_values [of formal vals s as r] by auto
    then show ?thesis
    proof cases
      case 2
      with "1.prems"(2) Cons have "nm \<noteq> name" "\<not> list_ex (sets_flag name) rest" by (auto simp: list_ex_iff)
      with "1.IH" 2 Cons have "map_of (fst r) name = map_of (AList.update nm x vals) name \<and> set (snd r) \<subseteq> set rest"
        by (auto simp del: flag_Parse.simps simp: less_Suc_eq_le)
      with \<open>nm \<noteq> name\<close> 2 Cons show ?thesis by (auto simp: update_conv')
    qed simp
  qed
qed

lemma repo_flags_keeps:
  assumes "repo_flags vals args pos = Inr r" "\<not> list_ex (sets_flag name) args"
  shows "map_of (fst r) name = map_of vals name"
  using assms
proof (induction vals args pos rule: repo_flags.induct)
  case (1 vals remaining positional)
  from "1.prems"(1) obtain vals' got where p: "flag_Parse repo_formal vals remaining = Inr (vals', got)"
    by (subst (asm) repo_flags.simps) (auto split: sum.splits)
  from flag_Parse_keeps [OF p "1.prems"(2)]
  have k: "map_of vals' name = map_of vals name" "set got \<subseteq> set remaining" by simp_all
  show ?case
  proof (cases got)
    case Nil
    with "1.prems"(1) p k show ?thesis by (subst (asm) repo_flags.simps) auto
  next
    case (Cons g rest)
    with "1.prems"(1) p have "repo_flags vals' rest (positional @ [g]) = Inr r"
      by (subst (asm) repo_flags.simps) simp
    moreover from k(2) Cons "1.prems"(2) have "\<not> list_ex (sets_flag name) rest" by (auto simp: list_ex_iff)
    ultimately show ?thesis using "1.IH" [OF p refl Cons] k by simp
  qed
qed

lemma confirmed_has_flag:
  assumes "parseRepoFlags args = Inr (True, cfg, positional)"
  shows "list_ex (sets_flag ''yes'') args"
proof (rule ccontr)
  assume "\<not> ?thesis"
  with assms show False
    using repo_flags_keeps [of "[(''yes'', ''false''), (''config'', cli_defaultConfig)]" args "[]" _ "''yes''"]
    by (auto simp: parseRepoFlags_def the_value_def split: sum.splits)
qed

text \<open>
  C20. The confirmation gate of \<open>gitd repo\<close>: either the arguments hold an explicit \<open>yes\<close> flag and spell the
  subcommand \<open>delete\<close> with one valid repository name, and then the request for exactly this name is what is
  submitted; or the control socket is not used at all, so that nothing can be deleted.
\<close>

theorem repo_delete_gate:
  "(\<exists>name cfg. list_ex (sets_flag ''yes'') args \<and> parseRepoFlags args = Inr (True, cfg, [''delete'', name]) \<and> ValidName name
      \<and> runRepo h args = Client_DeleteRepo (socket_client h) name)
   \<or> (\<forall>sock. runRepo (h\<lparr>host_sock := sock\<rparr>) args = runRepo h args)"
proof (cases "\<exists>name cfg. parseRepoFlags args = Inr (True, cfg, [''delete'', name]) \<and> ValidName name")
  case True
  then obtain name cfg where p: "parseRepoFlags args = Inr (True, cfg, [''delete'', name])" and v: "ValidName name" by blast
  then have "runRepo h args = Client_DeleteRepo (socket_client h) name"
    by (simp add: runRepo_def repo_usage_error_def repoDelete_def)
  with p v confirmed_has_flag [OF p] show ?thesis by blast
next
  case False
  have "runRepo (h\<lparr>host_sock := sock\<rparr>) args = runRepo h args" for sock
  proof (cases "parseRepoFlags args")
    case (Inr x)
    then obtain yes cfg pos where p: "parseRepoFlags args = Inr (yes, cfg, pos)" by (metis prod_cases3)
    have no: "ValidName name \<Longrightarrow> yes \<Longrightarrow> pos \<noteq> [''delete'', name]" for name using False p by auto
    show ?thesis
      by (cases pos) (auto simp: runRepo_def p repo_usage_error_def length_Suc_conv split: option.split dest: no)
  qed (simp add: runRepo_def)
  then show ?thesis by blast
qed

section \<open>Sessions started by sshd\<close>

text \<open>
  C6. \<open>gitd serve\<close> as the forced command of sshd, whatever the arguments, the configuration files, the
  client's command and the failing calls: the process ends with an exit code, never becomes the daemon, and
  starts no program but what the gateway of the loaded configuration may start; with an incomplete identity
  it starts none. Without a valid configuration it starts none either.
\<close>

theorem ssh_session_confined:
  assumes "envGet (host_environ (pc_host p)) ''SSH_CONNECTION'' \<noteq> []"
    and "run_state (Cli_Run p (''serve'' # args)) w = (r, w')"
  shows "(\<exists>code msg. r = Some (code, msg))
    \<and> (execs w' = execs w \<or> (\<exists>gitd. gitd_ok gitd \<and> Complete (IdentityFromEnv (host_environ (pc_host p)))
         \<and> gateway_started (host_statfs (pc_host p)) (gateway_for (pc_host p) gitd) w w'))"
proof -
  let ?h = "pc_host p"
  define post where "post = (\<lambda>r w'. (\<exists>x. r = Some (x :: unit result)) \<and> (execs w' = execs w \<or> (\<exists>gitd. gitd_ok gitd
     \<and> Complete (IdentityFromEnv (host_environ ?h)) \<and> gateway_started (host_statfs ?h) (gateway_for ?h gitd) w w')))"
  have same: "post (Some x) w1" if "same_files w w1" for x w1
    using same_files_fields [OF that] by (simp add: post_def)
  have gate: "wp (done_with (Serve (host_git ?h) (host_statfs ?h) (host_environ ?h) (gateway_for ?h gitd))) post w1"
    if "same_files w w1" "gitd_ok gitd" for gitd w1
  proof -
    have "gateway_started (host_statfs ?h) cfg w1 w2 \<longleftrightarrow> gateway_started (host_statfs ?h) cfg w w2" for cfg w2
      using same_files_fields [OF that(1)] by (simp add: gateway_started_def)
    with same_files_fields [OF that(1)] that(2) show ?thesis
      unfolding done_with_def wp_bind wp_return post_def by (auto intro!: wp_mono [OF Serve_execs])
  qed
  have "wp (runServe p args) post w"
  proof (cases "parseConfigFlag args")
    case (Inr x)
    obtain cfg rest where x: "x = (cfg, rest)" by fastforce
    show ?thesis
    proof (cases "rest = []")
      case True
      have "wp (LoadGitd (yaml_gitd ?h) cfg) (\<lambda>rg. wp (case rg of
              Inl e \<Rightarrow> return (Some (Fail e))
            | Inr gitd \<Rightarrow>
                (case NewLogger gitd of
                   Inl e \<Rightarrow> return (Some (Fail e))
                 | Inr log \<Rightarrow> done_with (Serve (host_git ?h) (host_statfs ?h) (host_environ ?h) (gateway_for ?h gitd)))) post) w"
        by (rule wp_mono [OF wp_LoadGitd]) (auto intro!: same gate split: sum.split)
      with Inr x True assms(1) show ?thesis by (simp add: runServe_def Let_def wp_bind cong: sum.case_cong)
    qed (simp add: runServe_def Inr x same)
  qed (simp add: runServe_def same)
  then have "wp (Cli_Run p (''serve'' # args)) (\<lambda>r w'. (\<exists>code msg. r = Some (code, msg)) \<and> (execs w' = execs w \<or> (\<exists>gitd. gitd_ok gitd
     \<and> Complete (IdentityFromEnv (host_environ ?h)) \<and> gateway_started (host_statfs ?h) (gateway_for ?h gitd) w w'))) w"
    by (auto simp: Cli_Run_def cli_commands_def wp_bind post_def split: sum.split elim!: wp_mono)
  from wp_run [OF this assms(2)] show ?thesis .
qed

definition sample_host :: "string list \<Rightarrow> Host" where
  "sample_host env = \<lparr>env_Path = ''/bin'', host_stdin = ([], None), host_git = writing_git, host_statfs = (\<lambda>p. Ok (0, 0)),
     host_sock = (\<lambda>r. return (Ok \<lparr>StatusCode = 200, resp_Status = ''200 OK'', resp_Body = [], resp_ReadErr = None\<rparr>)),
     host_store = (\<lambda>b r. Ok no_store), host_Get = (\<lambda>u. return (Fail (Errf [] []))), host_environ = env,
     yaml_gitd = keep_yaml, yaml_webhooks = keep_yaml\<rparr>"

definition sample_proc :: "string list \<Rightarrow> Proc" where
  "sample_proc env = \<lparr>pc_host = sample_host env, pc_clock = (\<lambda>n. sample_now), pc_x509 = sample_x509,
     pc_http = \<lparr>he_NewRequest = (\<lambda>u. None), he_Do = (\<lambda>r. return (Fail (Errf [] []))), he_HMAC = (\<lambda>k d. d)\<rparr>,
     pc_watch = (Ok (), Ok (), []), pc_daemon = (\<lambda>d. return None), pc_version = ''v1''\<rparr>"

lemma ssh_session_confined_witness:
  "envGet (host_environ (pc_host (sample_proc [''SSH_CONNECTION=::1 1 ::1 22'']))) ''SSH_CONNECTION'' = ''::1 1 ::1 22''
   \<and> (\<exists>code msg. fst (run_state (Cli_Run (sample_proc [''SSH_CONNECTION=::1 1 ::1 22'']) [''serve'', ''--config'', ''/none'']) sample_repos) = Some (code, msg))
   \<and> execs (snd (run_state (Cli_Run (sample_proc [''SSH_CONNECTION=::1 1 ::1 22'']) [''serve'', ''--config'', ''/none'']) sample_repos)) = []"
proof -
  let ?p = "sample_proc [''SSH_CONNECTION=::1 1 ::1 22'']"
  let ?run = "run_state (Cli_Run ?p [''serve'', ''--config'', ''/none'']) sample_repos"
  have e: "envGet (host_environ (pc_host ?p)) ''SSH_CONNECTION'' = ''::1 1 ::1 22''" by code_simp
  then have ne: "envGet (host_environ (pc_host ?p)) ''SSH_CONNECTION'' \<noteq> []" by simp
  have i: "\<not> Complete (IdentityFromEnv (host_environ (pc_host ?p)))" "execs sample_repos = []" by code_simp+
  from ssh_session_confined [OF ne, of "[''--config'', ''/none'']" sample_repos "fst ?run" "snd ?run"] e i show ?thesis by auto
qed

section \<open>The listing of the spool\<close>

lemma rune_bytes: "\<not> code (hd s) < 128 \<Longrightarrow> c \<in> set (take (valid_rune s) s) \<Longrightarrow> 128 \<le> code c"
  by (cases s) (auto simp: valid_rune_def Let_def is_cont_def list_all_iff numeral_2_eq_2 numeral_3_eq_3 numeral_eq_Suc split: if_splits)

lemma hex_digit_not_newline: "d < 16 \<Longrightarrow> hex_digit d \<noteq> newline_char"
proof -
  assume "d < 16"
  then have "code (hex_digit d) \<noteq> code newline_char" by (auto simp: hex_digit_def code_def)
  then show ?thesis by auto
qed

lemma quote_body_no_newline: "newline_char \<notin> set (quote_body s)"
proof (induction s rule: quote_body.induct)
  case (1 s)
  have u: "newline_char \<notin> set (unicode_escape x)" for x
    using hex_digit_not_newline [of "_ mod 16"] by (auto simp: unicode_escape_def dest: sym)
  have a: "newline_char \<notin> set (quote_ascii c)" for c
    using u by (auto simp: quote_ascii_def)
  have r: "newline_char \<notin> set (take (valid_rune s) s)" if "\<not> code (hd s) < 128"
    using rune_bytes [OF that, of newline_char] by (auto simp: code_def)
  show ?case
    using 1 a u r by (subst quote_body.simps) (auto simp: Let_def)
qed

lemma print_no_newline:
  "json_ok j \<Longrightarrow> newline_char \<notin> set (print_json j)"
  "elems_ok js \<Longrightarrow> newline_char \<notin> set (print_elems js)"
  "members_ok ms \<Longrightarrow> newline_char \<notin> set (print_members ms)"
proof (induction j and js and ms rule: print_json_print_elems_print_members.induct)
  case (3 x)
  then obtain i where "x = show_int i" by (auto simp: int_literal_def)
  moreover have "newline_char \<notin> set (show_nat n)" for n
    using show_nat_digits [of n] by (auto simp: list_all_iff is_digit_def code_def)
  ultimately show ?case by (auto simp: show_int_def)
qed (auto simp: quote_string_def quote_body_no_newline)

lemma encode_record_line: "record_ok rec \<Longrightarrow> newline_char \<notin> set (encode_record rec)"
  unfolding encode_record_def record_json_def
  by (rule print_no_newline(1))
    (simp add: members_ok_append members_ok_event record_ok_def record_text_def valid_utf8_ascii code_def)

lemma raw_lines_text: "list_all (\<lambda>l. newline_char \<notin> set l) ls \<Longrightarrow> raw_lines (text_lines ls) = ls"
proof -
  assume "list_all (\<lambda>l. newline_char \<notin> set l) ls"
  then have "split_on newline_char (text_lines ls) = ls @ [[]]"
    by (induction ls) (simp_all add: text_lines_def split_on_append split_on_no_sep)
  then show ?thesis by (simp add: raw_lines_def)
qed

lemma run_emit_records:
  "faults w = [] \<Longrightarrow> run_state (emit_records recs) w = (Inr (), w\<lparr>written := written w @ text_lines (map encode_record recs)\<rparr>)"
  by (induction recs arbitrary: w) (simp_all add: text_lines_def)

lemma quiet_List_records [frame]: "quiet (List_records s)"
proof -
  have "quiet (list_loop s es recs)" for es recs
    by (induction es arbitrary: recs) (auto simp: readFile_def intro!: frame)
  then show ?thesis unfolding List_records_def by (intro frame)
qed

text \<open>
  C35. \<open>gitd spool list\<close> prints newline-delimited JSON that gives the spool back: when the records can be read,
  the output has one line per record, in the order of the listing, and each line decodes to its record.
\<close>

theorem spool_list_ndjson:
  assumes "faults w = []" and "run_state (List_records s) w = (Inr recs, w1)" and "list_all record_ok recs"
  shows "\<exists>out. run_state (spoolList s) w = (Inr (), w1\<lparr>written := written w1 @ out\<rparr>)
    \<and> map decodeRecord (raw_lines out) = map Inr recs"
proof (intro exI conjI)
  have "faults w1 = []" using quiet_List_records assms(1,2) unfolding quiet_def by (metis snd_conv)
  with assms(2) show "run_state (spoolList s) w = (Inr (), w1\<lparr>written := written w1 @ text_lines (map encode_record recs)\<rparr>)"
    by (simp add: spoolList_def run_emit_records)
  have "raw_lines (text_lines (map encode_record recs)) = map encode_record recs"
    using assms(3) by (intro raw_lines_text) (auto simp: list_all_iff dest: encode_record_line)
  with assms(3) show "map decodeRecord (raw_lines (text_lines (map encode_record recs))) = map Inr recs"
    by (auto simp: list_all_iff decode_encoded record_ok_def)
qed

lemma spool_list_ndjson_witness:
  "\<exists>out. run_state (spoolList sample_store) (spool_world [sample_file StatePending])
       = (Inr (), (spool_world [sample_file StatePending])\<lparr>written := out\<rparr>)
     \<and> map decodeRecord (raw_lines out) = [Inr (sample_record StatePending)]"
proof -
  let ?w = "spool_world [sample_file StatePending]"
  have w: "faults ?w = []" "written ?w = []" by (simp_all add: spool_world_def)
  have ok: "list_all record_ok [sample_record StatePending]" by (simp add: sample_record_ok)
  from spool_list_ndjson [OF w(1) sample_list ok] w(2) show ?thesis by simp
qed

end
