(* ===== verification/Browse_Pages.thy ===== *)
theory Browse_Pages
  imports Browse_Facts
begin

text \<open>
  What the pages of the web interface are made of, read as HTML: whatever the repositories, git and the
  requests contain, no page has a script or an event handler that is not in the templates, and no tag is
  left open; which links lead where; and how the size limit on rendered Markdown breaks the first of these.
\<close>

section \<open>Markup that brings in no code\<close>

text \<open>No script element and no event handler; the templates have one handler, on the reference selector.\<close>

fun inert_event :: "event \<Rightarrow> bool" where
  "inert_event (Tag closing n) = (n \<noteq> ''script'')"
| "inert_event (Attribute e a) = (\<not> HasPrefix a ''on'')"

definition page_event :: "event \<Rightarrow> bool" where
  "page_event e \<longleftrightarrow> inert_event e \<or> e = Attribute ''select'' ''onchange''"

definition clean_markup :: "string \<Rightarrow> bool" where
  "clean_markup s \<longleftrightarrow> whole s \<and> list_all inert_event (markup HText s)"

definition fragment_ok :: "string \<Rightarrow> bool" where
  "fragment_ok s \<longleftrightarrow> whole s \<and> list_all page_event (markup HText s)"

lemma clean_fragment: "clean_markup s \<Longrightarrow> fragment_ok s"
  by (auto simp: clean_markup_def fragment_ok_def page_event_def list_all_iff)

lemma fragment_append: "fragment_ok s \<Longrightarrow> fragment_ok t \<Longrightarrow> fragment_ok (s @ t)"
  by (simp add: fragment_ok_def whole_def)

lemma fragment_escaped: "fragment_ok (htmlEscape s)"
  using inert_text [of "htmlEscape s"] escaped_chars [of "CHR ''<''" s] by (simp add: fragment_ok_def) (metis insertI1 list.pred_inject(1))

lemma fragment_Nil: "fragment_ok []"
  by (simp add: fragment_ok_def)

lemma template_events: "list_all page_event (fst (outline (fragTmpl f) HText))"
  by (cases f; simp only: fragTmpl.simps; code_simp)

text \<open>A fragment is fine when the HTML that is put into it is.\<close>

lemma frag_ok:
  assumes "\<And>ps. ExecuteTemplate f = Ok ps \<Longrightarrow> raws_in L ps" and "list_all page_event L"
  shows "fragment_ok (frag f)"
proof -
  obtain ps where ps: "ExecuteTemplate f = Ok ps" "frag f = text_of ps" by (rule frag_pieces)
  note r = assms(1) [OF ps(1)]
  from Execute_outline [OF ps(1) [unfolded ExecuteTemplate_def] r] template_events [of f] assms(2)
  have "list_all page_event (markup HText (text_of ps))" by (auto simp: list_all_iff)
  with Execute_markup(1) [OF ps(1) [unfolded ExecuteTemplate_def] raws_in_whole [OF r]] ps(2) show ?thesis
    by (simp add: fragment_ok_def)
qed

lemma fragFuncs_html_free: "html_free_funcs fragFuncs"
  unfolding html_free_funcs_def
proof (intro allI impI)
  fix f vs v
  assume "fragFuncs f vs = Some v"
  then show "html_free v" by (cases "(f, vs)" rule: fragFuncs.cases) (auto split: if_splits)
qed

lemma frag_plain: "html_free (frag_value f) \<Longrightarrow> fragment_ok (frag f)"
  by (rule frag_ok [of _ "[]"])
     (auto simp: ExecuteTemplate_def elim!: Execute_cases intro!: no_raws_in dest: exec_html_free [OF fragFuncs_html_free])

lemma frag_plain_kinds:
  "fragment_ok (frag (Repolist names))" "fragment_ok (frag (Refbar rb))" "fragment_ok (frag (Commitlist cl))"
  "fragment_ok (frag (TreeList td))" "fragment_ok (frag (Empty r))"
  by (rule frag_plain, simp add: commit_value_def entry_value_def list_all_iff)+

definition raws :: "piece list \<Rightarrow> string list" where
  "raws ps = concat (map (\<lambda>p. case p of Raw r \<Rightarrow> [r] | _ \<Rightarrow> []) ps)"

lemma raws_simps [simp]:
  "raws [] = []" "raws (Lit s # ps) = raws ps" "raws (Val s # ps) = raws ps" "raws (Raw s # ps) = s # raws ps"
  "raws (ps @ qs) = raws ps @ raws qs"
  by (simp_all add: raws_def)

lemma raws_skeleton: "raws (skeleton ps) = raws ps"
proof (induction ps)
  case (Cons p ps)
  then show ?case by (cases p) simp_all
qed simp

lemma raws_in_body: "set (raws ps) \<subseteq> {b} \<Longrightarrow> whole b \<Longrightarrow> raws_in (markup HText b) ps"
proof (induction ps)
  case (Cons p ps)
  then show ?case by (cases p) simp_all
qed simp

lemma frag_body:
  assumes "\<And>qs. exec fragFuncs (frag_value f) (fragTmpl f) (frag_value f) = Ok qs \<Longrightarrow> set (raws qs) \<subseteq> {b}" and "fragment_ok b"
  shows "fragment_ok (frag f)"
proof (rule frag_ok)
  fix ps
  assume "ExecuteTemplate f = Ok ps"
  from Execute_skeleton [OF _ this [unfolded ExecuteTemplate_def]] frag_fits [of f]
  obtain qs where qs: "exec fragFuncs (frag_value f) (fragTmpl f) (frag_value f) = Ok qs" "skeleton qs = skeleton ps"
    by (auto simp: fits_def)
  from assms(1) [OF qs(1)] qs(2) have "set (raws ps) \<subseteq> {b}" by (metis raws_skeleton)
  with assms(2) show "raws_in (markup HText b) ps" by (intro raws_in_body) (simp_all add: fragment_ok_def)
qed (use assms(2) in \<open>simp add: fragment_ok_def\<close>)

lemma frag_diff: "fragment_ok (df_Body d) \<Longrightarrow> fragment_ok (frag (Diff d))"
  by (erule frag_body [rotated]) (auto simp: diff_template_def append_results_Cons simp del: append_results.simps(2) split: if_splits)

lemma frag_blob: "fragment_ok (bl_Body d) \<Longrightarrow> fragment_ok (frag (Blob d))"
  by (erule frag_body [rotated]) (auto simp: blob_template_def blob_nodes_def call_def append_results_Cons simp del: append_results.simps(2) split: if_splits)

lemma frag_readme: "rm_RenderMode d = ''client'' \<or> fragment_ok (rm_Body d) \<Longrightarrow> fragment_ok (frag (Readme d))"
proof (erule disjE)
  assume "rm_RenderMode d = ''client''"
  with fragment_Nil show ?thesis by (intro frag_body [of _ "[]"]) (auto simp: readme_template_def call_def append_results_Cons simp del: append_results.simps(2) split: if_splits)
next
  assume "fragment_ok (rm_Body d)"
  then show ?thesis by (intro frag_body [of _ "rm_Body d"]) (auto simp: readme_template_def call_def append_results_Cons simp del: append_results.simps(2) split: if_splits)
qed

section \<open>The layout\<close>

text \<open>The pieces of the layout that do not depend on the page, with and without the scripts of the client mode.\<close>

definition layout_frame :: "bool \<Rightarrow> piece list" where
  "layout_frame with_scripts =
     (let v = page_value \<lparr>pg_Title = [], pg_Repo = [], pg_RenderMode = (if with_scripts then ''client'' else []), pg_Version = [], pg_Body = []\<rparr> in
      case exec no_funcs v layout_template v of Inl e \<Rightarrow> [] | Inr ps \<Rightarrow> skeleton ps)"

fun is_lit :: "piece \<Rightarrow> bool" where
  "is_lit (Lit s) = True"
| "is_lit _ = False"

definition layout_before :: "bool \<Rightarrow> string" where
  "layout_before with_scripts = text_of (takeWhile is_lit (layout_frame with_scripts))"

definition layout_after :: "bool \<Rightarrow> string" where
  "layout_after with_scripts = text_of (dropWhile is_lit (layout_frame with_scripts))"

lemma layout_skeleton:
  assumes "exec no_funcs (page_value p) layout_template (page_value p) = Ok qs"
  shows "text_of (skeleton qs) = layout_before (pg_RenderMode p = ''client'') @ pg_Body p @ layout_after (pg_RenderMode p = ''client'')
     \<and> (\<forall>r. Raw r \<in> set qs \<longrightarrow> r = pg_Body p)"
proof (cases "pg_RenderMode p = ''client''")
  case True
  with assms show ?thesis
    by (auto simp: layout_before_def layout_after_def layout_frame_def layout_template_def page_value_def call_def Let_def)
next
  case False
  with assms show ?thesis
    by (auto simp: layout_before_def layout_after_def layout_frame_def layout_template_def page_value_def call_def Let_def)
qed

definition opens_script :: "event \<Rightarrow> bool" where
  "opens_script e \<longleftrightarrow> e = Tag False ''script''"

fun handler_ok :: "event \<Rightarrow> bool" where
  "handler_ok (Attribute e a) = (HasPrefix a ''on'' \<longrightarrow> e = ''select'' \<and> a = ''onchange'')"
| "handler_ok (Tag closing n) = True"

lemma layout_before_whole: "whole (layout_before with_scripts)"
  by (cases with_scripts; simp only:; code_simp)

lemma layout_after_whole: "whole (layout_after with_scripts)"
  by (cases with_scripts; simp only:; code_simp)

lemma layout_handlers: "list_all handler_ok (markup HText (layout_before with_scripts))" "list_all handler_ok (markup HText (layout_after with_scripts))"
  by (cases with_scripts; simp only:; code_simp)+

lemma layout_scripts:
  "filter opens_script (markup HText (layout_before with_scripts)) = []"
  "length (filter opens_script (markup HText (layout_after with_scripts))) = (if with_scripts then 3 else 0)"
  by (cases with_scripts; simp only:; code_simp)+

text \<open>
  What a page may be: whole, with no script but the three of the layout, and those only in client mode, and with
  no event handler but the one of the reference selector.
\<close>

definition safe_page :: "bool \<Rightarrow> bytes \<Rightarrow> bool" where
  "safe_page with_scripts page \<longleftrightarrow>
     whole page \<and> length (filter opens_script (markup HText page)) \<le> (if with_scripts then 3 else 0) \<and> list_all handler_ok (markup HText page)"

lemma page_event_facts: "page_event e \<Longrightarrow> handler_ok e \<and> \<not> opens_script e"
  by (cases e) (auto simp: page_event_def opens_script_def)

lemma layout_safe:
  assumes "fragment_ok (pg_Body p)" "layout_Execute p = Ok page"
  shows "safe_page (pg_RenderMode p = ''client'') page"
proof -
  let ?c = "pg_RenderMode p = ''client''" and ?b = "pg_Body p"
  obtain ps where ps: "Execute no_funcs layout_template (page_value p) = Ok ps" "page = text_of ps"
    using layout_pieces [of p] assms(2) by (metis sum.inject(2))
  have "bare layout_template" using layout_fits by (simp add: fits_def)
  then obtain qs where qs: "exec no_funcs (page_value p) layout_template (page_value p) = Ok qs" "skeleton qs = skeleton ps"
    using Execute_skeleton [OF _ ps(1)] by blast
  have "set (raws qs) \<subseteq> {?b}" using layout_skeleton [OF qs(1)] by (auto simp: raws_def split: piece.splits)
  with qs(2) have "set (raws ps) \<subseteq> {?b}" by (metis raws_skeleton)
  then have "raws_whole ps" using assms(1) by (intro raws_in_whole [OF raws_in_body]) (auto simp: fragment_ok_def)
  note m = Execute_markup [OF ps(1) this]
  have "markup HText page = markup HText (layout_before ?c) @ markup HText ?b @ markup HText (layout_after ?c)"
    using m(2) layout_skeleton [OF qs(1)] qs(2) ps(2) layout_before_whole [of ?c] assms(1) by (simp add: whole_def fragment_ok_def)
  moreover have "filter opens_script (markup HText ?b) = []" "list_all handler_ok (markup HText ?b)"
    using assms(1) page_event_facts by (auto simp: fragment_ok_def list_all_iff filter_empty_conv)
  ultimately show ?thesis
    using m(1) ps(2) layout_scripts [of ?c] layout_handlers [of ?c] by (simp add: safe_page_def)
qed

section \<open>Every page\<close>

text \<open>
  What the pages need of the Markdown converter (which is run without raw HTML) and of the blob formatter: whole
  tags, no script and no event handler, and no rendering so long that it is cut.
\<close>

definition clean_library :: "Web \<Rightarrow> bool" where
  "clean_library wb \<longleftrightarrow>
     (\<forall>src page. wb_Convert wb src = Ok page \<longrightarrow> clean_markup page \<and> length page \<le> maxRenderBytes)
     \<and> (\<forall>it page. wb_Format wb it = Ok page \<longrightarrow> clean_markup page)"

fun good_page :: "bool \<Rightarrow> bytes result \<Rightarrow> bool" where
  "good_page c (Inl e) = True"
| "good_page c (Inr page) = safe_page c page"

lemma good_renderPage: "fragment_ok body \<Longrightarrow> good_page (bh_render h = ''client'') (renderPage wb (page_of h title name body))"
  using layout_safe [of "(page_of h title name body)\<lparr>pg_Version := wb_version wb\<rparr>"]
  by (cases "renderPage wb (page_of h title name body)") (simp_all add: renderPage_def page_of_def)

lemma markdown_ok: "clean_library wb \<Longrightarrow> renderMarkdownServer wb src = Ok x \<Longrightarrow> fragment_ok x"
  by (auto simp: clean_library_def renderMarkdownServer_def intro!: clean_fragment split: sum.splits)

lemma blob_body_ok:
  assumes "bh_render h = ''server'' \<longrightarrow> clean_library wb" "blob_body wb h tp data = Ok (body, hl, lang)"
  shows "fragment_ok body"
  using assms fragment_escaped markdown_ok
  by (auto simp: blob_body_def highlightBlobServer_def clean_library_def intro: clean_fragment split: if_splits sum.splits option.splits)

lemma diff_line_ok: "fragment_ok (diff_line line)"
proof -
  let ?cls = "diff_class line" and ?span = "\<lambda>cls. ''<span class='' @ [dquote_char] @ cls @ [dquote_char] @ ''>''"
  have eq: "diff_line line = (if ?cls \<noteq> [] then ?span ?cls @ htmlEscape line @ ''</span>'' else htmlEscape line) @ [newline_char]"
    by (simp add: diff_line_def Let_def)
  have "fragment_ok (?span ''add'')" "fragment_ok (?span ''del'')" "fragment_ok (?span ''meta'')" by code_simp+
  moreover have "?cls \<in> {''add'', ''del'', ''meta'', []}" by (simp add: diff_class_def)
  ultimately have "?cls \<noteq> [] \<longrightarrow> fragment_ok (?span ?cls)" by (elim insertE emptyE) (simp_all only:, simp_all)
  moreover have "fragment_ok ''</span>''" "fragment_ok [newline_char]" by code_simp+
  ultimately show ?thesis unfolding eq by (cases "?cls = []") (simp_all only: if_True if_False simp_thms fragment_append fragment_escaped)
qed

lemma highlightDiff_ok: "fragment_ok (highlightDiff d)"
proof -
  have "fragment_ok (concat (map diff_line ls))" for ls
    by (induction ls) (simp_all add: fragment_Nil fragment_append diff_line_ok)
  then show ?thesis by (simp add: highlightDiff_def)
qed

lemma returns_only_bind_mid:
  "returns_only Q m \<Longrightarrow> (\<And>x. Q x \<Longrightarrow> returns_only P (f x)) \<Longrightarrow> returns_only P (m \<bind> f)"
  by (auto simp: returns_only_def split: prod.split) (metis fst_conv)

text \<open>A rendering that fails or is a good page, through the combinators of the handlers.\<close>

definition renders_good :: "Handler \<Rightarrow> bytes result io \<Rightarrow> bool" where
  "renders_good h m \<longleftrightarrow> returns_only (good_page (bh_render h = ''client'')) m"

lemma renders_return: "good_page (bh_render h = ''client'') x \<Longrightarrow> renders_good h (return x)"
  by (simp add: renders_good_def returns_only_return)

lemma renders_bind: "(\<And>x. renders_good h (f x)) \<Longrightarrow> renders_good h (m \<bind> f)"
  by (simp add: renders_good_def returns_only_bind)

lemma renders_bind_mid: "returns_only Q m \<Longrightarrow> (\<And>x. Q x \<Longrightarrow> renders_good h (f x)) \<Longrightarrow> renders_good h (m \<bind> f)"
  unfolding renders_good_def by (rule returns_only_bind_mid)

lemma renders_case:
  "renders_good h (return (Fail e))"
  "(\<And>y. renders_good h (k y)) \<Longrightarrow> renders_good h (case s of Inl e \<Rightarrow> return (Fail e) | Inr y \<Rightarrow> k y)"
  "renders_good h m \<Longrightarrow> renders_good h n \<Longrightarrow> renders_good h (if b then m else n)"
  by (auto simp: renders_good_def returns_only_def split: sum.split)

lemma renders_Action: "renders_good h fn \<Longrightarrow> returns_only (good_page (bh_render h = ''client'')) (renderAction sub gone fn)"
  by (auto simp: renderAction_def renders_good_def returns_only_def split: Submission.split prod.split) (metis fst_conv)

lemma renders_with_ref: "(\<And>ref. renders_good h (k ref)) \<Longrightarrow> renders_good h (with_ref git h dir ref k)"
  unfolding with_ref_def by (intro renders_case renders_bind)

lemma readme_ok:
  assumes "bh_render h = ''server'' \<longrightarrow> clean_library wb"
  shows "returns_only (\<lambda>r. case r of Inr rd \<Rightarrow> fragment_ok (readme_fragment wb h name ref rd) | Inl e \<Rightarrow> True) (renderReadme wb git h dir ref)"
proof -
  have "fragment_ok (readme_fragment wb h name ref (Some x))" if "bh_render h = ''client'' \<or> fragment_ok (rr_rendered x)" for x
    using that by (auto simp: readme_fragment_def intro!: frag_readme)
  moreover have "fragment_ok (readme_fragment wb h name ref None)" by (simp add: readme_fragment_def fragment_Nil)
  ultimately show ?thesis
    using assms fragment_escaped markdown_ok unfolding renderReadme_def
    by (auto simp: returns_only_def Let_def split: sum.split option.split prod.split)
qed

lemma title_ok: "fragment_ok (''<div class='' @ [dquote_char] @ ''repo-home'' @ [dquote_char] @ ''><h1>'' @ htmlEscape name @ ''</h1>'')"
proof -
  have "fragment_ok (''<div class='' @ [dquote_char] @ ''repo-home'' @ [dquote_char] @ ''><h1>'')" "fragment_ok ''</h1>''" by code_simp+
  from fragment_append [OF this(1) fragment_append [OF fragment_escaped [of name] this(2)]] show ?thesis by simp
qed

lemmas fragment_parts = fragment_append frag_plain_kinds frag_diff frag_blob highlightDiff_ok

lemma home_page_ok:
  assumes "bh_render h = ''server'' \<longrightarrow> clean_library wb"
  shows "renders_good h (home_page wb git h dir name ref)"
proof -
  have d: "fragment_ok ''</div>''" by code_simp
  have "good_page (bh_render h = ''client'') (renderPage wb (page_of h name name
      (''<div class='' @ [dquote_char] @ ''repo-home'' @ [dquote_char] @ ''><h1>'' @ htmlEscape name @ ''</h1>''
        @ frag (Refbar rb) @ frag (Commitlist cl) @ readme_fragment wb h name ref rd @ frag (TreeList td) @ ''</div>'')))"
    if "fragment_ok (readme_fragment wb h name ref rd)" for rb cl rd td
    using fragment_append [OF title_ok [of name] fragment_append [OF frag_plain_kinds(2) fragment_append [OF frag_plain_kinds(3)
      fragment_append [OF that fragment_append [OF frag_plain_kinds(4) d]]]]]
    by (intro good_renderPage) simp
  then have tail: "renders_good h (case r of Inl e \<Rightarrow> return (Fail e) | Inr readme \<Rightarrow> do {
      rt \<leftarrow> treeEntries git h dir ref [];
      return (case rt of Inl e \<Rightarrow> Fail e | Inr entries \<Rightarrow> renderPage wb (page_of h name name
        (''<div class='' @ [dquote_char] @ ''repo-home'' @ [dquote_char] @ ''><h1>'' @ htmlEscape name @ ''</h1>''
          @ frag (Refbar rb) @ frag (Commitlist cl) @ readme_fragment wb h name ref readme @ frag (TreeList (td entries)) @ ''</div>''))) })"
    if "case r of Inr rd \<Rightarrow> fragment_ok (readme_fragment wb h name ref rd) | Inl e \<Rightarrow> True" for r rb cl td
    using that by (cases r) (auto intro!: renders_bind renders_return renders_case(1) split: sum.split)
  show ?thesis
    unfolding home_page_def
    by (rule renders_bind, rule renders_case(2), rule renders_bind, rule renders_case(2), rule renders_bind_mid [OF readme_ok [OF assms, of name ref]])
       (rule tail)
qed

lemma log_page_ok: "renders_good h (log_page wb git h dir name page ref)"
  unfolding log_page_def Let_def
  by (auto intro!: renders_bind renders_case(2) renders_return good_renderPage fragment_append frag_plain_kinds split: sum.split)

lemma tree_page_ok: "renders_good h (tree_page wb git h dir name tp ref)"
  unfolding tree_page_def
  by (auto intro!: renders_bind renders_case(2) renders_return good_renderPage fragment_append frag_plain_kinds split: sum.split)

lemma blob_page_ok:
  assumes "bh_render h = ''server'' \<longrightarrow> clean_library wb"
  shows "renders_good h (blob_page wb git h dir name tp ref)"
  unfolding blob_page_def Let_def
  by (auto intro!: renders_bind renders_return good_renderPage frag_blob split: sum.split) (rule blob_body_ok [OF assms])

text \<open>An answer is fine when it is no HTML, or a safe page.\<close>

definition safe_answer :: "Handler \<Rightarrow> Response \<Rightarrow> bool" where
  "safe_answer h resp \<longleftrightarrow>
     (map_of (rs_Headers resp) ''Content-Type'' = Some ''text/html; charset=utf-8'' \<longrightarrow> safe_page (bh_render h = ''client'') (rs_Body resp))"

lemma safe_made [frame]:
  "safe_answer h (error_response msg status)" "safe_answer h (writeErr e)"
  "safe_answer h (of_reply rp)" "safe_answer h (attachment wb file ''application/octet-stream'' d)" "safe_answer h (attachment wb file ''text/plain'' d)"
  by (simp_all add: safe_answer_def error_response_def writeErr_def attachment_def of_reply_def split: option.split)

lemma safe_html: "good_page (bh_render h = ''client'') x \<Longrightarrow> safe_answer h (html_reply x)"
  by (cases x) (simp_all add: html_reply_def writeHTML_def safe_made(2), simp add: safe_answer_def)

lemma safe_render:
  "renders_good h fn \<Longrightarrow> returns_only (safe_answer h) (do { x \<leftarrow> renderAction sub gone fn; return (html_reply x) })"
  by (rule returns_only_bind_mid [OF renders_Action]) (auto intro: returns_only_return safe_html)

lemma safe_handlers:
  assumes "bh_render h = ''server'' \<longrightarrow> clean_library wb"
  shows "returns_only (safe_answer h) (handleRepoHome wb git h sub gone name r)" "returns_only (safe_answer h) (handleLog wb git h sub gone name r)"
    "returns_only (safe_answer h) (handleTree wb git h sub gone name r)" "returns_only (safe_answer h) (handleBlob wb git h sub gone name r)"
  unfolding handleRepoHome_def handleLog_def handleTree_def handleBlob_def resolveRepo_def
  by (intro frame safe_render renders_with_ref home_page_ok [OF assms] log_page_ok tree_page_ok blob_page_ok [OF assms]
      renders_bind renders_case renders_return good_renderPage frag_plain_kinds)+

lemma safe_handleRaw: "returns_only (safe_answer h) (handleRaw wb git h sub gone name r)"
  unfolding handleRaw_def resolveRepo_def by (intro frame) (auto intro!: frame split: sum.split)

lemma safe_handleDiff: "returns_only (safe_answer h) (handleDiff wb git h subs gone name r)"
  unfolding handleDiff_def diff_answer_def resolveRepo_def Let_def
  by (intro frame safe_render renders_return good_renderPage frag_diff) (auto intro: highlightDiff_ok)

lemma safe_handleRepoIndex: "returns_only (safe_answer h) (handleRepoIndex wb h sub gone r)"
proof -
  have "safe_page (bh_render h = ''client'') out" if "renderPage wb \<lparr>pg_Title = t, pg_Repo = [], pg_RenderMode = [], pg_Version = [], pg_Body = frag (Repolist ns)\<rparr> = Ok out" for t ns out
    using layout_safe [OF _ that [unfolded renderPage_def]] frag_plain_kinds(1) by (simp add: safe_page_def)
  then have "good_page (bh_render h = ''client'') (renderPage wb \<lparr>pg_Title = t, pg_Repo = [], pg_RenderMode = [], pg_Version = [], pg_Body = frag (Repolist ns)\<rparr>)" for t ns
    by (cases "renderPage wb \<lparr>pg_Title = t, pg_Repo = [], pg_RenderMode = [], pg_Version = [], pg_Body = frag (Repolist ns)\<rparr>") simp_all
  then show ?thesis
    unfolding handleRepoIndex_def by (intro frame safe_render renders_bind renders_return) (auto split: sum.split)
qed

lemma safe_mux:
  assumes "bh_render h = ''server'' \<longrightarrow> clean_library wb"
  shows "returns_only (safe_answer h) (browse_mux wb git h en r)"
  by (auto simp: browse_mux_def Let_def intro!: frame safe_handlers [OF assms] safe_handleRaw safe_handleDiff safe_handleRepoIndex split: list.split)


section \<open>The limit on rendered Markdown\<close>

definition long_rendering :: string where
  "long_rendering = replicate (maxRenderBytes - 3) (CHR ''a'') @ ''<em>b</em>''"

lemma whole_letters: "scan HText (replicate n (CHR ''a'') @ s) = scan HText s" "markup HText (replicate n (CHR ''a'') @ s) = markup HText s"
  by (induction n) simp_all

text \<open>
  The size limit on rendered Markdown is applied to the HTML: a rendering of whole tags that is longer than the
  limit is cut wherever the limit falls, here inside a tag, and what goes into the page is no longer whole.
\<close>

theorem markdown_cut:
  assumes "wb_Convert wb src = Ok long_rendering"
  shows "clean_markup long_rendering \<and> (\<exists>page. renderMarkdownServer wb src = Ok page \<and> scan HText page = HTagName False ''em'')"
proof -
  have "scan HText ''<em>b</em>'' = HText" "list_all inert_event (markup HText ''<em>b</em>'')" "scan HText ''<em'' = HTagName False ''em''"
    by code_simp+
  moreover have "take maxRenderBytes long_rendering = replicate (maxRenderBytes - 3) (CHR ''a'') @ ''<em''"
    by (simp add: long_rendering_def)
  ultimately show ?thesis using assms
    unfolding clean_markup_def whole_def long_rendering_def renderMarkdownServer_def
    by (simp only: whole_letters sum.case) (metis whole_letters(1))
qed

section \<open>Concrete pages\<close>

text \<open>A library that escapes what it is given, or writes one paragraph.\<close>

definition clean_web :: Web where
  "clean_web = sample_web\<lparr>wb_Convert := (\<lambda>src. Ok ''<p>text</p>''), wb_Format := (\<lambda>it. Ok (htmlEscape (concat (map snd it))))\<rparr>"

lemma clean_escaped: "clean_markup (htmlEscape s)"
  using inert_text [of "htmlEscape s"] escaped_chars [of "CHR ''<''" s] by (simp add: clean_markup_def) (metis insertI1 list.pred_inject(1))

lemma clean_clean_web: "clean_library clean_web"
proof -
  have "clean_markup ''<p>text</p>''" by code_simp
  then show ?thesis by (simp add: clean_library_def clean_web_def clean_escaped)
qed

definition server_handler :: Handler where
  "server_handler = sample_handler\<lparr>bh_render := ''server''\<rparr>"

lemma index_is_html:
  "map_of (rs_Headers (fst (fst (run_state (browse_Mux clean_web sample_assets writing_git server_handler sample_encounter []
      (sample_request ''git'' ''/'' [])) sample_repos)))) ''Content-Type'' = Some ''text/html; charset=utf-8''"
proof -
  let ?r = "sample_request ''git'' ''/'' []"
  have c: "normalizeHost (br_Host ?r) \<in> set (hostAllowlist server_handler)" "\<not> HasPrefix (br_Path ?r) ''/static/''"
    "split_on slash (br_Path ?r) = [[], []]" "\<exists>names. fst (run_state (ListBare ''/srv'') sample_repos) = Inr names"
    by (code_simp, code_simp, code_simp, rule exI [of _ "[''alpha'']"], code_simp)
  have "browse_mux clean_web writing_git server_handler sample_encounter ?r = handleRepoIndex clean_web server_handler Queued False ?r"
    unfolding browse_mux_def Let_def c(3) by (simp add: sample_request_def sample_encounter_def)
  moreover obtain names w where n: "run_state (ListBare ''/srv'') sample_repos = (Inr names, w)" using c(4) by (metis prod.collapse)
  obtain page where "renderPage clean_web \<lparr>pg_Title = ''git.cmposer.cc'', pg_Repo = [], pg_RenderMode = [], pg_Version = [], pg_Body = frag (Repolist names)\<rparr> = Ok page"
    by (metis layout_pieces renderPage_def)
  with n have "run_state (handleRepoIndex clean_web server_handler Queued False ?r) sample_repos = (writeHTML page, w)"
    by (simp add: handleRepoIndex_def renderAction_def html_reply_def server_handler_def sample_handler_def sample_request_def)
  ultimately show ?thesis using c(1,2)
    by (simp add: browse_Mux_def withAudit_def withSecurity_def withHostAllowlist_def withStatic_def writeHTML_def map_of_add_headers)
qed


theorem markdown_cut_witness:
  "\<exists>wb src page. wb_Convert wb src = Ok long_rendering \<and> renderMarkdownServer wb src = Ok page \<and> \<not> whole page"
proof -
  have "wb_Convert (sample_web\<lparr>wb_Convert := (\<lambda>src. Ok long_rendering)\<rparr>) [] = Ok long_rendering" by simp
  from markdown_cut [OF this] this show ?thesis by (force simp: whole_def)
qed

end
