(* ===== verification/Browse_Links.thy ===== *)
theory Browse_Links
  imports Browse_Pages
begin

text \<open>
  Where the links of the pages lead: the templates escape what they put into a URL, so the links of a directory
  listing lead to its entries whatever their names are, while the download link, which a handler puts together
  itself, does not always lead to its file.
\<close>

section \<open>Following a link\<close>

text \<open>
  How a link is followed: the browser leaves out the fragment, and the server splits the query and
  decodes it (\<open>url.ParseQuery\<close>, which leaves out what it cannot decode).
\<close>

definition hex_value :: "char \<Rightarrow> nat" where
  "hex_value c = (if is_digit c then code c - 48 else if 97 \<le> code c then code c - 87 else code c - 55)"

fun QueryUnescape :: "string \<Rightarrow> string option" where
  "QueryUnescape [] = Some []"
| "QueryUnescape (c # s) =
     (if c = CHR ''%'' then
        (case s of
           a # b # t \<Rightarrow> if is_hex a \<and> is_hex b then map_option (Cons (char_of (16 * hex_value a + hex_value b))) (QueryUnescape t) else None
         | _ \<Rightarrow> None)
      else map_option (Cons (if c = CHR ''+'' then CHR '' '' else c)) (QueryUnescape s))"

definition query_pair :: "string \<Rightarrow> (string \<times> string) option" where
  "query_pair kv =
     (if kv = [] \<or> CHR '';'' \<in> set kv then None
      else case cut_at (CHR ''='') kv of
        None \<Rightarrow> map_option (\<lambda>k. (k, [])) (QueryUnescape kv)
      | Some (k, v) \<Rightarrow> Option.bind (QueryUnescape k) (\<lambda>k'. map_option (Pair k') (QueryUnescape v)))"

definition ParseQuery :: "string \<Rightarrow> (string \<times> string) list" where
  "ParseQuery q = List.map_filter query_pair (split_on (CHR ''&'') q)"

definition follow :: "string \<Rightarrow> string \<times> (string \<times> string) list" where
  "follow url =
     (let u = takeWhile (\<lambda>c. c \<noteq> CHR ''#'') url in
      case cut_at (CHR ''?'') u of None \<Rightarrow> (u, []) | Some (p, q) \<Rightarrow> (p, ParseQuery q))"

text \<open>A page has a link when the link is the whole value of an \<open>href\<close> attribute of an \<open>a\<close> element.\<close>

definition has_link :: "string \<Rightarrow> string \<Rightarrow> bool" where
  "has_link page link \<longleftrightarrow> (\<exists>pre post. page = pre @ [dquote_char] @ link @ [dquote_char] @ post
     \<and> scan HText (pre @ [dquote_char]) = HValue ''a'' AttrURL \<and> scan HText pre = HBeforeValue ''a'' ''href'' \<and> dquote_char \<notin> set link)"

subsection \<open>Escaping and decoding\<close>

lemma hex_digit_facts:
  assumes "d < 16"
  shows "is_hex (hex_digit d)" "hex_value (hex_digit d) = d" "url_unreserved (hex_digit d)"
  using assms by (cases "d < 10"; simp add: hex_digit_def is_hex_def hex_value_def url_unreserved_def is_digit_def code_def)+

lemma code_high: "code c div 16 < 16"
  using code_less_256 [of c] by (simp add: less_mult_imp_div_less)

lemma decode_percent: "QueryUnescape (percent c @ t) = map_option (Cons c) (QueryUnescape t)"
  using hex_digit_facts [OF code_high [of c]] hex_digit_facts [of "code c mod 16"]
  by (simp add: percent_def) (simp add: code_def)

lemma unreserved_plain: "url_unreserved c \<Longrightarrow> c \<noteq> CHR ''%'' \<and> c \<noteq> CHR ''+''"
  by (auto simp: url_unreserved_def code_def is_digit_def)

lemma decode_escaped: "QueryUnescape (processURLOnto False s @ t) = map_option ((@) s) (QueryUnescape t)"
proof (induction s)
  case Nil
  then show ?case by (simp add: option.map_ident)
next
  case (Cons c s)
  then show ?case
    using unreserved_plain [of c] by (auto simp: decode_percent option.map_comp comp_def)
qed

text \<open>The characters of escaped values and of names: none of them means anything in a URL or in an attribute.\<close>

definition link_char :: "char \<Rightarrow> bool" where
  "link_char c \<longleftrightarrow> url_unreserved c \<or> c = CHR ''%'' \<or> c = CHR ''/''"

lemma link_char_plain:
  "link_char c \<Longrightarrow> c \<notin> set ''#?&;=+<>'' \<and> c \<noteq> quote_char \<and> c \<noteq> dquote_char \<and> c \<noteq> nul_char"
  by (auto simp: link_char_def url_unreserved_def code_def is_digit_def)

definition link_text :: "string \<Rightarrow> bool" where
  "link_text s = list_all link_char s"

lemma link_text_chars: "link_text s \<Longrightarrow> c \<in> set ''#?&;=+<>'' \<union> {quote_char, dquote_char, nul_char} \<Longrightarrow> c \<notin> set s"
  using link_char_plain by (fastforce simp: link_text_def list_all_iff)

lemma link_text_escaped: "link_text (processURLOnto False s)"
  using hex_digit_facts(3) [OF code_high] hex_digit_facts(3) [of "code c mod 16" for c]
  by (induction s) (auto simp: link_text_def percent_def link_char_def)

lemma name_unreserved: "ValidName n \<Longrightarrow> list_all url_unreserved n"
proof -
  have "url_unreserved c" if "name_char c" for c
    using that by (auto simp: name_char_def alnum_code url_unreserved_def is_digit_def code_def)
  then show "ValidName n \<Longrightarrow> list_all url_unreserved n" using ValidName_chars by (auto simp: list_all_iff)
qed

lemma link_text_name:
  assumes "ValidName n"
  shows "link_text n \<and> processURLOnto True n = n"
proof -
  have "processURLOnto True n = n" using name_unreserved [OF assms] by (induction n) simp_all
  with name_unreserved [OF assms] show ?thesis by (auto simp: link_text_def link_char_def list_all_iff)
qed

lemma link_text_html: "link_text s \<Longrightarrow> htmlReplacer s = s"
proof (induction s)
  case (Cons c s)
  with link_char_plain [of c] show ?case by (simp add: link_text_def htmlReplacer_def html_replacement_def)
qed (simp add: htmlReplacer_def)

lemma html_unescape_plain: "CHR ''&'' \<notin> set s \<Longrightarrow> html_unescape (s @ t) = s @ html_unescape t"
  by (induction s) (auto simp: html_unescape.simps [of "_ # _"])

lemma html_unescape_all: "CHR ''&'' \<notin> set s \<Longrightarrow> html_unescape s = s"
  using html_unescape_plain [of s "[]"] by simp

definition no_meta :: "string \<Rightarrow> bool" where
  "no_meta s \<longleftrightarrow> set s \<inter> set ''#?&;'' = {}"

lemma no_meta_link_text: "link_text s \<Longrightarrow> no_meta s"
  using link_text_chars [of s] by (fastforce simp: no_meta_def)

text \<open>A link with the two parameters of the pages, read as an attribute value and followed.\<close>

lemma follow_link:
  assumes "no_meta p" "no_meta a" "no_meta b" "QueryUnescape a = Some a'" "QueryUnescape b = Some b'"
  shows "follow (p @ ''?ref='' @ a @ ''&path='' @ b) = (p, [(''ref'', a'), (''path'', b')])"
proof -
  let ?u = "p @ ''?ref='' @ a @ ''&path='' @ b"
  have "CHR ''#'' \<notin> set ?u" using assms(1-3) by (auto simp: no_meta_def)
  then have "takeWhile (\<lambda>c. c \<noteq> CHR ''#'') ?u = ?u" by (intro takeWhile_eq_all_conv [THEN iffD2]) auto
  moreover have "cut_at (CHR ''?'') ?u = Some (p, ''ref='' @ a @ ''&path='' @ b)"
    using cut_at_append [of "CHR ''?''" p "''ref='' @ a @ ''&path='' @ b"] assms(1) by (simp add: no_meta_def)
  moreover have "split_on (CHR ''&'') (''ref='' @ a @ ''&path='' @ b) = [''ref='' @ a, ''path='' @ b]"
    using split_on_append [of "CHR ''&''" "''ref='' @ a" "''path='' @ b"] split_on_no_sep [of "CHR ''&''" "''ref='' @ a"]
      split_on_no_sep [of "CHR ''&''" "''path='' @ b"] assms(2,3) by (simp add: no_meta_def)
  moreover have "query_pair (''ref='' @ a) = Some (''ref'', a')" "query_pair (''path='' @ b) = Some (''path'', b')"
    using cut_at_append [of "CHR ''=''" "''ref''" a] cut_at_append [of "CHR ''=''" "''path''" b] assms(2-5)
    by (simp_all add: query_pair_def no_meta_def)
  ultimately show ?thesis unfolding follow_def Let_def ParseQuery_def by (simp only: option.case prod.case map_filter_simps)
qed

lemma unescape_link:
  assumes "CHR ''&'' \<notin> set p" "CHR ''&'' \<notin> set b"
  shows "html_unescape (p @ ''&path='' @ b) = p @ ''&path='' @ b"
proof -
  have "html_unescape (''&path='' @ b) = CHR ''&'' # html_unescape (''path='' @ b)" by (simp add: html_unescape.simps [of "CHR ''&'' # _"])
  moreover have "html_unescape (''path='' @ b) = ''path='' @ b" using assms(2) by (intro html_unescape_all) simp
  ultimately show ?thesis using html_unescape_plain [OF assms(1), of "''&path='' @ b"] by simp
qed

subsection \<open>The links of a directory\<close>

lemma tree_values_free: "html_free (frag_value (TreeList d))"
  by (simp add: entry_value_def list_all_iff)

definition tree_entry_escaped :: node where
  "tree_entry_escaped = block
    [TextNode ''\<newline>'',
     TextNode ''  <li>\<newline>'',
     TextNode ''    '',
     IfNode (Call ''eq'' [Field ''Type'', StrLit ''tree'']) (block
      [TextNode ''<span class=\"tree-type dir\">d</span><a class=\"tree-link\" href=\"/'',
       ActionNode (Arg (RootField ''Repo'')) [UrlNormalizer, AttrEscaper],
       TextNode ''/tree?ref='',
       ActionNode (Arg (RootField ''Ref'')) [UrlEscaper, AttrEscaper],
       TextNode ''&path='',
       ActionNode (Arg (Field ''Path'')) [UrlEscaper, AttrEscaper],
       TextNode ''\">'',
       ActionNode (Arg (Field ''Name'')) [HtmlEscaper],
       TextNode ''/</a>\<newline>'',
       TextNode ''    ''])
      (block
      [TextNode ''<span class=\"tree-type\">f</span><a class=\"tree-link\" href=\"/'',
       ActionNode (Arg (RootField ''Repo'')) [UrlNormalizer, AttrEscaper],
       TextNode ''/blob?ref='',
       ActionNode (Arg (RootField ''Ref'')) [UrlEscaper, AttrEscaper],
       TextNode ''&path='',
       ActionNode (Arg (Field ''Path'')) [UrlEscaper, AttrEscaper],
       TextNode ''\">'',
       ActionNode (Arg (Field ''Name'')) [HtmlEscaper],
       TextNode ''</a>'']),
     TextNode ''\<newline>'',
     TextNode ''  </li>\<newline>'',
     TextNode ''  '']"

lemma tree_entry_escape: "escape tree_entry_template (HText, UrlNone) = Some (tree_entry_escaped, HText, UrlNone)"
  by code_simp

lemma tree_head_escape: "map_option snd (escape (block (take 11 tree_nodes)) (HText, UrlNone)) = Some (HText, UrlNone)"
  by code_simp

lemma tree_template_split:
  "fragTmpl (TreeList d) = block (take 11 tree_nodes @ [RangeNode (Arg (Field ''Entries'')) tree_entry_template] @ drop 12 tree_nodes)"
proof -
  have "tree_nodes = take 11 tree_nodes @ [RangeNode (Arg (Field ''Entries'')) tree_entry_template] @ drop 12 tree_nodes"
    by (simp add: tree_nodes_def)
  then show ?thesis unfolding fragTmpl.simps tree_template_def by (rule arg_cong)
qed

text \<open>The listing is the head, the entries one after the other, and the rest.\<close>

lemma tree_entry_found:
  assumes "e \<in> set (td_Entries d)"
  shows "\<exists>pre qs post. frag (TreeList d) = pre @ text_of qs @ post \<and> scan HText pre = HText
    \<and> exec fragFuncs (frag_value (TreeList d)) tree_entry_escaped (entry_value e) = Ok qs"
proof -
  let ?v = "frag_value (TreeList d)"
  let ?f = "exec fragFuncs ?v tree_entry_escaped"
  obtain ps where ps: "ExecuteTemplate (TreeList d) = Ok ps" "frag (TreeList d) = text_of ps" by (rule frag_pieces)
  from ps(1) obtain n' u where n: "escape (block (take 11 tree_nodes @ [RangeNode (Arg (Field ''Entries'')) tree_entry_template] @ drop 12 tree_nodes)) (HText, UrlNone) = Some (n', HText, u)"
    "exec fragFuncs ?v n' ?v = Ok ps"
    unfolding ExecuteTemplate_def tree_template_split by (elim Execute_cases)
  from exec_block_append [OF n] obtain m1 c1 m2 p1 p2 where 1: "escape (block (take 11 tree_nodes)) (HText, UrlNone) = Some (m1, c1)"
    "exec fragFuncs ?v m1 ?v = Ok p1" "exec fragFuncs ?v m2 ?v = Ok p2" "ps = p1 @ p2"
    "escape (block ([RangeNode (Arg (Field ''Entries'')) tree_entry_template] @ drop 12 tree_nodes)) c1 = Some (m2, HText, u)" by blast
  have c1: "c1 = (HText, UrlNone)" using tree_head_escape 1(1) by simp
  from exec_block_append [OF 1(5,3)] obtain m3 c3 p3 p4 where 2: "escape (block [RangeNode (Arg (Field ''Entries'')) tree_entry_template]) c1 = Some (m3, c3)"
    "exec fragFuncs ?v m3 ?v = Ok p3" "p2 = p3 @ p4" by blast
  from 2(1) have "m3 = Seq (RangeNode (Arg (Field ''Entries'')) tree_entry_escaped) Skip" by (simp add: c1 tree_entry_escape)
  with 2(2) have "append_results (map ?f (map entry_value (td_Entries d))) = Ok p3"
    by (auto simp: append_results_Cons simp del: append_results.simps(2))
  from append_results_member [OF this, of "entry_value e"] assms obtain us q1 q2 q3 where q: "set us \<subseteq> set (map entry_value (td_Entries d))"
    "append_results (map ?f us) = Ok q1" "?f (entry_value e) = Ok q2" "p3 = q1 @ q2 @ q3" by auto
  have "scan HText (text_of qs) = HText" if "v \<in> set us" "?f v = Ok qs" for v qs
  proof -
    from that(1) q(1) have "html_free v" by (auto simp: entry_value_def)
    from exec_html_free [OF fragFuncs_html_free tree_values_free this that(2)] have "raws_whole qs" by (metis no_raws_in raws_in_whole)
    with exec_markup [OF tree_entry_escape that(2)] show ?thesis by blast
  qed
  with append_results_scan [OF q(2)] have "scan HText (text_of q1) = HText" by blast
  moreover have "scan HText (text_of p1) = HText"
    using exec_markup [OF 1(1) [unfolded c1] 1(2)] exec_html_free [OF fragFuncs_html_free tree_values_free tree_values_free 1(2)]
    by (metis no_raws_in raws_in_whole)
  ultimately show ?thesis using ps(2) 1(4) 2(3) q(3,4)
    by (intro exI [of _ "text_of p1 @ text_of q1"] exI [of _ q2] exI [of _ "text_of q3 @ text_of p4"]) simp
qed

text \<open>The text around the link of an entry.\<close>

definition entry_before :: "string \<Rightarrow> string" where
  "entry_before type = ''\<newline>  <li>\<newline>    '' @ (if type = ''tree'' then ''<span class=\"tree-type dir\">d</span><a class=\"tree-link\" href=''
     else ''<span class=\"tree-type\">f</span><a class=\"tree-link\" href='')"

lemma entry_before_scan: "scan HText (entry_before type) = HBeforeValue ''a'' ''href''"
proof -
  have "scan HText (entry_before ''tree'') = HBeforeValue ''a'' ''href''" "scan HText (entry_before []) = HBeforeValue ''a'' ''href''" by code_simp+
  moreover have "entry_before type = entry_before ''tree'' \<or> entry_before type = entry_before []" by (simp add: entry_before_def)
  ultimately show ?thesis by metis
qed

lemma tree_entry_text:
  assumes "exec fragFuncs (frag_value (TreeList d)) tree_entry_escaped (entry_value e) = Ok qs"
  shows "\<exists>rest. text_of qs = entry_before (te_Type e) @ [dquote_char]
    @ (''/'' @ htmlReplacer (processURLOnto True (td_Repo d)) @ (if te_Type e = ''tree'' then ''/tree'' else ''/blob'') @ ''?ref=''
       @ htmlReplacer (processURLOnto False (td_Ref d)) @ ''&path='' @ htmlReplacer (processURLOnto False (te_Path e)))
    @ [dquote_char] @ rest"
  using assms
  by (cases "te_Type e = ''tree''") (auto simp: tree_entry_escaped_def entry_value_def call_def apply_escaper_def entry_before_def)

text \<open>
  C34. Every entry of a directory listing is linked by its own URL: the listing has a link that, read as an attribute,
  followed by the browser and decoded by the server, gives the page for its kind in the same repository with exactly the
  reference of the listing and the path of the entry, whatever bytes these contain.
\<close>

theorem tree_links:
  assumes "ValidName (td_Repo d)" and "e \<in> set (td_Entries d)"
  shows "\<exists>link. has_link (frag (TreeList d)) link
    \<and> follow (html_unescape link)
        = (''/'' @ td_Repo d @ (if te_Type e = ''tree'' then ''/tree'' else ''/blob''), [(''ref'', td_Ref d), (''path'', te_Path e)])"
proof -
  let ?E = "processURLOnto False" let ?k = "if te_Type e = ''tree'' then ''/tree'' else ''/blob''"
  let ?p = "''/'' @ td_Repo d @ ?k"
  let ?link = "?p @ ''?ref='' @ ?E (td_Ref d) @ ''&path='' @ ?E (te_Path e)"
  obtain pre qs post where f: "frag (TreeList d) = pre @ text_of qs @ post" "scan HText pre = HText"
    "exec fragFuncs (frag_value (TreeList d)) tree_entry_escaped (entry_value e) = Ok qs" using tree_entry_found [OF assms(2)] by blast
  note name = link_text_name [OF assms(1)] and esc = link_text_escaped
  obtain rest where "text_of qs = entry_before (te_Type e) @ [dquote_char] @ ?link @ [dquote_char] @ rest"
    using tree_entry_text [OF f(3)] name esc by (auto simp: link_text_html)
  moreover have p: "link_text ?p" using name by (simp add: link_text_def link_char_def url_unreserved_def code_def)
  then have "dquote_char \<notin> set ?link" using link_text_chars [OF p] link_text_chars [OF esc] by auto
  ultimately have "has_link (frag (TreeList d)) ?link"
    unfolding has_link_def using f(1,2) entry_before_scan [of "te_Type e"]
    by (intro exI [of _ "pre @ entry_before (te_Type e)"] exI [of _ "rest @ post"]) (simp add: attrType_def lower_char_def ToLower_def)
  moreover have "html_unescape ?link = ?link"
    using unescape_link [of "?p @ ''?ref='' @ ?E (td_Ref d)" "?E (te_Path e)"] link_text_chars [OF p] link_text_chars [OF esc] by simp
  moreover have "QueryUnescape (?E s) = Some s" for s using decode_escaped [of s "[]"] by simp
  then have "follow ?link = (?p, [(''ref'', td_Ref d), (''path'', te_Path e)])"
    by (intro follow_link no_meta_link_text p esc)
  ultimately show ?thesis by metis
qed

subsection \<open>The download link\<close>

abbreviation download_open :: string where "download_open \<equiv> ''    <a class=\"blob-download\" href=''"

lemma blob_head_escape: "map_option snd (escape (block (take 9 blob_nodes)) (HText, UrlNone)) = Some (HText, UrlNone)"
  by code_simp

definition blob_link_escaped :: node where
  "blob_link_escaped = block [TextNode ''    <a class=\"blob-download\" href=\"'',
     ActionNode (Arg (Field ''RawURL'')) [UrlFilter, UrlNormalizer, AttrEscaper], TextNode ''\">download</a>\<newline>'']"

lemma blob_link_escape: "escape (block (take 3 (drop 9 blob_nodes))) (HText, UrlNone) = Some (blob_link_escaped, HText, UrlNone)"
  by code_simp

lemma blob_template_split: "fragTmpl (Blob d) = block (take 9 blob_nodes @ take 3 (drop 9 blob_nodes) @ drop 12 blob_nodes)"
proof -
  have "blob_nodes = take 9 blob_nodes @ take 3 (drop 9 blob_nodes) @ drop 12 blob_nodes" by (simp add: blob_nodes_def)
  then show ?thesis unfolding fragTmpl.simps blob_template_def by (rule arg_cong)
qed

lemma blob_head_raws:
  assumes "escape (block (take 9 blob_nodes)) (HText, UrlNone) = Some (m, c)" "exec fragFuncs (frag_value (Blob d)) m (frag_value (Blob d)) = Ok ps"
  shows "raws_whole ps"
proof -
  have "bare (block (take 9 blob_nodes))" by code_simp
  from exec_bare [OF this assms] obtain qs where qs: "exec fragFuncs (frag_value (Blob d)) (block (take 9 blob_nodes)) (frag_value (Blob d)) = Ok qs"
    "skeleton qs = skeleton ps" by blast
  from qs(1) have "raws qs = []"
    by (auto simp: blob_nodes_def append_results_Cons simp del: append_results.simps(2) split: if_splits)
  then have "raws ps = []" using qs(2) by (metis raws_skeleton)
  then show ?thesis using raws_in_body [of ps "[]"] by (auto intro: raws_in_whole)
qed

lemma blob_link_found:
  "\<exists>pre post. frag (Blob d) = pre @ download_open @ [dquote_char]
     @ htmlReplacer (processURLOnto True (apply_escaper UrlFilter (bl_RawURL d))) @ [dquote_char] @ post \<and> scan HText pre = HText"
proof -
  let ?v = "frag_value (Blob d)"
  obtain ps where ps: "ExecuteTemplate (Blob d) = Ok ps" "frag (Blob d) = text_of ps" by (rule frag_pieces)
  from ps(1) obtain n' u where n: "escape (block (take 9 blob_nodes @ take 3 (drop 9 blob_nodes) @ drop 12 blob_nodes)) (HText, UrlNone) = Some (n', HText, u)"
    "exec fragFuncs ?v n' ?v = Ok ps"
    unfolding ExecuteTemplate_def blob_template_split by (elim Execute_cases)
  from exec_block_append [OF n] obtain m1 c1 m2 p1 p2 where 1: "escape (block (take 9 blob_nodes)) (HText, UrlNone) = Some (m1, c1)"
    "exec fragFuncs ?v m1 ?v = Ok p1" "exec fragFuncs ?v m2 ?v = Ok p2" "ps = p1 @ p2"
    "escape (block (take 3 (drop 9 blob_nodes) @ drop 12 blob_nodes)) c1 = Some (m2, HText, u)" by blast
  have c1: "c1 = (HText, UrlNone)" using blob_head_escape 1(1) by simp
  from exec_block_append [OF 1(5) [unfolded c1] 1(3)] obtain p3 p4 where 2: "exec fragFuncs ?v blob_link_escaped ?v = Ok p3" "p2 = p3 @ p4"
    using blob_link_escape by auto
  have "scan HText (text_of p1) = HText" using exec_markup [OF 1(1) [unfolded c1] 1(2)] blob_head_raws [OF 1(1,2)] by blast
  moreover have e: "apply_escaper UrlNormalizer s = processURLOnto True s" "apply_escaper AttrEscaper s = htmlReplacer s" for s
    by (simp_all add: apply_escaper_def)
  have "p3 = [Lit ''    <a class=\"blob-download\" href=\"'', Val (htmlReplacer (processURLOnto True (apply_escaper UrlFilter (bl_RawURL d)))),
      Lit ''\">download</a>\<newline>'']"
    using 2(1) by (simp add: blob_link_escaped_def e)
  then have "text_of p3 = download_open @ [dquote_char] @ htmlReplacer (processURLOnto True (apply_escaper UrlFilter (bl_RawURL d)))
      @ [dquote_char] @ ''>download</a>\<newline>''" by simp
  ultimately show ?thesis using 2(2) ps(2) 1(4)
    by (intro exI [of _ "text_of p1"] exI [of _ "''>download</a>\<newline>'' @ text_of p4"]) simp
qed

text \<open>The characters for which the normalized URL of the page is the URL itself.\<close>

definition plain_path :: "string \<Rightarrow> bool" where
  "plain_path s = list_all (\<lambda>c. url_unreserved c \<or> c = CHR ''/'' \<or> c = CHR ''+'') s"

definition plus_to_space :: "string \<Rightarrow> string" where
  "plus_to_space s = map (\<lambda>c. if c = CHR ''+'' then CHR '' '' else c) s"

lemma plain_path_chars:
  assumes "plain_path s" "c \<in> set ''#?&;:%'' \<union> {nul_char, dquote_char}"
  shows "c \<notin> set s"
proof -
  have "\<not> (url_unreserved c \<or> c = CHR ''/'' \<or> c = CHR ''+'')" using assms(2) by (auto simp: url_unreserved_def is_digit_def code_def)
  with assms(1) show ?thesis by (auto simp: plain_path_def list_all_iff)
qed

lemma unescape_plain: "plain_path s \<Longrightarrow> QueryUnescape s = Some (plus_to_space s)"
proof (induction s)
  case (Cons c s)
  moreover from Cons.prems plain_path_chars [of "c # s" "CHR ''%''"] have "c \<noteq> CHR ''%''" by auto
  ultimately show ?case by (simp add: plain_path_def plus_to_space_def)
qed (simp add: plus_to_space_def)

lemma html_unescape_replacer: "nul_char \<notin> set s \<Longrightarrow> html_unescape (htmlReplacer s) = s"
proof (induction s)
  case (Cons c s)
  have "html_unescape (html_replacement c @ t) = c # html_unescape t" if "c \<noteq> nul_char" for t
    using that by (simp add: html_replacement_def html_unescape.simps [of "_ # _"])
  with Cons show ?case by (auto simp: htmlReplacer_def)
qed (simp add: htmlReplacer_def)

lemma normalized_id: "list_all (\<lambda>c. url_unreserved c \<or> url_reserved c) s \<Longrightarrow> processURLOnto True s = s"
  by (induction s) auto

text \<open>
  The download link of a file page is built without escaping the reference and the path, unlike the links of
  the listing: when they have a plus sign, the link asks for another file, with a space in its place.
\<close>

theorem download_link:
  assumes "ValidName name" "plain_path ref" "plain_path path"
    and "bl_RawURL d = ''/'' @ name @ ''/raw?ref='' @ ref @ ''&path='' @ path"
  shows "\<exists>link. has_link (frag (Blob d)) link
    \<and> follow (html_unescape link) = (''/'' @ name @ ''/raw'', [(''ref'', plus_to_space ref), (''path'', plus_to_space path)])"
proof -
  let ?p = "''/'' @ name @ ''/raw''" let ?u = "?p @ ''?ref='' @ ref @ ''&path='' @ path"
  have "plain_path ''/''" "plain_path ''/raw''" "plain_path name"
    by (code_simp, code_simp, use name_unreserved [OF assms(1)] in \<open>simp add: plain_path_def list_all_iff\<close>)
  then have p: "plain_path ?p" unfolding plain_path_def by (simp only: list_all_append)
  have u: "bl_RawURL d = ?u" by (simp add: assms(4))
  have "list_all (\<lambda>c. url_unreserved c \<or> url_reserved c) s" if "plain_path s" for s
    using that unfolding plain_path_def by (rule list.pred_mono_strong) (auto simp: url_reserved_def)
  note this [OF p] this [OF assms(2)] this [OF assms(3)]
  moreover have "list_all (\<lambda>c. url_unreserved c \<or> url_reserved c) ''?ref=''" "list_all (\<lambda>c. url_unreserved c \<or> url_reserved c) ''&path=''" by code_simp+
  ultimately have "list_all (\<lambda>c. url_unreserved c \<or> url_reserved c) ?u" by (simp only: list_all_append)
  then have norm: "processURLOnto True ?u = ?u" by (rule normalized_id)
  have "CHR '':'' \<notin> set ?u" "nul_char \<notin> set ?u"
    using plain_path_chars [OF p] plain_path_chars [OF assms(2)] plain_path_chars [OF assms(3)] by auto
  then have s: "apply_escaper UrlFilter ?u = ?u" "html_unescape (htmlReplacer ?u) = ?u"
    by (auto simp: apply_escaper_def isSafeURL_def cut_at_def html_unescape_replacer)
  obtain pre post where f: "frag (Blob d) = pre @ download_open @ [dquote_char] @ htmlReplacer ?u @ [dquote_char] @ post" "scan HText pre = HText"
    using blob_link_found [of d] unfolding u s(1) norm by blast
  have "scan HText download_open = HBeforeValue ''a'' ''href''" by code_simp
  with f html_replaced(2) [of ?u] have "has_link (frag (Blob d)) (htmlReplacer ?u)"
    unfolding has_link_def
    by (intro exI [of _ "pre @ download_open"] exI [of _ post]) (simp only: append_assoc scan_append, simp add: attrType_def lower_char_def ToLower_def)
  moreover have "no_meta s" if "plain_path s" for s using plain_path_chars [OF that] by (auto simp: no_meta_def)
  then have "follow ?u = (?p, [(''ref'', plus_to_space ref), (''path'', plus_to_space path)])"
    using p assms(2,3) by (intro follow_link unescape_plain)
  ultimately show ?thesis using s(2) by metis
qed

section \<open>Concrete links\<close>

definition sample_tree :: treeData where
  "sample_tree = \<lparr>td_Repo = ''alpha'', td_Ref = ''a&b'', td_Path = [], td_Entries = [\<lparr>te_Type = ''blob'', te_Name = ''c++'', te_Path = ''d/c++''\<rparr>], td_HasPath = False\<rparr>"

theorem tree_links_witness:
  "\<exists>link. has_link (frag (TreeList sample_tree)) link \<and> follow (html_unescape link) = (''/alpha/blob'', [(''ref'', ''a&b''), (''path'', ''d/c++'')])"
proof -
  have "ValidName (td_Repo sample_tree)" by code_simp
  from tree_links [OF this, of "\<lparr>te_Type = ''blob'', te_Name = ''c++'', te_Path = ''d/c++''\<rparr>"] show ?thesis by (simp add: sample_tree_def)
qed

definition sample_blob :: blobData where
  "sample_blob = \<lparr>bl_Repo = ''alpha'', bl_Ref = ''main'', bl_Path = ''c++.h'', bl_RawMarkdown = [], bl_Body = [], bl_IsMarkdown = False, bl_Truncated = False,
     bl_RenderMode = ''none'', bl_RawURL = ''/alpha/raw?ref=main&path=c++.h'', bl_Highlighted = False, bl_Lang = []\<rparr>"

theorem download_link_witness:
  "\<exists>link. has_link (frag (Blob sample_blob)) link \<and> follow (html_unescape link) = (''/alpha/raw'', [(''ref'', ''main''), (''path'', ''c  .h'')])"
proof -
  have v: "ValidName ''alpha''" "plain_path ''main''" "plain_path ''c++.h''" by code_simp+
  have "bl_RawURL sample_blob = ''/'' @ ''alpha'' @ ''/raw?ref='' @ ''main'' @ ''&path='' @ ''c++.h''" by (simp add: sample_blob_def)
  from download_link [OF v this] show ?thesis by (simp add: plus_to_space_def)
qed

end
