(* ===== verification/Daemon.thy ===== *)
theory Daemon
  imports Serve_Channel Browse
begin

text \<open>
  The daemon as a process, from the moment its two servers run (the end of \<open>runServe\<close> in \<open>internal/cli/serve.go\<close>): the
  actions channel with its worker, the socket server and the web server, the cancellation of their context by a
  signal, the channel on which both report, and the exit at the first report.
\<close>

abbreviation browseAddr :: string where "browseAddr \<equiv> '':443''"

record Process =
  pr_sys :: System
  pr_cancelled :: bool
  pr_serving :: bool
  pr_browsing :: bool
  pr_errCh :: "unit result list"
  pr_exit :: "unit result option"

text \<open>
  The steps. The channel makes its own steps; \<open>done\<close> is closed only by a \<open>srv.Run\<close> that sees the context canceled. A
  signal cancels the context. Either server may fail; \<open>srv.Run\<close> returns once the worker has left or the drain has
  timed out, \<open>bh.Run\<close> once it is shut down. \<open>runServe\<close> returns the first value on the error channel, and with it
  the process ends.
\<close>

inductive process_step :: "git_prog \<Rightarrow> ServeProc \<Rightarrow> Process \<Rightarrow> Process \<Rightarrow> bool" for git sv where
  channel: "pr_exit p = None \<Longrightarrow> serve_step git sv (pr_sys p) s' \<Longrightarrow>
    (stopping s' \<longrightarrow> stopping (pr_sys p) \<or> pr_cancelled p \<and> pr_serving p) \<Longrightarrow> process_step git sv p (p\<lparr>pr_sys := s'\<rparr>)"
| signal: "pr_exit p = None \<Longrightarrow> process_step git sv p (p\<lparr>pr_cancelled := True\<rparr>)"
| serve_fails: "pr_exit p = None \<Longrightarrow> pr_serving p \<Longrightarrow> \<not> stopping (pr_sys p) \<Longrightarrow>
    process_step git sv p (p\<lparr>pr_serving := False, pr_errCh := pr_errCh p @ [Serve_Run_end (Some e)]\<rparr>)"
| serve_drained: "pr_exit p = None \<Longrightarrow> pr_serving p \<Longrightarrow> stopping (pr_sys p) \<Longrightarrow> exited (pr_sys p) \<Longrightarrow>
    process_step git sv p (p\<lparr>pr_serving := False, pr_errCh := pr_errCh p @ [Serve_Run_end None]\<rparr>)"
| serve_timeout: "pr_exit p = None \<Longrightarrow> pr_serving p \<Longrightarrow> stopping (pr_sys p) \<Longrightarrow>
    process_step git sv p (p\<lparr>pr_serving := False, pr_errCh := pr_errCh p @ [Serve_Run_end None]\<rparr>)"
| browse_fails: "pr_exit p = None \<Longrightarrow> pr_browsing p \<Longrightarrow>
    process_step git sv p (p\<lparr>pr_browsing := False, pr_errCh := pr_errCh p @ [browse_Run browseAddr listen (Some e)]\<rparr>)"
| browse_ends: "pr_exit p = None \<Longrightarrow> pr_browsing p \<Longrightarrow> pr_cancelled p \<Longrightarrow>
    process_step git sv p (p\<lparr>pr_browsing := False, pr_errCh := pr_errCh p @ [browse_Run browseAddr (Ok ()) None]\<rparr>)"
| finish: "pr_exit p = None \<Longrightarrow> pr_errCh p = r # rs \<Longrightarrow> process_step git sv p (p\<lparr>pr_errCh := rs, pr_exit := Some r\<rparr>)"

inductive_cases process_stepE: "process_step git sv p p'"

definition started :: "System \<Rightarrow> Process" where
  "started s = \<lparr>pr_sys = s, pr_cancelled = False, pr_serving = True, pr_browsing = True, pr_errCh = [], pr_exit = None\<rparr>"

inductive process_reachable :: "git_prog \<Rightarrow> ServeProc \<Rightarrow> Process \<Rightarrow> bool" for git sv where
  start: "process_reachable git sv (started (idle_system w))"
| step: "process_reachable git sv p \<Longrightarrow> process_step git sv p p' \<Longrightarrow> process_reachable git sv p'"

section \<open>Facts\<close>

text \<open>The channel of the process is the channel of \<open>Serve_Channel\<close>, with all its properties.\<close>

lemma process_channel: "process_reachable git sv p \<Longrightarrow> reachable git sv (pr_sys p)"
proof (induction rule: process_reachable.induct)
  case (start w)
  show ?case by (simp add: started_def reachable.start)
next
  case (step p p')
  from step.hyps(2) step.IH show ?case by (cases rule: process_step.cases) (auto intro: reachable.step)
qed

text \<open>A server reports success only after a signal.\<close>

definition signal_first :: "Process \<Rightarrow> bool" where
  "signal_first p \<longleftrightarrow> (stopping (pr_sys p) \<longrightarrow> pr_cancelled p) \<and> (Ok () \<in> set (pr_errCh p) \<or> pr_exit p = Some (Ok ()) \<longrightarrow> pr_cancelled p)"

lemma signal_first_step: "process_step git sv p p' \<Longrightarrow> signal_first p \<Longrightarrow> signal_first p'"
  by (elim process_stepE) (auto simp: signal_first_def Serve_Run_end_def browse_Run_def split: sum.splits)

lemma process_signal_first: "process_reachable git sv p \<Longrightarrow> signal_first p"
proof (induction rule: process_reachable.induct)
  case (start w)
  show ?case by (simp add: started_def signal_first_def idle_system_def)
next
  case (step p p')
  from signal_first_step [OF step.hyps(2) step.IH] show ?case .
qed

lemma ended_frozen: "(process_step git sv)\<^sup>*\<^sup>* p p' \<Longrightarrow> pr_exit p \<noteq> None \<Longrightarrow> p' = p"
  by (induction rule: rtranclp_induct) (auto elim!: process_stepE)

text \<open>
  C38. The drain of the shutdown can be cut short by the process itself: in every state in which the web server runs and
  nothing was reported yet, whatever is at work or waiting in the channel, there is a continuation in which a signal
  arrives, the web server ends first and the process exits with success, the channel being exactly as it was; nothing
  runs after that. In no reachable state, on the other hand, has the process ended with success without a signal.
\<close>

theorem drain_cut_short:
  assumes "pr_exit p = None" "pr_browsing p" "pr_errCh p = []"
  shows "(\<exists>p'. (process_step git sv)\<^sup>*\<^sup>* p p' \<and> pr_exit p' = Some (Ok ()) \<and> pr_sys p' = pr_sys p
      \<and> (\<forall>p''. (process_step git sv)\<^sup>*\<^sup>* p' p'' \<longrightarrow> p'' = p'))
    \<and> (\<forall>q. process_reachable git sv q \<longrightarrow> pr_exit q = Some (Ok ()) \<longrightarrow> pr_cancelled q)"
proof
  let ?p1 = "p\<lparr>pr_cancelled := True\<rparr>" let ?p2 = "?p1\<lparr>pr_browsing := False, pr_errCh := pr_errCh ?p1 @ [browse_Run browseAddr (Ok ()) None]\<rparr>"
  let ?p3 = "?p2\<lparr>pr_errCh := [], pr_exit := Some (Ok ())\<rparr>"
  have "process_step git sv p ?p1" using assms(1) by (rule process_step.signal)
  moreover have "process_step git sv ?p1 ?p2" using assms(1,2) by (intro process_step.browse_ends) simp_all
  moreover have "process_step git sv ?p2 ?p3" using assms(1,3) by (intro process_step.finish) (simp_all add: browse_Run_def)
  ultimately have "(process_step git sv)\<^sup>*\<^sup>* p ?p3" by (meson converse_rtranclp_into_rtranclp rtranclp.rtrancl_refl)
  moreover have "p'' = ?p3" if "(process_step git sv)\<^sup>*\<^sup>* ?p3 p''" for p'' using ended_frozen [OF that] by simp
  moreover have "pr_exit ?p3 = Some (Ok ())" "pr_sys ?p3 = pr_sys p" by simp_all
  ultimately show "\<exists>p'. (process_step git sv)\<^sup>*\<^sup>* p p' \<and> pr_exit p' = Some (Ok ()) \<and> pr_sys p' = pr_sys p
      \<and> (\<forall>p''. (process_step git sv)\<^sup>*\<^sup>* p' p'' \<longrightarrow> p'' = p')" by blast
qed (use process_signal_first in \<open>auto simp: signal_first_def\<close>)

theorem drain_cut_short_witness:
  "process_reachable bundling_git sample_serve (started delivering)
   \<and> (\<exists>p'. (process_step bundling_git sample_serve)\<^sup>*\<^sup>* (started delivering) p' \<and> pr_exit p' = Some (Ok ())
     \<and> queue (pr_sys p') = [DeliverAll ''e''] \<and> executed (pr_sys p') = [])"
proof
  have "process_step bundling_git sample_serve (started (idle_system config_world)) (started delivering)"
    using process_step.channel [of "started (idle_system config_world)" bundling_git sample_serve delivering]
      serve_step.submit [of "idle_system config_world" sample_serve bundling_git "DeliverAll ''e''"]
    by (simp add: started_def idle_system_def sample_serve_def Serve_New_def delivering_def)
  with process_reachable.start show "process_reachable bundling_git sample_serve (started delivering)" by (rule process_reachable.step)
  show "\<exists>p'. (process_step bundling_git sample_serve)\<^sup>*\<^sup>* (started delivering) p' \<and> pr_exit p' = Some (Ok ())
     \<and> queue (pr_sys p') = [DeliverAll ''e''] \<and> executed (pr_sys p') = []"
    using drain_cut_short [of "started delivering" bundling_git sample_serve] by (auto simp: started_def delivering_def idle_system_def)
qed

end
