(* ===== verification/Spec2Isabelle.thy ===== *)
theory Spec2Isabelle
  imports Serve_Channel Serve_Jobs Cli_Facts Browse_Links Daemon
begin

text \<open>
  A verification development of gitd, a personal git server in Go (\<open>cmd/\<close> and \<open>internal/\<close> of the repository).

  \<^bold>\<open>The program.\<close> One binary with several roles. sshd starts \<open>gitd serve\<close> as the forced command of the git user:
  the gateway (\<open>internal/sshcmd\<close>) parses the client's command and starts git's pack servers on a repository
  below the root, creating it on a first push. git runs the hook shims (\<open>internal/hookshim\<close>), which start
  \<open>gitd pre-receive\<close> (strict parsing, disk headroom, push policies) and \<open>gitd notify\<close> (one event per reference,
  written to the spool, then a bundle request and synchronous deliveries over the control socket). Without
  an ssh connection \<open>gitd serve\<close> is the daemon: a buffered channel of actions with one worker (\<open>internal/serve\<close>)
  that uploads bundles of the repositories to an object store (\<open>internal/mirror\<close>, \<open>internal/objectstore\<close>), delivers
  spooled events to webhooks (\<open>internal/spool\<close>, \<open>internal/webhook\<close>), stages restore and delete jobs as files for
  the mirror agent, the only process that writes repositories (\<open>internal/mirror/agent.go\<close>), and renders
  the read-only web interface behind mutual TLS (\<open>internal/browse\<close>). The other verbs (\<open>internal/cli\<close>) are the
  administrator's; \<open>internal/socket\<close> is their client of the control socket.

  \<^bold>\<open>The language and the world.\<close> \<open>Gitd_Prelude\<close> has the shared rule collections and list and numeral lemmas;
  \<open>Go_Strings\<close>, \<open>Go_Path\<close>, \<open>Go_Errors\<close>, \<open>Go_Json\<close>, \<open>Go_Time\<close>, \<open>Go_Http\<close> and \<open>Go_Template\<close> model the parts of Go's
  standard library the sources call; the last one is \<open>html/template\<close>: execution on values, the contexts of the HTML
  around an action, and the escapers chosen for it. A Go string is a list of bytes. \<open>Go_Fs\<close> is the operating system: an operation is
  a state transformer over a \<open>world\<close> with the visible and the durable name space, a schedule of faults
  that any call may meet (with partial writes), the entropy, the programs started, what was written to the
  standard output, the objects of the store, and a journal of every intermediate state, so that crash
  properties quantify over all points of a run. It also holds the \<open>wp\<close> calculus and the frame predicates
  (\<open>keeps\<close>, \<open>quiet\<close>, \<open>untouched\<close>, \<open>starts_nothing\<close>, \<open>starts_only\<close>) that the proofs rest on.

  \<^bold>\<open>The components.\<close> Each theory follows its package, operation by operation:
  \<^item> \<open>Repo\<close> (\<open>internal/repo\<close>), \<open>Gitenv\<close> (\<open>internal/gitenv\<close>), \<open>Disk\<close> (\<open>internal/disk\<close>, 64-bit words);
  \<^item> \<open>Sshcmd\<close> (\<open>internal/sshcmd\<close>): tokenizer, identity, push-to-create, the gateway;
  \<^item> \<open>Event\<close> (\<open>internal/event\<close>), \<open>Atomic_Write\<close> (the write-sync-rename-sync routine that spool and job files share),
    \<open>Spool\<close> (\<open>internal/spool\<close>);
  \<^item> \<open>Objectstore\<close> (\<open>internal/objectstore\<close>, the in-memory store and the paginated S3 listing), \<open>Mirror\<close> and \<open>Agent\<close>
    (\<open>internal/mirror\<close>);
  \<^item> \<open>Config\<close> (\<open>internal/config\<close>), \<open>Webhook\<close> (\<open>internal/webhook\<close> with its plugins and its policy), \<open>Socket\<close>
    (\<open>internal/socket\<close>);
  \<^item> \<open>Serve\<close> (\<open>internal/serve\<close>): the actions, the handlers, start-up, and the channel as the step relation
    \<open>serve_step\<close> with its reachable states; \<open>Serve_Channel\<close> and \<open>Serve_Jobs\<close> hold its properties;
  \<^item> \<open>Hooks\<close> (\<open>internal/hookshim\<close> and the two hook verbs of \<open>internal/cli\<close>), properties in \<open>Hooks_Facts\<close>;
  \<^item> \<open>Pages\<close> (the templates of \<open>internal/browse\<close>, node by node), \<open>Browse\<close> and \<open>Browse_Tls\<close> (the rest of
    \<open>internal/browse\<close>), properties in \<open>Browse_Facts\<close>, \<open>Browse_Pages\<close>, \<open>Browse_Links\<close> and \<open>Browse_Tls\<close>;
  \<^item> \<open>Cli\<close> (the other verbs and the dispatch of \<open>internal/cli\<close>, and the entry points of \<open>cmd/\<close>), properties in \<open>Cli_Facts\<close>;
  \<^item> \<open>Daemon\<close> (the two servers of \<open>gitd serve\<close> as one process, the step relation \<open>process_step\<close>), with its properties.

  \<^bold>\<open>Interfaces.\<close> \<open>durable_cells\<close> (in \<open>Atomic_Write\<close>) is the contract of a store of named files that are replaced
  atomically; it is interpreted on the spool (\<open>spool\<close>) and on the job results (\<open>jobs\<close>). \<open>object_store\<close> (in
  \<open>Objectstore\<close>) is the contract of a bucket, interpreted on the in-memory store (\<open>mem\<close>), and the S3 listing
  is proved to refine it. \<open>template_functions\<close> (in \<open>Go_Template\<close>) is the contract of a function map, under which a template
  that fits the types of its data cannot fail; it is interpreted on the functions of the fragments
  (\<open>frag_functions\<close>) and on the layout, which has none (\<open>layout_functions\<close>).

  \<^bold>\<open>What is shown.\<close>
  \<^item> Confinement: the gateway, alone and as a whole process under sshd, starts only the allowed programs on
    allowlisted repositories; the web interface starts only reading git commands below the root; a delete job
    changes only the repository its name resolves to; start-up removes only what is its own; the command
    line reaches the socket for a deletion only on explicit confirmation.
  \<^item> Durability: spool writes are crash atomic under every fault schedule; a restore is all or nothing; a bundle
    that was reported as uploaded is the one a restore takes; a job result is readable once it is handed over.
  \<^item> Functional behaviour: the retry schedule, purge and catch-up, the book-keeping of deliveries, the push
    policies, the pre-receive gate and its agreement with the post-receive parser, the parsers and printers
    with their round trips, the admission of clients by TLS handshakes, the headers of every answer.
  \<^item> Pages: no template can fail on its data; values cannot change the markup of a template, so that no page carries a
    script or an event handler that is not in the templates; a link of a directory listing leads to its entry.
  \<^item> The channel: actions run in the order of their acceptance, each once, within the buffer; after shutdown the
    worker drains and ends. A deletion is followed through client, daemon and agent in one theorem.
  \<^item> Weaknesses of the code, as theorems: leftover temporary files, the last plugin deciding for all, submissions
    lost after shutdown, an exit that does not wait for the drain, a periodic sweep that ends at the first refused
    tick, durations that wrap, options injected into git, revocation not seen by resumed TLS sessions, rendered
    Markdown cut inside a tag, a download link that loses its plus signs.

  \<^bold>\<open>Parameters.\<close> Code outside the repository is an argument of the definitions that use it: git and every other
  program (\<open>git_prog\<close>: a command and a name space give a reply and a new name space), \<open>statfs\<close>, the S3 client,
  the HTTP transports, HMAC and SHA-256, the YAML decoder, the file watcher, Markdown, the
  lexers, and the X.509 functions. What a theorem needs of one of them is a named hypothesis (for example
  \<open>ancestry\<close>, \<open>plain_FileServer\<close>, \<open>clean_library\<close>) with a witness that instantiates it. A reading of the clock is an argument;
  what other processes do between two steps is an explicit argument or the step \<open>other\<close> of the channel.

  \<^bold>\<open>Bounds.\<close> Symbolic links are followed at most 255 times, as in Go. The JSON parser is given fuel
  \<open>2 * length + 1\<close>, which is shown to be enough for everything the printer produces. All other loops
  terminate by a proved measure; a process that waits for events is given the finite sequence it receives, and
  the value \<open>None\<close> means that it is still waiting. Go's \<open>int\<close> arithmetic wraps at 64 bits where it can overflow.

  \<^bold>\<open>Not modelled.\<close> The listeners and their timeouts, the period of the tickers (a tick is a submission of the step
  relation), logging, and file permissions; shell scripts, deployment, images, build rules and static assets. Of
  \<open>html/template\<close>, values in scripts, style sheets, unquoted attributes and tag names are refused by the analysis: no
  template has one. \<open>%q\<close> in an error message quotes without escaping,
  and case folding outside ASCII is limited to what JSON field matching needs.
\<close>

end
